theory Spec2Isabelle
  imports Main "HOL-Library.Word"
begin

unbundle bit_operations_syntax

section \<open>PPPoE discovery packets: memory, byte order, tag lookup\<close>

text \<open>
  A received frame is a region of bytes. Offsets are counted from the first byte of the
  PPPoE header (\<^verbatim>\<open>struct pppoe_hdr\<close>: ver/type, code, sid, length; 6 bytes), so
  \<^verbatim>\<open>ph + 1\<close> is offset 6 and \<^verbatim>\<open>ph->length\<close> occupies offsets 4 and 5. A tag header
  (\<^verbatim>\<open>struct pppoe_tag\<close>) is 4 bytes: tag_type at +0, tag_len at +2, the value at +4.
  Every function that dereferences packet memory returns, next to its result, the list of
  byte offsets it has read, in order.
\<close>

type_synonym byte = "8 word"
type_synonym mem = "nat \<Rightarrow> byte"

definition mem_of :: "byte list \<Rightarrow> mem" where
  "mem_of bs = (\<lambda>a. if a < length bs then bs ! a else 0)"

text \<open>A 16-bit load on the little-endian host (the \<^verbatim>\<open>#else\<close> branch of the tag constants).\<close>

definition load16 :: "mem \<Rightarrow> nat \<Rightarrow> 16 word" where
  "load16 m a = ucast (m a) OR push_bit 8 (ucast (m (a + 1)))"

definition ntohs :: "16 word \<Rightarrow> 16 word" where
  "ntohs x = push_bit 8 x OR drop_bit 8 x"

definition PTT_SRV_NAME :: "16 word" where "PTT_SRV_NAME = 0x0101"
definition PTT_VENDOR :: "16 word" where "PTT_VENDOR = 0x0501"

definition tag_len :: "mem \<Rightarrow> nat \<Rightarrow> nat" where
  "tag_len m pt = unat (ntohs (load16 m (pt + 2)))"

definition hdr_end :: "mem \<Rightarrow> nat" where
  "hdr_end m = 6 + unat (ntohs (load16 m 4))"

function get_tag_loop :: "mem \<Rightarrow> nat \<Rightarrow> 16 word \<Rightarrow> nat \<Rightarrow> nat list \<Rightarrow> nat option \<times> nat list" where
  "get_tag_loop m endp idx pt rd =
     (if pt + 4 \<le> endp then
        (if pt + 4 + tag_len m pt > endp then (None, rd @ [pt + 2, pt + 3])
         else if load16 m pt = idx then (Some pt, rd @ [pt + 2, pt + 3, pt, pt + 1])
         else get_tag_loop m endp idx (pt + 4 + tag_len m pt) (rd @ [pt + 2, pt + 3, pt, pt + 1]))
      else (None, rd))"
  by pat_completeness auto
termination
  by (relation "measure (\<lambda>(m, endp, idx, pt, rd). endp - pt)") auto

definition get_tag :: "mem \<Rightarrow> 16 word \<Rightarrow> nat option \<times> nat list" where
  "get_tag m idx = get_tag_loop m (hdr_end m) idx 6 [4, 5]"

declare get_tag_loop.simps [simp del]

text \<open>
  The tag sequence in the words of the specification, to compare \<^verbatim>\<open>get_tag\<close> with: the
  iterator yields the tags one after the other from the end of the PPPoE header on and
  "stops silently at the first malformed entry (incomplete header or value extending
  past \<^verbatim>\<open>ntohs(length)\<close>)". A tag is given by the offset of its header; the next tag
  starts where the value of this one ends.
\<close>

function tag_iter :: "mem \<Rightarrow> nat \<Rightarrow> nat \<Rightarrow> nat list" where
  "tag_iter m endp pt =
     (if pt + 4 \<le> endp \<and> pt + 4 + tag_len m pt \<le> endp
      then pt # tag_iter m endp (pt + 4 + tag_len m pt)
      else [])"
  by pat_completeness auto
termination
  by (relation "measure (\<lambda>(m, endp, pt). endp - pt)") auto

declare tag_iter.simps [simp del]

definition tags :: "mem \<Rightarrow> nat list" where
  "tags m = tag_iter m (hdr_end m) 6"

definition load32 :: "mem \<Rightarrow> nat \<Rightarrow> 32 word" where
  "load32 m a = ucast (m a) OR push_bit 8 (ucast (m (a + 1)))
                 OR push_bit 16 (ucast (m (a + 2))) OR push_bit 24 (ucast (m (a + 3)))"

definition htonl :: "32 word \<Rightarrow> 32 word" where
  "htonl x = push_bit 24 x OR push_bit 8 (x AND 0xFF00) OR (drop_bit 8 x AND 0xFF00) OR drop_bit 24 x"

text \<open>
  \<^verbatim>\<open>get_vs_tag\<close>: the same walk; a tag matches when it is Vendor-Specific, at least 4
  bytes long and its first 4 value bytes, read as one host word, equal \<open>idx\<close>. The
  \<^verbatim>\<open>&&\<close> chain reads the vendor id only when the first two tests pass.
\<close>

definition vs_match :: "mem \<Rightarrow> 32 word \<Rightarrow> nat \<Rightarrow> bool" where
  "vs_match m idx pt = (load16 m pt = PTT_VENDOR \<and> tag_len m pt \<ge> 4 \<and> load32 m (pt + 4) = idx)"

definition vs_reads :: "mem \<Rightarrow> nat \<Rightarrow> nat list" where
  "vs_reads m pt =
     [pt + 2, pt + 3, pt, pt + 1] @
     (if load16 m pt = PTT_VENDOR then
        [pt + 2, pt + 3] @ (if tag_len m pt \<ge> 4 then [pt + 4, pt + 5, pt + 6, pt + 7] else [])
      else [])"

function get_vs_tag_loop :: "mem \<Rightarrow> nat \<Rightarrow> 32 word \<Rightarrow> nat \<Rightarrow> nat list \<Rightarrow> nat option \<times> nat list" where
  "get_vs_tag_loop m endp idx pt rd =
     (if pt + 4 \<le> endp then
        (if pt + 4 + tag_len m pt > endp then (None, rd @ [pt + 2, pt + 3])
         else if vs_match m idx pt then (Some pt, rd @ vs_reads m pt)
         else get_vs_tag_loop m endp idx (pt + 4 + tag_len m pt) (rd @ vs_reads m pt))
      else (None, rd))"
  by pat_completeness auto
termination
  by (relation "measure (\<lambda>(m, endp, idx, pt, rd). endp - pt)") auto

definition get_vs_tag :: "mem \<Rightarrow> 32 word \<Rightarrow> nat option \<times> nat list" where
  "get_vs_tag m idx = get_vs_tag_loop m (hdr_end m) idx 6 [4, 5]"

declare get_vs_tag_loop.simps [simp del]

section \<open>The Agent-Circuit-ID / Agent-Remote-ID decoder of PppoeListenEvent\<close>

text \<open>
  \<^verbatim>\<open>agent_cid\<close> and \<^verbatim>\<open>agent_rid\<close> are 64-byte buffers, zeroed by \<^verbatim>\<open>bzero\<close>.
  \<^verbatim>\<open>b\<close> is a \<^verbatim>\<open>const char *\<close>: a byte read through it is sign-extended when it is
  converted to \<^verbatim>\<open>size_t\<close> (64 bits). \<^verbatim>\<open>len - pos - 2\<close> is computed in \<^verbatim>\<open>size_t\<close> and
  wraps around.
\<close>

definition char_to_size_t :: "byte \<Rightarrow> 64 word" where
  "char_to_size_t c = scast c"

definition size_t_sub2 :: "nat \<Rightarrow> nat \<Rightarrow> 64 word" where
  "size_t_sub2 len pos = of_nat len - of_nat pos - 2"

text \<open>
  \<^verbatim>\<open>strncpy(dst, src, n)\<close>: the \<open>n\<close> bytes it writes and the source offsets it reads.
  It stops reading at the first NUL and pads the rest of the \<open>n\<close> bytes with NULs.
\<close>

fun strncpy_src :: "mem \<Rightarrow> nat \<Rightarrow> nat \<Rightarrow> byte list \<times> nat list" where
  "strncpy_src m src 0 = ([], [])"
| "strncpy_src m src (Suc n) =
     (if m src = 0 then (replicate (Suc n) 0, [src])
      else (m src # fst (strncpy_src m (src + 1) n), src # snd (strncpy_src m (src + 1) n)))"

definition strncpy_into :: "byte list \<Rightarrow> mem \<Rightarrow> nat \<Rightarrow> nat \<Rightarrow> byte list" where
  "strncpy_into dst m src n = fst (strncpy_src m src n) @ drop n dst"

text \<open>The contents of a char buffer read as a C string.\<close>

definition cstr :: "byte list \<Rightarrow> byte list" where
  "cstr buf = takeWhile (\<lambda>c. c \<noteq> 0) buf"

definition sub_len1 :: "mem \<Rightarrow> nat \<Rightarrow> nat \<Rightarrow> nat" where
  "sub_len1 m b pos =
     (if char_to_size_t (m (b + pos + 1)) \<ge> 64 then 63 else unat (char_to_size_t (m (b + pos + 1))))"

record agent_ids =
  cid_buf :: "byte list"
  rid_buf :: "byte list"

definition sub_store :: "mem \<Rightarrow> nat \<Rightarrow> nat \<Rightarrow> agent_ids \<Rightarrow> agent_ids" where
  "sub_store m b pos ids =
     (if m (b + pos) = 1 then ids\<lparr>cid_buf := strncpy_into (cid_buf ids) m (b + pos + 2) (sub_len1 m b pos)\<rparr>
      else if m (b + pos) = 2 then ids\<lparr>rid_buf := strncpy_into (rid_buf ids) m (b + pos + 2) (sub_len1 m b pos)\<rparr>
      else ids)"

definition sub_reads :: "mem \<Rightarrow> nat \<Rightarrow> nat \<Rightarrow> nat list" where
  "sub_reads m b pos =
     [b + pos + 1, b + pos] @
     (if m (b + pos) = 1 \<or> m (b + pos) = 2 then snd (strncpy_src m (b + pos + 2) (sub_len1 m b pos)) else [])"

function bbf_loop :: "mem \<Rightarrow> nat \<Rightarrow> nat \<Rightarrow> nat \<Rightarrow> agent_ids \<Rightarrow> nat list \<Rightarrow> agent_ids \<times> nat list" where
  "bbf_loop m b len pos ids rd =
     (if pos + 1 \<le> len then
        (if char_to_size_t (m (b + pos + 1)) > size_t_sub2 len pos then (ids, rd @ [b + pos + 1])
         else bbf_loop m b len (pos + (2 + sub_len1 m b pos)) (sub_store m b pos ids) (rd @ sub_reads m b pos))
      else (ids, rd))"
  by pat_completeness auto
termination
  by (relation "measure (\<lambda>(m, b, len, pos, ids, rd). len - pos)") auto

declare bbf_loop.simps [simp del]

text \<open>
  The block of PppoeListenEvent from the two \<^verbatim>\<open>bzero\<close> calls to the end of the vendor
  tag scan. \<^verbatim>\<open>len = ntohs(tag->tag_len) - 4\<close> is at least 0 because get_vs_tag only
  returns tags with tag_len of 4 or more.
\<close>

definition decode_agent_ids :: "mem \<Rightarrow> agent_ids \<times> nat list" where
  "decode_agent_ids m =
     (let zero = \<lparr>cid_buf = replicate 64 0, rid_buf = replicate 64 0\<rparr> in
      case get_vs_tag m (htonl 0x00000DE9) of
        (None, rd) \<Rightarrow> (zero, rd)
      | (Some t, rd) \<Rightarrow> bbf_loop m (t + 8) (tag_len m t - 4) 0 zero (rd @ [t + 2, t + 3]))"



section \<open>Strings and numbers of the C library\<close>

text \<open>
  C strings are modelled by their contents up to the terminating NUL.
  \<^verbatim>\<open>strlcpy(dst, src, n)\<close> and \<^verbatim>\<open>snprintf(dst, n, ...)\<close> keep at most \<open>n - 1\<close> characters.
\<close>

definition strlcpy :: "string \<Rightarrow> nat \<Rightarrow> string" where
  "strlcpy src n = take (n - 1) src"

definition NG_HOOKSIZ :: nat where "NG_HOOKSIZ = 32"
definition MAX_PATH :: nat where "MAX_PATH = 64"
definition MAX_SESSION :: nat where "MAX_SESSION = 64"
definition IFNAMSIZ :: nat where "IFNAMSIZ = 16"
definition PPPOE_SERVICE_NAME_SIZE :: nat where "PPPOE_SERVICE_NAME_SIZE = 64"
definition PPPOE_MRU :: int where "PPPOE_MRU = 1492"
definition ETHER_MAX_LEN :: int where "ETHER_MAX_LEN = 1518"

definition digit_char :: "nat \<Rightarrow> char" where
  "digit_char d = char_of (48 + d)"

function dec_digits :: "nat \<Rightarrow> string" where
  "dec_digits n = (if n < 10 then [digit_char n] else dec_digits (n div 10) @ [digit_char (n mod 10)])"
  by pat_completeness auto
termination
  by (relation "measure (\<lambda>n. n)") auto

declare dec_digits.simps [simp del]

text \<open>The conversion \<^verbatim>\<open>%d\<close> of printf.\<close>

definition fmt_d :: "int \<Rightarrow> string" where
  "fmt_d i = (if i < 0 then CHR ''-'' # dec_digits (nat (- i)) else dec_digits (nat i))"

definition isspace_c :: "char \<Rightarrow> bool" where
  "isspace_c c = (of_char c \<in> {32, 9, 10, 11, 12, 13 :: nat})"

definition isdigit_c :: "char \<Rightarrow> bool" where
  "isdigit_c c = (48 \<le> (of_char c :: nat) \<and> (of_char c :: nat) \<le> 57)"

fun digits_val :: "int \<Rightarrow> string \<Rightarrow> int" where
  "digits_val acc [] = acc"
| "digits_val acc (c # cs) = digits_val (acc * 10 + (int (of_char c) - 48)) cs"

definition LONG_MAX :: int where "LONG_MAX = 2 ^ 63 - 1"
definition LONG_MIN :: int where "LONG_MIN = - (2 ^ 63)"

text \<open>
  \<^verbatim>\<open>strtol(s, &rest, 10)\<close> on an LP64 host: white space, an optional sign, decimal
  digits; without any digit the value is 0 and \<open>rest\<close> is the whole of \<open>s\<close>; a value
  out of range is clamped. The result is the pair (value, rest).
\<close>

definition strtol :: "string \<Rightarrow> int \<times> string" where
  "strtol s =
     (let s1 = dropWhile isspace_c s;
          neg = (s1 \<noteq> [] \<and> hd s1 = CHR ''-'');
          s2 = (if s1 \<noteq> [] \<and> (hd s1 = CHR ''-'' \<or> hd s1 = CHR ''+'') then tl s1 else s1);
          ds = takeWhile isdigit_c s2
      in if ds = [] then (0, s)
         else (max LONG_MIN (min LONG_MAX (if neg then - digits_val 0 ds else digits_val 0 ds)),
               dropWhile isdigit_c s2))"

text \<open>Storing a \<^verbatim>\<open>long\<close> in an \<^verbatim>\<open>int\<close> keeps the low 32 bits.\<close>

definition long_to_int :: "int \<Rightarrow> int" where
  "long_to_int v = sint (word_of_int v :: 32 word)"

definition atoi :: "string \<Rightarrow> int" where
  "atoi s = long_to_int (fst (strtol s))"

definition str_of_bytes :: "byte list \<Rightarrow> string" where
  "str_of_bytes bs = map (\<lambda>b. char_of (unat b)) bs"

section \<open>Links, parent interfaces and the process state\<close>

datatype phys_state = PHYS_STATE_DOWN | PHYS_STATE_CONNECTING | PHYS_STATE_READY | PHYS_STATE_UP

datatype phystype = gPppoePhysType | OtherPhysType

datatype link_opt = LINK_CONF_INCOMING | LINK_CONF_ACFCOMP | LINK_CONF_OTHER nat

datatype mac_fmt = MAC_UNFORMATTED | MAC_UNIX_LIKE | MAC_CISCO_LIKE | MAC_IETF

text \<open>
  \<^verbatim>\<open>struct pppoeinfo\<close>. \<open>PIf\<close> is the pointer into the static table \<^verbatim>\<open>PppoeIfs\<close>, kept
  as the index of the slot; \<open>plist\<close> (the field \<^verbatim>\<open>list\<close>) is the address of a
  \<^verbatim>\<open>struct PppoeList\<close> on the heap (the heap \<open>lheap\<close> of the process state is the list of
  all such blocks ever allocated, a freed one being \<open>None\<close>). \<open>connectTimer\<close> records whether the timer is
  running.
\<close>

record pppoeinfo =
  iface :: string
  path :: string
  hook :: string
  session :: string
  acname :: string
  max_payload :: "16 word"
  mac_format :: mac_fmt
  peeraddr :: "byte list"
  real_session :: string
  agent_cid :: string
  agent_rid :: string
  incoming :: byte
  opened :: byte
  mp_reply :: byte
  PIf :: "nat option"
  plist :: "nat option"
  connectTimer :: bool

record link =
  link_id :: int
  lname :: string
  ltype :: phystype
  state :: phys_state
  tmpl :: bool
  stay :: bool
  opt_enable :: "link_opt set"
  opt_accept :: "link_opt set"
  info :: pppoeinfo

record PppoeList =
  l_session :: string
  l_refs :: int

record PppoeIf =
  ifnodepath :: string
  node_id :: "32 word"
  refs :: int
  csock :: int
  dsock :: int
  ctrlEvent :: bool
  dataEvent :: bool
  slist :: "nat list"

text \<open>What the subsystem does to its collaborators, in order.\<close>

datatype loglevel = LG_ERR | LG_PHYS | LG_PHYS2 | LG_PHYS3

datatype reason = STR_ERROR | STR_CON_FAILED0 | STR_MANUALLY | STR_DROPPED

datatype ngpath = NodeIdPath "32 word" string | NamePath string

datatype ngsend = NGM_CONNECT | NGM_MKPEER | NGM_LISTTYPES | NGM_LISTHOOKS
  | NGM_PPPOE_CONNECT | NGM_PPPOE_SETMAXP_REQ | NGM_PPPOE_OFFER | NGM_PPPOE_SERVICE | NGM_PPPOE_LISTEN

datatype effect =
    Log loglevel string
  | Perror string
  | NgSendMsg int ngpath ngsend "string list"
  | NgSendData int string
  | NgFuncDisconnect int ngpath string
  | NgFuncShutdownNode int ngpath
  | PhysUp nat
  | PhysDown nat reason
  | PhysIncoming nat
  | CloseFd int
  | LinkShutdownReq nat

datatype fault = NullDeref | OutOfBounds | AssertFailed | BadPointer

record world =
  gPid :: int
  gLinks :: "link option list"
  PppoeIfs :: "PppoeIf list"
  lheap :: "PppoeList option list"
  gNgEtherLoaded :: bool
  trace :: "effect list"

definition emit :: "effect \<Rightarrow> world \<Rightarrow> world" where
  "emit e w = w\<lparr>trace := trace w @ [e]\<rparr>"

text \<open>A \<^verbatim>\<open>Link\<close> argument is the index of its slot in \<^verbatim>\<open>gLinks\<close>.\<close>

definition get_link :: "world \<Rightarrow> nat \<Rightarrow> link option" where
  "get_link w k = (if k < length (gLinks w) then gLinks w ! k else None)"

definition put_link :: "nat \<Rightarrow> link \<Rightarrow> world \<Rightarrow> world" where
  "put_link k l w = w\<lparr>gLinks := (gLinks w)[k := Some l]\<rparr>"

definition get_if :: "world \<Rightarrow> nat \<Rightarrow> PppoeIf option" where
  "get_if w i = (if i < length (PppoeIfs w) then Some (PppoeIfs w ! i) else None)"

definition put_if :: "nat \<Rightarrow> PppoeIf \<Rightarrow> world \<Rightarrow> world" where
  "put_if i e w = w\<lparr>PppoeIfs := (PppoeIfs w)[i := e]\<rparr>"

text \<open>A slot of the static, zero-filled table \<^verbatim>\<open>PppoeIfs\<close> at start.\<close>

definition zero_if :: PppoeIf where
  "zero_if = \<lparr>ifnodepath = [], node_id = 0, refs = 0, csock = 0, dsock = 0,
              ctrlEvent = False, dataEvent = False, slist = []\<rparr>"

definition session_hook_of :: "world \<Rightarrow> link \<Rightarrow> string" where
  "session_hook_of w l = take (NG_HOOKSIZ - 1) (''mpd'' @ fmt_d (gPid w) @ ''-'' @ fmt_d (link_id l))"

subsection \<open>PppoeInit\<close>

text \<open>
  \<^verbatim>\<open>Malloc\<close> hands out zero-filled memory; PppoeInit relies on it for the fields it
  does not assign (\<^verbatim>\<open>acname\<close>, \<^verbatim>\<open>list\<close>, \<^verbatim>\<open>connectTimer\<close>).
\<close>

definition zeroed_info :: pppoeinfo where
  "zeroed_info = \<lparr>iface = [], path = [], hook = [], session = [], acname = [],
     max_payload = 0, mac_format = MAC_UNFORMATTED, peeraddr = replicate 6 0,
     real_session = [], agent_cid = [], agent_rid = [], incoming = 0, opened = 0,
     mp_reply = 0, PIf = None, plist = None, connectTimer = False\<rparr>"

definition PppoeInit :: "link \<Rightarrow> link" where
  "PppoeInit l =
     l\<lparr>info := zeroed_info\<lparr>
          incoming := 0,
          opened := 0,
          iface := take (IFNAMSIZ - 1) ''undefined'',
          path := take (MAX_PATH - 1) ''undefined:'',
          hook := take (NG_HOOKSIZ - 1) ''undefined'',
          session := take (MAX_SESSION - 1) ''*'',
          peeraddr := replicate 6 0,
          real_session := strlcpy (take (MAX_SESSION - 1) ''*'') MAX_SESSION,
          agent_cid := [],
          agent_rid := [],
          PIf := None,
          max_payload := 0,
          mac_format := MAC_UNFORMATTED,
          mp_reply := 0\<rparr>\<rparr>"

subsection \<open>PppoeDoClose, PppoeClose, PppoeConnectTimeout\<close>

definition PppoeDoClose :: "nat \<Rightarrow> world \<Rightarrow> fault + world" where
  "PppoeDoClose k w =
     (case get_link w k of
        None \<Rightarrow> Inl BadPointer
      | Some l \<Rightarrow>
          if state l = PHYS_STATE_DOWN then Inr w
          else (case PIf (info l) of
              None \<Rightarrow> Inl NullDeref
            | Some i \<Rightarrow> (case get_if w i of
                None \<Rightarrow> Inl BadPointer
              | Some pif \<Rightarrow>
                  Inr (put_link k
                        (l\<lparr>state := PHYS_STATE_DOWN,
                           info := (info l)\<lparr>connectTimer := False, incoming := 0,
                                     peeraddr := replicate 6 0, real_session := [],
                                     agent_cid := [], agent_rid := [], mp_reply := 0\<rparr>\<rparr>)
                        (emit (NgFuncDisconnect (csock pif) (NodeIdPath (node_id pif) [])
                                 (session_hook_of w l)) w)))))"

definition PppoeClose :: "nat \<Rightarrow> world \<Rightarrow> fault + world" where
  "PppoeClose k w =
     (case get_link w k of
        None \<Rightarrow> Inl BadPointer
      | Some l \<Rightarrow>
          (let w1 = put_link k (l\<lparr>info := (info l)\<lparr>opened := 0\<rparr>\<rparr>) w in
           if state l = PHYS_STATE_DOWN then Inr w1
           else (case PppoeDoClose k w1 of
               Inl f \<Rightarrow> Inl f
             | Inr w2 \<Rightarrow> Inr (emit (PhysDown k STR_MANUALLY) w2))))"

definition PPPOE_CONNECT_TIMEOUT :: nat where "PPPOE_CONNECT_TIMEOUT = 9"

definition PppoeConnectTimeout :: "nat \<Rightarrow> world \<Rightarrow> fault + world" where
  "PppoeConnectTimeout k w =
     (case PppoeDoClose k (emit (Log LG_PHYS ''PPPoE connection timeout'') w) of
        Inl f \<Rightarrow> Inl f
      | Inr w1 \<Rightarrow> Inr (emit (PhysDown k STR_CON_FAILED0) w1))"


subsection \<open>PppoeCtrlReadEvent\<close>

datatype pppoe_cmd = NGM_PPPOE_SUCCESS | NGM_PPPOE_FAIL | NGM_PPPOE_CLOSE | NGM_PPPOE_SETMAXP
  | NGM_PPPOE_SESSIONID | NGM_PPPOE_ACNAME | NGM_PPPOE_HURL | NGM_PPPOE_MOTM | NGM_PPPOE_OTHER nat

text \<open>
  What \<^verbatim>\<open>NgRecvMsg\<close> delivered: whether the type cookie is \<^verbatim>\<open>NGM_PPPOE_COOKIE\<close>, the
  command, the hook name at the start of the payload (\<^verbatim>\<open>struct ngpppoe_sts\<close> and
  \<^verbatim>\<open>struct ngpppoe_maxp\<close> both begin with it) and the 16-bit value of a SETMAXP reply.
\<close>

record ng_mesg =
  cookie_is_pppoe :: bool
  cmd :: pppoe_cmd
  sts_hook :: string
  maxp_data :: "16 word"

datatype route = Dropped world | Routed nat | Crashed fault

definition needs_link :: "pppoe_cmd \<Rightarrow> bool" where
  "needs_link c = (c = NGM_PPPOE_SUCCESS \<or> c = NGM_PPPOE_FAIL \<or> c = NGM_PPPOE_CLOSE \<or> c = NGM_PPPOE_SETMAXP)"

text \<open>
  The first \<^verbatim>\<open>switch\<close>: find the link a SUCCESS, FAIL, CLOSE or SETMAXP message is for.
  \<^verbatim>\<open>gLinks[id]\<close> is evaluated with the number parsed from the hook name, whatever it
  is; the table has \<^verbatim>\<open>gNumLinks\<close> entries, and an index outside of it is an access
  outside the array.
\<close>

definition unexisting :: "ng_mesg \<Rightarrow> world \<Rightarrow> route" where
  "unexisting msg w =
     Dropped (emit (Log (if cmd msg = NGM_PPPOE_SUCCESS then LG_ERR else LG_PHYS)
                      ''PPPoE: message from unexisting link'') w)"

definition route_link :: "nat \<Rightarrow> ng_mesg \<Rightarrow> world \<Rightarrow> int \<Rightarrow> route" where
  "route_link PIf_arg msg w lid =
     (if lid < 0 \<or> nat lid \<ge> length (gLinks w) then Crashed OutOfBounds
      else (case gLinks w ! nat lid of
          None \<Rightarrow> unexisting msg w
        | Some l \<Rightarrow>
            if ltype l \<noteq> gPppoePhysType then unexisting msg w
            else if Some PIf_arg \<noteq> PIf (info l) then unexisting msg w
            else if state l = PHYS_STATE_DOWN then
              Dropped (if cmd msg \<noteq> NGM_PPPOE_CLOSE
                       then emit (Log LG_PHYS ''PPPoE: message in DOWN state'') w else w)
            else Routed (nat lid)))"

definition ppphook_of :: "world \<Rightarrow> string" where
  "ppphook_of w = take (NG_HOOKSIZ - 1) (''mpd'' @ fmt_d (gPid w) @ ''-'')"

definition ctrl_route :: "nat \<Rightarrow> ng_mesg \<Rightarrow> world \<Rightarrow> route" where
  "ctrl_route PIf_arg msg w =
     (let linkname = sts_hook msg;
          ppphook = ppphook_of w
      in if take 7 linkname = ''listen-'' then Dropped w
         else if take (length ppphook) linkname \<noteq> ppphook then
           Dropped (emit (Log LG_ERR ''PPPoE: message from unknown hook'') w)
         else
           (let linkname' = drop (length ppphook) linkname;
                lid = long_to_int (fst (strtol linkname'));
                rest = snd (strtol linkname')
            in if rest \<noteq> [] then unexisting msg w
               else route_link PIf_arg msg w lid))"

text \<open>
  The second \<^verbatim>\<open>switch\<close>. \<open>lk\<close> is the link found by the first one; for the commands
  that did not go through it, \<^verbatim>\<open>l\<close> and \<^verbatim>\<open>pi\<close> are NULL and are not dereferenced.
\<close>

definition ctrl_decode :: "nat option \<Rightarrow> ng_mesg \<Rightarrow> world \<Rightarrow> fault + world" where
  "ctrl_decode lk msg w =
     (case cmd msg of
        NGM_PPPOE_SESSIONID \<Rightarrow> Inr (emit (Log LG_PHYS3 ''PPPoE: rec'd SESSIONID'') w)
      | NGM_PPPOE_ACNAME \<Rightarrow> Inr (emit (Log LG_PHYS ''PPPoE: rec'd ACNAME'') w)
      | NGM_PPPOE_HURL \<Rightarrow> Inr (emit (Log LG_PHYS ''PPPoE: rec'd HURL'') w)
      | NGM_PPPOE_MOTM \<Rightarrow> Inr (emit (Log LG_PHYS ''PPPoE: rec'd MOTM'') w)
      | NGM_PPPOE_OTHER n \<Rightarrow> Inr (emit (Log LG_PHYS ''PPPoE: rec'd command'') w)
      | _ \<Rightarrow>
        (case lk of
           None \<Rightarrow> Inl NullDeref
         | Some k \<Rightarrow> (case get_link w k of
             None \<Rightarrow> Inl BadPointer
           | Some l \<Rightarrow>
              (case cmd msg of
                 NGM_PPPOE_SUCCESS \<Rightarrow>
                   (let w1 = emit (Log LG_PHYS ''PPPoE: connection successful'') w in
                    if opened (info l) \<noteq> 0 then
                      Inr (emit (PhysUp k)
                            (put_link k (l\<lparr>state := PHYS_STATE_UP,
                                            info := (info l)\<lparr>connectTimer := False\<rparr>\<rparr>) w1))
                    else Inr (put_link k (l\<lparr>state := PHYS_STATE_READY\<rparr>) w1))
               | NGM_PPPOE_FAIL \<Rightarrow>
                   (case PppoeDoClose k (emit (Log LG_PHYS ''PPPoE: connection failed'') w) of
                      Inl f \<Rightarrow> Inl f
                    | Inr w1 \<Rightarrow> Inr (emit (PhysDown k STR_CON_FAILED0) w1))
               | NGM_PPPOE_CLOSE \<Rightarrow>
                   (case PppoeDoClose k (emit (Log LG_PHYS ''PPPoE: connection closed'') w) of
                      Inl f \<Rightarrow> Inl f
                    | Inr w1 \<Rightarrow> Inr (emit (PhysDown k STR_DROPPED) w1))
               | NGM_PPPOE_SETMAXP \<Rightarrow>
                   (let w1 = emit (Log LG_PHYS ''PPPoE: rec'd PPP-Max-Payload'') w in
                    if max_payload (info l) > 0 then
                      (if max_payload (info l) = maxp_data msg
                       then Inr (put_link k (l\<lparr>info := (info l)\<lparr>mp_reply := 1\<rparr>\<rparr>) w1)
                       else Inr (emit (Log LG_PHYS ''PPPoE: sent and returned values are not equal'') w1))
                    else Inr (emit (Log LG_PHYS ''PPPoE: server sent tag PPP-Max-Payload without request from the client'') w1))
               | _ \<Rightarrow> Inr w))))"

text \<open>\<open>rcv\<close> is \<open>None\<close> when \<^verbatim>\<open>NgRecvMsg\<close> fails.\<close>

definition PppoeCtrlReadEvent :: "nat \<Rightarrow> ng_mesg option \<Rightarrow> world \<Rightarrow> fault + world" where
  "PppoeCtrlReadEvent PIf_arg rcv w =
     (case rcv of
        None \<Rightarrow> Inr (emit (Perror ''PPPoE: error reading message'') w)
      | Some msg \<Rightarrow>
          if \<not> cookie_is_pppoe msg then Inr (emit (Log LG_ERR ''PPPoE: rec'd cookie'') w)
          else if needs_link (cmd msg) then
            (case ctrl_route PIf_arg msg w of
               Dropped w' \<Rightarrow> Inr w'
             | Crashed f \<Rightarrow> Inl f
             | Routed k \<Rightarrow> ctrl_decode (Some k) msg w)
          else ctrl_decode None msg w)"

subsection \<open>The parent-interface table: CreatePppoeNode, PppoeGetNode, PppoeReleaseNode\<close>

text \<open>
  The answers of the operating system and of the netgraph library to the calls of
  CreatePppoeNode, in call order. \<open>mksock\<close> is the pair of descriptors of
  \<^verbatim>\<open>NgMkSockNode\<close> (\<open>None\<close> when it fails); descriptors are not negative.
  \<open>new_node_id\<close> is the result of \<^verbatim>\<open>NgGetNodeID\<close> (0 on failure).
\<close>

record linkinfo =
  ourhook :: string
  peer_type :: string
  peer_id :: "32 word"

record hooklist =
  node_type :: string
  hooks :: "linkinfo list"

record create_env =
  iface_up_ok :: bool
  mksock :: "(nat \<times> nat) option"
  listtypes_sent :: bool
  listtypes_reply :: "string list option"
  kldload_ok :: bool
  listhooks_sent :: bool
  listhooks_reply :: "hooklist option"
  mkpeer_ok :: bool
  new_node_id :: "32 word"

definition close_socks :: "nat \<Rightarrow> world \<Rightarrow> world" where
  "close_socks i w = emit (CloseFd (dsock (PppoeIfs w ! i))) (emit (CloseFd (csock (PppoeIfs w ! i))) w)"

definition is_ether_type :: "string \<Rightarrow> bool" where
  "is_ether_type t = (take 5 t = ''ether'')"

text \<open>The part of CreatePppoeNode after the node type list has been dealt with.\<close>

definition create_hooks :: "nat \<Rightarrow> string \<Rightarrow> string \<Rightarrow> string \<Rightarrow> create_env \<Rightarrow> world \<Rightarrow> bool \<times> world" where
  "create_hooks i ifc pth hk env w =
     (let cs = csock (PppoeIfs w ! i);
          w1 = emit (NgSendMsg cs (NamePath pth) NGM_LISTHOOKS []) w
      in if \<not> listhooks_sent env then (False, close_socks i (emit (Perror ''Cannot send a netgraph message'') w1))
         else (case listhooks_reply env of
             None \<Rightarrow> (False, close_socks i (emit (Perror ''Cannot get netgraph response'') w1))
           | Some hl \<Rightarrow>
               if \<not> is_ether_type (node_type hl) then
                 (False, close_socks i (emit (Log LG_ERR ''Unexpected node type'') w1))
               else (case find (\<lambda>h. ourhook h = ''orphans'' \<or> ourhook h = ''divert'') (hooks hl) of
                   Some h \<Rightarrow>
                     if peer_type h \<noteq> ''pppoe'' then
                       (False, close_socks i (emit (Log LG_ERR ''Node type is currently using orphan hook'') w1))
                     else (True, put_if i ((PppoeIfs w1 ! i)\<lparr>node_id := peer_id h, ctrlEvent := True, dataEvent := True\<rparr>) w1)
                 | None \<Rightarrow>
                     (let w2 = emit (NgSendMsg cs (NamePath pth) NGM_MKPEER [''pppoe'', strlcpy hk NG_HOOKSIZ, ''ethernet'']) w1
                      in if \<not> mkpeer_ok env then (False, close_socks i (emit (Perror ''can't create peer'') w2))
                         else (let w3 = put_if i ((PppoeIfs w2 ! i)\<lparr>node_id := new_node_id env\<rparr>) w2
                               in if new_node_id env = 0 then (False, close_socks i (emit (Perror ''Cannot get node id'') w3))
                                  else (True, put_if i ((PppoeIfs w3 ! i)\<lparr>ctrlEvent := True, dataEvent := True\<rparr>) w3))))))"

definition CreatePppoeNode :: "nat \<Rightarrow> string \<Rightarrow> string \<Rightarrow> string \<Rightarrow> create_env \<Rightarrow> world \<Rightarrow> fault + bool \<times> world" where
  "CreatePppoeNode i ifc pth hk env w =
     (if \<not> iface_up_ok env then Inr (False, emit (Perror ''PPPoE: can't bring up interface'') w)
      else (case mksock env of
          None \<Rightarrow> Inr (False, emit (Perror ''PPPoE: can't create ctrl socket'') w)
        | Some (c, d) \<Rightarrow>
            (let w1 = put_if i ((PppoeIfs w ! i)\<lparr>csock := int c, dsock := int d\<rparr>) w
             in if \<not> gNgEtherLoaded w1 then
                  (let w2 = emit (NgSendMsg (int c) (NamePath []) NGM_LISTTYPES []) w1
                   in if \<not> listtypes_sent env then
                        Inr (False, close_socks i (emit (Perror ''PPPoE: Cannot send a netgraph message'') w2))
                      else (case listtypes_reply env of
                          None \<Rightarrow> Inr (False, close_socks i (emit (Perror ''PPPoE: Cannot get netgraph response'') w2))
                        | Some tys \<Rightarrow>
                            if \<not> list_ex is_ether_type tys \<and> \<not> kldload_ok env then Inl AssertFailed
                            else Inr (create_hooks i ifc pth hk env (w2\<lparr>gNgEtherLoaded := True\<rparr>))))
                else Inr (create_hooks i ifc pth hk env w1))))"

text \<open>The search loop of PppoeGetNode: the result is the pair (j, free).\<close>

fun scan_ifs :: "PppoeIf list \<Rightarrow> string \<Rightarrow> nat \<Rightarrow> nat option \<Rightarrow> nat option \<times> nat option" where
  "scan_ifs [] p i free = (None, free)"
| "scan_ifs (e # es) p i free =
     (if ifnodepath e = [] then scan_ifs es p (i + 1) (Some i)
      else if ifnodepath e = p then (Some i, free)
      else scan_ifs es p (i + 1) free)"

definition PppoeGetNode :: "nat \<Rightarrow> create_env \<Rightarrow> world \<Rightarrow> fault + world" where
  "PppoeGetNode k env w =
     (case get_link w k of
        None \<Rightarrow> Inl BadPointer
      | Some l \<Rightarrow>
          if PIf (info l) \<noteq> None then Inr w
          else if path (info l) = ''undefined:'' then
            Inr (emit (Log LG_ERR ''PPPoE: Skipping link with undefined interface'') w)
          else (case scan_ifs (PppoeIfs w) (path (info l)) 0 None of
              (Some j, free) \<Rightarrow>
                Inr (put_link k (l\<lparr>info := (info l)\<lparr>PIf := Some j\<rparr>\<rparr>)
                      (put_if j ((PppoeIfs w ! j)\<lparr>refs := refs (PppoeIfs w ! j) + 1\<rparr>) w))
            | (None, None) \<Rightarrow> Inr (emit (Log LG_ERR ''PPPoE: Too many different parent interfaces!'') w)
            | (None, Some free) \<Rightarrow>
                (case CreatePppoeNode free (iface (info l)) (path (info l)) (hook (info l)) env w of
                   Inl f \<Rightarrow> Inl f
                 | Inr (ok, w1) \<Rightarrow>
                     if ok then
                       Inr (put_link k (l\<lparr>info := (info l)\<lparr>PIf := Some free\<rparr>\<rparr>)
                             (put_if free ((PppoeIfs w1 ! free)\<lparr>ifnodepath := strlcpy (path (info l)) MAX_PATH,
                                                                   refs := 1\<rparr>) w1))
                     else Inr (emit (Log LG_ERR ''PPPoE: Error creating ng_pppoe node'') w1))))"

definition PppoeReleaseNode :: "nat \<Rightarrow> world \<Rightarrow> fault + world" where
  "PppoeReleaseNode k w =
     (case get_link w k of
        None \<Rightarrow> Inl BadPointer
      | Some l \<Rightarrow>
          (case PIf (info l) of
             None \<Rightarrow> Inr w
           | Some i \<Rightarrow> (case get_if w i of
               None \<Rightarrow> Inl BadPointer
             | Some e \<Rightarrow>
                 (let w1 = (if refs e - 1 = 0
                            then emit (CloseFd (dsock e)) (emit (CloseFd (csock e))
                                   (put_if i (e\<lparr>refs := refs e - 1, ifnodepath := [], node_id := 0,
                                               ctrlEvent := False, dataEvent := False,
                                               csock := - 1, dsock := - 1\<rparr>) w))
                            else put_if i (e\<lparr>refs := refs e - 1\<rparr>) w)
                  in Inr (put_link k (l\<lparr>info := (info l)\<lparr>PIf := None\<rparr>\<rparr>) w1)))))"

subsection \<open>PppoeOpen\<close>

text \<open>
  Modelled from the spec: \<^verbatim>\<open>Disable\<close> and \<^verbatim>\<open>Deny\<close> are macros of the link framework,
  which is not among the sources; open "disables and denies the ACFC link option", so
  they remove the option from the enabled and from the accepted options of the link.
\<close>

definition Disable :: "link_opt \<Rightarrow> link \<Rightarrow> link" where
  "Disable x l = l\<lparr>opt_enable := opt_enable l - {x}\<rparr>"

definition Deny :: "link_opt \<Rightarrow> link \<Rightarrow> link" where
  "Deny x l = l\<lparr>opt_accept := opt_accept l - {x}\<rparr>"

definition Enabled :: "link \<Rightarrow> link_opt \<Rightarrow> bool" where
  "Enabled l x = (x \<in> opt_enable l)"

text \<open>
  The answers to the calls PppoeOpen makes: \<^verbatim>\<open>PhysGetUpperHook\<close> (\<open>None\<close> when it
  fails) and whether each \<^verbatim>\<open>NgSendMsg\<close> and \<^verbatim>\<open>NgFuncShutdownNode\<close> succeeds.
\<close>

record open_env =
  node_env :: create_env
  upper_hook :: "(string \<times> string) option"
  connect_ok :: bool
  shutdown_tee_ok :: bool
  setmaxp_ok :: bool
  pppoe_connect_ok :: bool

definition open_fail :: "nat \<Rightarrow> world \<Rightarrow> world" where
  "open_fail k w = emit (PhysDown k STR_ERROR) w"

definition open_fail2 :: "nat \<Rightarrow> PppoeIf \<Rightarrow> string \<Rightarrow> world \<Rightarrow> world" where
  "open_fail2 k pif shook w =
     open_fail k (emit (NgFuncDisconnect (csock pif) (NodeIdPath (node_id pif) []) shook) w)"

definition open_incoming :: "nat \<Rightarrow> link \<Rightarrow> open_env \<Rightarrow> world \<Rightarrow> fault + world" where
  "open_incoming k l env w =
     (let shook = session_hook_of w l;
          w1 = emit (Log LG_PHYS2 ''PppoeOpen() on incoming call'') w
      in case PIf (info l) of
           None \<Rightarrow> Inl NullDeref
         | Some i \<Rightarrow> (case get_if w i of
             None \<Rightarrow> Inl BadPointer
           | Some pif \<Rightarrow>
              (case upper_hook env of
                 None \<Rightarrow> Inr (open_fail2 k pif shook (emit (Log LG_PHYS ''PPPoE: can't get upper hook'') w1))
               | Some (upath, upeer) \<Rightarrow>
                   (let tee = NodeIdPath (node_id pif) shook;
                        w2 = emit (NgSendMsg (csock pif) tee NGM_CONNECT [''right'', upath, upeer]) w1
                    in if \<not> connect_ok env then
                         Inr (open_fail2 k pif shook (emit (Perror ''PPPoE: can't connect'') w2))
                       else
                         (let w3 = emit (NgFuncShutdownNode (csock pif) tee) w2;
                              w4 = (if shutdown_tee_ok env then w3
                                    else emit (Perror ''PPPoE: Shutdown ng_tee node error'') w3)
                          in if state l = PHYS_STATE_READY then
                               Inr (emit (PhysUp k)
                                     (put_link k (l\<lparr>state := PHYS_STATE_UP,
                                                     info := (info l)\<lparr>connectTimer := False\<rparr>\<rparr>) w4))
                             else Inr w4)))))"

text \<open>The outgoing path after the call of PppoeGetNode.\<close>

definition open_connect :: "nat \<Rightarrow> open_env \<Rightarrow> world \<Rightarrow> fault + world" where
  "open_connect k env w1 =
     (case get_link w1 k of
          None \<Rightarrow> Inl BadPointer
        | Some l \<Rightarrow> (case PIf (info l) of
            None \<Rightarrow> Inr (open_fail k (emit (Log LG_ERR ''PPPoE node for link is not initialized'') w1))
          | Some i \<Rightarrow> (case get_if w1 i of
              None \<Rightarrow> Inl BadPointer
            | Some pif \<Rightarrow>
               (let shook = session_hook_of w1 l;
                    npath = NodeIdPath (node_id pif) []
                in case upper_hook env of
                     None \<Rightarrow> Inr (open_fail2 k pif shook (emit (Log LG_PHYS ''PPPoE: can't get upper hook'') w1))
                   | Some (upath, upeer) \<Rightarrow>
                      (let w2 = emit (NgSendMsg (csock pif) npath NGM_CONNECT [shook, upath, upeer]) w1
                       in if \<not> connect_ok env then
                            Inr (open_fail2 k pif shook (emit (Perror ''PPPoE: can't connect'') w2))
                          else
                            (let w3 = (if max_payload (info l) > 0
                                       then emit (Log LG_PHYS ''PPPoE: Set PPP-Max-Payload'') w2 else w2);
                                 w4 = emit (NgSendMsg (csock pif) npath NGM_PPPOE_SETMAXP_REQ []) w3
                             in if \<not> setmaxp_ok env then
                                  Inr (open_fail2 k pif shook (emit (Perror ''PPPoE can't set PPP-Max-Payload value'') w4))
                                else
                                  (let w5 = emit (NgSendMsg (csock pif) npath NGM_PPPOE_CONNECT
                                                    [shook, take MAX_SESSION (session (info l))])
                                              (emit (Log LG_PHYS ''PPPoE: Connecting'') w4)
                                   in if \<not> pppoe_connect_ok env then
                                        Inr (open_fail2 k pif shook (emit (Perror ''PPPoE can't request connection to server'') w5))
                                      else
                                        Inr (put_link k
                                              (l\<lparr>state := PHYS_STATE_CONNECTING,
                                                 info := (info l)\<lparr>connectTimer := True,
                                                           real_session := strlcpy (session (info l)) MAX_SESSION,
                                                           agent_cid := [], agent_rid := [], mp_reply := 0\<rparr>\<rparr>)
                                              w5))))))))"

definition open_outgoing :: "nat \<Rightarrow> open_env \<Rightarrow> world \<Rightarrow> fault + world" where
  "open_outgoing k env w =
     (case PppoeGetNode k (node_env env) w of
        Inl f \<Rightarrow> Inl f
      | Inr w1 \<Rightarrow> open_connect k env w1)"

definition PppoeOpen :: "nat \<Rightarrow> open_env \<Rightarrow> world \<Rightarrow> fault + world" where
  "PppoeOpen k env w =
     (case get_link w k of
        None \<Rightarrow> Inl BadPointer
      | Some l0 \<Rightarrow>
          (let l = Deny LINK_CONF_ACFCOMP (Disable LINK_CONF_ACFCOMP (l0\<lparr>info := (info l0)\<lparr>opened := 1\<rparr>\<rparr>));
               w0 = put_link k l w
           in if incoming (info l) = 1 then open_incoming k l env w0
              else if state l \<noteq> PHYS_STATE_DOWN then Inr (emit (Log LG_PHYS ''PPPoE allready active'') w0)
              else open_outgoing k env w0))"

subsection \<open>Listening: PppoeListen, PppoeUnListen, PppoeNodeUpdate\<close>

text \<open>
  The walk along the \<^verbatim>\<open>SLIST\<close> of a parent for a given service name; following a
  pointer to a freed block is a fault.
\<close>

fun find_listener :: "PppoeList option list \<Rightarrow> nat list \<Rightarrow> string \<Rightarrow> fault + nat option" where
  "find_listener h [] s = Inr None"
| "find_listener h (a # as) s =
     (if a < length h then
        (case h ! a of
           None \<Rightarrow> Inl BadPointer
         | Some pl \<Rightarrow> if l_session pl = s then Inr (Some a) else find_listener h as s)
      else Inl BadPointer)"

record listen_env =
  lconnect_ok :: bool
  listen_ok :: bool

definition listen_hook :: "string \<Rightarrow> string" where
  "listen_hook s = take (NG_HOOKSIZ - 1) (''listen-'' @ s)"

text \<open>The callers of PppoeListen and PppoeUnListen ignore the value they return.\<close>

definition PppoeListen :: "nat \<Rightarrow> listen_env \<Rightarrow> world \<Rightarrow> fault + world" where
  "PppoeListen k env w =
     (case get_link w k of
        None \<Rightarrow> Inl BadPointer
      | Some l \<Rightarrow>
          if plist (info l) \<noteq> None then Inr w
          else (case PIf (info l) of
              None \<Rightarrow> Inr w
            | Some i \<Rightarrow> (case get_if w i of
                None \<Rightarrow> Inl BadPointer
              | Some pif \<Rightarrow>
                 (case find_listener (lheap w) (slist pif) (session (info l)) of
                    Inl f \<Rightarrow> Inl f
                  | Inr (Some a) \<Rightarrow>
                      Inr (put_link k (l\<lparr>info := (info l)\<lparr>plist := Some a\<rparr>\<rparr>)
                            (w\<lparr>lheap := (lheap w)[a := map_option (\<lambda>pl. pl\<lparr>l_refs := l_refs pl + 1\<rparr>) (lheap w ! a)]\<rparr>))
                  | Inr None \<Rightarrow>
                      (let a = length (lheap w);
                           w1 = put_link k (l\<lparr>info := (info l)\<lparr>plist := Some a\<rparr>\<rparr>)
                                  (put_if i (pif\<lparr>slist := a # slist pif\<rparr>)
                                     (w\<lparr>lheap := lheap w @ [Some \<lparr>l_session = strlcpy (session (info l)) MAX_SESSION,
                                                                  l_refs = 1\<rparr>]\<rparr>));
                           w2 = emit (NgSendMsg (csock pif) (NamePath ''.:'') NGM_CONNECT
                                        [listen_hook (session (info l)), listen_hook (session (info l))]) w1
                       in if \<not> lconnect_ok env then Inr (emit (Perror ''PPPoE: Can't connect'') w2)
                          else (let w3 = emit (NgSendMsg (csock pif) (NodeIdPath (node_id pif) []) NGM_PPPOE_LISTEN
                                                 [listen_hook (session (info l)), take MAX_SESSION (session (info l))]) w2
                                in if \<not> listen_ok env then Inr (emit (Perror ''PPPoE: Can't send NGM_PPPOE_LISTEN'') w3)
                                   else Inr (emit (Log LG_PHYS ''PPPoE: waiting for connection'') w3)))))))"

definition PppoeUnListen :: "nat \<Rightarrow> world \<Rightarrow> fault + world" where
  "PppoeUnListen k w =
     (case get_link w k of
        None \<Rightarrow> Inl BadPointer
      | Some l \<Rightarrow>
          (case plist (info l) of
             None \<Rightarrow> Inr w
           | Some a \<Rightarrow>
               if a \<ge> length (lheap w) then Inl BadPointer
               else (case lheap w ! a of
                   None \<Rightarrow> Inl BadPointer
                 | Some pl \<Rightarrow>
                     if l_refs pl - 1 = 0 then
                       (case PIf (info l) of
                          None \<Rightarrow> Inl NullDeref
                        | Some i \<Rightarrow> (case get_if w i of
                            None \<Rightarrow> Inl BadPointer
                          | Some pif \<Rightarrow>
                              if a \<notin> set (slist pif) then Inl BadPointer
                              else Inr (put_link k (l\<lparr>info := (info l)\<lparr>plist := None\<rparr>\<rparr>)
                                         (put_if i (pif\<lparr>slist := remove1 a (slist pif)\<rparr>)
                                            (emit (Log LG_PHYS ''PPPoE: stop waiting for connection'')
                                               (emit (NgFuncDisconnect (csock pif) (NodeIdPath (node_id pif) [])
                                                        (listen_hook (l_session pl)))
                                                  (w\<lparr>lheap := (lheap w)[a := None]\<rparr>)))))))
                     else Inr (put_link k (l\<lparr>info := (info l)\<lparr>plist := None\<rparr>\<rparr>)
                                (w\<lparr>lheap := (lheap w)[a := Some (pl\<lparr>l_refs := l_refs pl - 1\<rparr>)]\<rparr>)))))"

definition PppoeNodeUpdate :: "nat \<Rightarrow> create_env \<Rightarrow> listen_env \<Rightarrow> world \<Rightarrow> fault + world" where
  "PppoeNodeUpdate k cenv lenv w =
     (case get_link w k of
        None \<Rightarrow> Inl BadPointer
      | Some l \<Rightarrow>
          if plist (info l) = None then
            (if Enabled l LINK_CONF_INCOMING then
               (case PppoeGetNode k cenv w of
                  Inl f \<Rightarrow> Inl f
                | Inr w1 \<Rightarrow> PppoeListen k lenv w1)
             else Inr w)
          else
            (if \<not> Enabled l LINK_CONF_INCOMING then
               (case PppoeUnListen k w of
                  Inl f \<Rightarrow> Inl f
                | Inr w1 \<Rightarrow> if state l = PHYS_STATE_DOWN then PppoeReleaseNode k w1 else Inr w1)
             else Inr w))"

subsection \<open>PppoeShutdown and PppoeInst\<close>

text \<open>
  PppoeShutdown ends with \<^verbatim>\<open>Freee(l->info)\<close>; the link framework calls it when it
  disposes of the link, so the link is gone afterwards (see \<open>LinkShutdown\<close> below).
\<close>

definition PppoeShutdown :: "nat \<Rightarrow> world \<Rightarrow> fault + world" where
  "PppoeShutdown k w =
     (case PppoeDoClose k w of
        Inl f \<Rightarrow> Inl f
      | Inr w1 \<Rightarrow> (case PppoeUnListen k w1 of
          Inl f \<Rightarrow> Inl f
        | Inr w2 \<Rightarrow> PppoeReleaseNode k w2))"

text \<open>
  \<^verbatim>\<open>PppoeInst(l, lt)\<close>: \<open>k\<close> is the new link, \<open>kt\<close> the template. The private data is
  duplicated and the reference counts of the shared parent and listener are raised.
\<close>

definition PppoeInst :: "nat \<Rightarrow> nat \<Rightarrow> world \<Rightarrow> fault + world" where
  "PppoeInst k kt w =
     (case (get_link w k, get_link w kt) of
        (Some l, Some lt) \<Rightarrow>
          (let w1 = put_link k (l\<lparr>info := info lt\<rparr>) w in
           case (case PIf (info lt) of
                   None \<Rightarrow> Inr w1
                 | Some i \<Rightarrow> (case get_if w1 i of
                     None \<Rightarrow> Inl BadPointer
                   | Some pif \<Rightarrow> Inr (put_if i (pif\<lparr>refs := refs pif + 1\<rparr>) w1))) of
             Inl f \<Rightarrow> Inl f
           | Inr w2 \<Rightarrow>
               (case plist (info lt) of
                  None \<Rightarrow> Inr w2
                | Some a \<Rightarrow>
                    if a \<ge> length (lheap w2) then Inl BadPointer
                    else (case lheap w2 ! a of
                        None \<Rightarrow> Inl BadPointer
                      | Some pl \<Rightarrow> Inr (w2\<lparr>lheap := (lheap w2)[a := Some (pl\<lparr>l_refs := l_refs pl + 1\<rparr>)]\<rparr>))))
      | _ \<Rightarrow> Inl BadPointer)"

subsection \<open>PppoeSetCommand\<close>

datatype set_arg = SET_IFACE | SET_SESSION | SET_ACNAME | SET_MAX_PAYLOAD | SET_MAC_FORMAT | SET_OTHER

text \<open>
  The value a command handler returns: 0, -1 (wrong number of arguments) or the error
  code of the macro \<^verbatim>\<open>Error\<close>.

  Modelled from the spec: \<^verbatim>\<open>Error\<close> is a macro of the command framework, which is not
  among the sources. A bad value on a \<open>set\<close> command is "reported to CLI; no state
  change": the macro stores the formatted message for the console and leaves the
  handler at once with an error code. The message is the format with the argument
  filled in; the two formats used here put the argument between double quotes
  (character 0x22).
\<close>

datatype cmd_status = CmdOk | CmdUsage | CmdError string

text \<open>
  The loop of \<^verbatim>\<open>SET_IFACE\<close> over the copied interface name (at most 62 characters
  after \<^verbatim>\<open>strlcpy(pi->path, pi->iface, sizeof(pi->path) - 1)\<close>): dots and colons become
  underscores and the terminating NUL, always met within the 63 iterations, becomes a
  colon.
\<close>

definition iface_path :: "string \<Rightarrow> string" where
  "iface_path ifc =
     map (\<lambda>c. if c = CHR ''.'' \<or> c = CHR '':'' then CHR ''_'' else c) (strlcpy ifc (MAX_PATH - 1)) @ '':''"

definition set_info :: "nat \<Rightarrow> (pppoeinfo \<Rightarrow> pppoeinfo) \<Rightarrow> world \<Rightarrow> world" where
  "set_info k f w =
     (case get_link w k of None \<Rightarrow> w | Some l \<Rightarrow> put_link k (l\<lparr>info := f (info l)\<rparr>) w)"

definition relisten_iface :: "nat \<Rightarrow> create_env \<Rightarrow> listen_env \<Rightarrow> world \<Rightarrow> fault + world" where
  "relisten_iface k cenv lenv w =
     (case PppoeUnListen k w of
        Inl f \<Rightarrow> Inl f
      | Inr w1 \<Rightarrow> (case PppoeReleaseNode k w1 of
          Inl f \<Rightarrow> Inl f
        | Inr w2 \<Rightarrow> (case PppoeGetNode k cenv w2 of
            Inl f \<Rightarrow> Inl f
          | Inr w3 \<Rightarrow> PppoeListen k lenv w3)))"

definition set_iface :: "nat \<Rightarrow> link \<Rightarrow> string \<Rightarrow> string \<Rightarrow> create_env \<Rightarrow> listen_env \<Rightarrow> world \<Rightarrow> fault + cmd_status \<times> world" where
  "set_iface k l name hookname cenv lenv w =
     (let w1 = set_info k (\<lambda>pi. pi\<lparr>iface := strlcpy name IFNAMSIZ,
                                   path := iface_path (strlcpy name IFNAMSIZ),
                                   hook := strlcpy hookname NG_HOOKSIZ\<rparr>) w
      in if plist (info l) \<noteq> None then
           (case relisten_iface k cenv lenv w1 of Inl f \<Rightarrow> Inl f | Inr w2 \<Rightarrow> Inr (CmdOk, w2))
         else Inr (CmdOk, w1))"

definition PppoeSetCommand :: "nat \<Rightarrow> string list \<Rightarrow> set_arg \<Rightarrow> create_env \<Rightarrow> listen_env \<Rightarrow> world \<Rightarrow> fault + cmd_status \<times> world" where
  "PppoeSetCommand k av arg cenv lenv w =
     (case get_link w k of
        None \<Rightarrow> Inl BadPointer
      | Some l \<Rightarrow>
         (case arg of
            SET_IFACE \<Rightarrow>
              (case av of
                 [name, hookname] \<Rightarrow> set_iface k l name hookname cenv lenv w
               | [name] \<Rightarrow> set_iface k l name ''orphans'' cenv lenv w
               | _ \<Rightarrow> Inr (CmdUsage, w))
          | SET_SESSION \<Rightarrow>
              (case av of
                 [name] \<Rightarrow>
                   (let w1 = set_info k (\<lambda>pi. pi\<lparr>session := strlcpy name MAX_SESSION\<rparr>) w
                    in if plist (info l) \<noteq> None then
                         (case PppoeUnListen k w1 of
                            Inl f \<Rightarrow> Inl f
                          | Inr w2 \<Rightarrow> (case PppoeListen k lenv w2 of
                              Inl f \<Rightarrow> Inl f
                            | Inr w3 \<Rightarrow> Inr (CmdOk, w3)))
                       else Inr (CmdOk, w1))
               | _ \<Rightarrow> Inr (CmdUsage, w))
          | SET_ACNAME \<Rightarrow>
              (case av of
                 [name] \<Rightarrow> Inr (CmdOk, set_info k (\<lambda>pi. pi\<lparr>acname := strlcpy name PPPOE_SERVICE_NAME_SIZE\<rparr>) w)
               | _ \<Rightarrow> Inr (CmdUsage, w))
          | SET_MAX_PAYLOAD \<Rightarrow>
              (case av of
                 [val] \<Rightarrow>
                   (let ap = atoi val
                    in if ap < PPPOE_MRU \<or> ap > ETHER_MAX_LEN - 8 then
                         Inr (CmdError (''PPP-Max-Payload value '' @ [CHR 0x22] @ val @ [CHR 0x22]), w)
                       else Inr (CmdOk, set_info k (\<lambda>pi. pi\<lparr>max_payload := word_of_int ap\<rparr>) w))
               | _ \<Rightarrow> Inr (CmdUsage, w))
          | SET_MAC_FORMAT \<Rightarrow>
              (case av of
                 [val] \<Rightarrow>
                   (if val = ''unformatted'' then Inr (CmdOk, set_info k (\<lambda>pi. pi\<lparr>mac_format := MAC_UNFORMATTED\<rparr>) w)
                    else if val = ''unix-like'' then Inr (CmdOk, set_info k (\<lambda>pi. pi\<lparr>mac_format := MAC_UNIX_LIKE\<rparr>) w)
                    else if val = ''cisco-like'' then Inr (CmdOk, set_info k (\<lambda>pi. pi\<lparr>mac_format := MAC_CISCO_LIKE\<rparr>) w)
                    else if val = ''ietf'' then Inr (CmdOk, set_info k (\<lambda>pi. pi\<lparr>mac_format := MAC_IETF\<rparr>) w)
                    else Inr (CmdError (''Incorrect PPPoE mac-format '' @ [CHR 0x22] @ val @ [CHR 0x22]), w))
               | _ \<Rightarrow> Inr (CmdUsage, w))
          | SET_OTHER \<Rightarrow> Inl AssertFailed))"

subsection \<open>PppoeListenEvent\<close>

text \<open>
  What the event handler gets from its environment: the result of \<^verbatim>\<open>NgRecvData\<close>
  (\<open>recv_sz\<close>, the hook name and the receive buffer, of which \<open>shost\<close> is the source
  address of the Ethernet header and \<open>frame\<close> the memory from the PPPoE header on),
  the flags \<^verbatim>\<open>gShutdownInProgress\<close> and \<^verbatim>\<open>OVERLOAD()\<close>, the host name, and the
  outcome of each graph call. \<open>busy\<close> is \<^verbatim>\<open>PhysIsBusy\<close> for each link and
  \<open>inst_at\<close>, \<open>inst_name\<close> are the slot and the name the framework gives to a new
  instance (\<open>None\<close> when \<^verbatim>\<open>LinkInst\<close> fails).
\<close>

record listen_in =
  recv_sz :: int
  rhook :: string
  shost :: "byte list"
  frame :: mem
  shutting_down :: bool
  overload :: bool
  busy :: "nat \<Rightarrow> bool"
  inst_at :: "nat option"
  inst_name :: string
  hostname :: "string option"
  mkpeer_tee_ok :: bool
  connect_tee_ok :: bool
  offer_ok :: bool
  service_ok :: bool
  send_data_ok :: bool
  disconnect_ok :: bool
  shutdown_ok :: bool

text \<open>The Service-Name of the request, or the service of the listening hook.\<close>

definition parse_real_session :: "mem \<Rightarrow> string \<Rightarrow> string" where
  "parse_real_session m sess =
     (case fst (get_tag m PTT_SRV_NAME) of
        Some t \<Rightarrow>
          (let len = (if tag_len m t \<ge> MAX_SESSION then MAX_SESSION - 1 else tag_len m t)
           in str_of_bytes (cstr (map m [t + 4 ..< t + 4 + len])))
      | None \<Rightarrow> strlcpy sess MAX_SESSION)"

definition accepts :: "listen_in \<Rightarrow> nat \<Rightarrow> string \<Rightarrow> nat \<Rightarrow> link option \<Rightarrow> bool" where
  "accepts inp PIf_arg sess k lo =
     (case lo of
        None \<Rightarrow> False
      | Some l2 \<Rightarrow> ltype l2 = gPppoePhysType \<and> \<not> busy inp k \<and> PIf (info l2) = Some PIf_arg \<and>
                   session (info l2) = sess \<and> Enabled l2 LINK_CONF_INCOMING)"

definition find_accepting :: "listen_in \<Rightarrow> nat \<Rightarrow> string \<Rightarrow> world \<Rightarrow> nat option" where
  "find_accepting inp PIf_arg sess w =
     find (\<lambda>k. accepts inp PIf_arg sess k (gLinks w ! k)) [0 ..< length (gLinks w)]"

definition store_link :: "nat \<Rightarrow> link \<Rightarrow> world \<Rightarrow> world" where
  "store_link k l w =
     w\<lparr>gLinks := (if k < length (gLinks w) then (gLinks w)[k := Some l] else gLinks w @ [Some l])\<rparr>"

text \<open>
  Modelled from the spec: \<^verbatim>\<open>LinkInst\<close> belongs to the link framework, which is not
  among the sources ("LinkInst(template, ...) to instantiate a template"). The instance
  is a copy of the template that is no template itself, stored in a slot of \<^verbatim>\<open>gLinks\<close>
  that is empty or new, with that slot as its id; the framework then calls PppoeInst.
\<close>

definition LinkInst :: "nat \<Rightarrow> nat option \<Rightarrow> string \<Rightarrow> world \<Rightarrow> fault + nat option \<times> world" where
  "LinkInst kt slot name w =
     (case (get_link w kt, slot) of
        (None, _) \<Rightarrow> Inl BadPointer
      | (Some lt, None) \<Rightarrow> Inr (None, w)
      | (Some lt, Some k) \<Rightarrow>
          if k > length (gLinks w) \<or> get_link w k \<noteq> None then Inl BadPointer
          else
            (let l = lt\<lparr>link_id := int k, lname := name, tmpl := False, stay := False\<rparr>;
                 w1 = store_link k l w
             in case PppoeInst k kt w1 of
                  Inl f \<Rightarrow> Inl f
                | Inr w2 \<Rightarrow> Inr (Some k, w2)))"

text \<open>
  Modelled from the spec: \<^verbatim>\<open>LinkShutdown\<close> (link framework) disposes of a link: it runs
  the \<open>shutdown\<close> method of the link type and removes the link from \<^verbatim>\<open>gLinks\<close>.
  Inside PppoeListenEvent the call is recorded as a request to the host.
\<close>

definition LinkShutdown :: "nat \<Rightarrow> world \<Rightarrow> fault + world" where
  "LinkShutdown k w =
     (case PppoeShutdown k w of
        Inl f \<Rightarrow> Inl f
      | Inr w1 \<Rightarrow> Inr (w1\<lparr>gLinks := (gLinks w1)[k := None]\<rparr>))"

definition not_accepted :: "nat \<Rightarrow> link \<Rightarrow> world \<Rightarrow> world" where
  "not_accepted k l w =
     (let w1 = emit (Log LG_PHYS ''PPPoE connection not accepted due to error'') w
      in if \<not> stay l then emit (LinkShutdownReq k) w1 else w1)"

definition shutdown_tee :: "nat \<Rightarrow> link \<Rightarrow> listen_in \<Rightarrow> int \<Rightarrow> ngpath \<Rightarrow> world \<Rightarrow> world" where
  "shutdown_tee k l inp cs tee w =
     (let w1 = emit (NgFuncShutdownNode cs tee) w
      in not_accepted k l (if shutdown_ok inp then w1 else emit (Perror ''Shutdown ng_tee node error'') w1))"

definition offer_name :: "link \<Rightarrow> listen_in \<Rightarrow> string" where
  "offer_name l inp =
     (if acname (info l) \<noteq> [] then strlcpy (acname (info l)) MAX_SESSION
      else (case hostname inp of
          None \<Rightarrow> strlcpy ''NONAME'' MAX_SESSION
        | Some h \<Rightarrow> if take MAX_SESSION h = [] then strlcpy ''NONAME'' MAX_SESSION else take MAX_SESSION h))"

text \<open>The part of PppoeListenEvent that works on the link chosen for the request.\<close>

definition accept_on :: "nat \<Rightarrow> nat \<Rightarrow> listen_in \<Rightarrow> string \<Rightarrow> agent_ids \<Rightarrow> world \<Rightarrow> fault + world" where
  "accept_on k PIf_arg inp real_sess ids w =
     (case (get_link w k, get_if w PIf_arg) of
        (Some l, Some pifa) \<Rightarrow>
          (case PIf (info l) of
             None \<Rightarrow> Inl NullDeref
           | Some i \<Rightarrow> (case get_if w i of
               None \<Rightarrow> Inl BadPointer
             | Some pif \<Rightarrow>
                (let shook = session_hook_of w l;
                     npath = NodeIdPath (node_id pifa) [];
                     tee = NodeIdPath (node_id pifa) shook;
                     cs = csock pif;
                     w1 = emit (NgSendMsg cs npath NGM_MKPEER [''tee'', shook, ''left''])
                            (emit (Log LG_PHYS ''Accepting PPPoE connection'') w)
                 in if \<not> mkpeer_tee_ok inp then
                      Inr (not_accepted k l (emit (Perror ''PPPoE: can't create peer'') w1))
                    else
                     (let w2 = emit (NgSendMsg cs (NamePath ''.:'') NGM_CONNECT
                                       [strlcpy (lname l) NG_HOOKSIZ, ''left2right'']) w1
                      in if \<not> connect_tee_ok inp then
                           Inr (shutdown_tee k l inp cs tee (emit (Perror ''PPPoE: can't connect'') w2))
                         else
                          (let w3 = emit (NgSendMsg cs npath NGM_PPPOE_OFFER [shook, offer_name l inp]) w2
                           in if \<not> offer_ok inp then
                                Inr (shutdown_tee k l inp cs tee (emit (Perror ''PPPoE: can't send NGM_PPPOE_OFFER'') w3))
                              else
                               (let w4 = emit (NgSendMsg cs npath NGM_PPPOE_SERVICE
                                                 [shook, take MAX_SESSION (session (info l))]) w3
                                in if \<not> service_ok inp then
                                     Inr (shutdown_tee k l inp cs tee (emit (Perror ''PPPoE: can't send NGM_PPPOE_SERVICE'') w4))
                                   else
                                    (let w5 = emit (NgSendData (dsock pif) (lname l)) w4
                                     in if \<not> send_data_ok inp then
                                          Inr (shutdown_tee k l inp cs tee (emit (Perror ''PPPoE: Cannot send original request'') w5))
                                        else
                                         (let w6 = emit (NgFuncDisconnect cs (NamePath ''.:'') (lname l)) w5
                                          in if \<not> disconnect_ok inp then
                                               Inr (shutdown_tee k l inp cs tee (emit (Perror ''PPPoE: can't remove hook'') w6))
                                             else
                                               Inr (emit (PhysIncoming k)
                                                     (emit (Log LG_PHYS2 ''PPPoE response sent'')
                                                       (put_link k
                                                         (l\<lparr>state := PHYS_STATE_CONNECTING,
                                                            info := (info l)\<lparr>incoming := 1,
                                                                      peeraddr := take 6 (shost inp),
                                                                      real_session := strlcpy real_sess MAX_SESSION,
                                                                      agent_cid := strlcpy (str_of_bytes (cstr (cid_buf ids))) 64,
                                                                      agent_rid := strlcpy (str_of_bytes (cstr (rid_buf ids))) 64,
                                                                      connectTimer := True\<rparr>\<rparr>)
                                                         w6)))))))))))
      | _ \<Rightarrow> Inl BadPointer)"

text \<open>
  PppoeListenEvent, first the part after the checks of the received frame.
  \<^verbatim>\<open>print_tags\<close>, called when the log level asks for it, only writes log lines and
  is left out.
\<close>

definition listen_request :: "nat \<Rightarrow> listen_in \<Rightarrow> world \<Rightarrow> fault + world" where
  "listen_request PIf_arg inp w =
     (let sess = drop 7 (rhook inp);
          real_sess = parse_real_session (frame inp) sess;
          ids = fst (decode_agent_ids (frame inp));
          w1 = emit (Log LG_PHYS ''Incoming PPPoE connection request'') w
      in if shutting_down inp then Inr (emit (Log LG_PHYS ''Shutdown sequence in progress, ignoring request.'') w1)
         else if overload inp then Inr (emit (Log LG_PHYS ''Daemon overloaded, ignoring request.'') w1)
         else
           (case find_accepting inp PIf_arg sess w1 of
              None \<Rightarrow> Inr (emit (Log LG_PHYS ''No free PPPoE link with requested parameters was found'') w1)
            | Some kt \<Rightarrow>
                (case get_link w1 kt of
                   None \<Rightarrow> Inl BadPointer
                 | Some lt \<Rightarrow>
                     if tmpl lt then
                       (case LinkInst kt (inst_at inp) (inst_name inp) w1 of
                          Inl f \<Rightarrow> Inl f
                        | Inr (None, w2) \<Rightarrow>
                            Inr (emit (Log LG_PHYS ''No free PPPoE link with requested parameters was found'') w2)
                        | Inr (Some k, w2) \<Rightarrow> accept_on k PIf_arg inp real_sess ids w2)
                     else accept_on kt PIf_arg inp real_sess ids w1)))"

definition PppoeListenEvent :: "nat \<Rightarrow> listen_in \<Rightarrow> world \<Rightarrow> fault + world" where
  "PppoeListenEvent PIf_arg inp w =
     (if recv_sz inp = - 1 then Inr (emit (Log LG_ERR ''NgRecvData'') w)
      else if recv_sz inp = 0 then Inr (emit (Log LG_ERR ''NgRecvData: socket closed'') w)
      else if take 7 (rhook inp) \<noteq> ''listen-'' then Inr (emit (Log LG_ERR ''PPPoE: data from unknown hook'') w)
      else if 0 \<le> recv_sz inp \<and> recv_sz inp < 20 then
        Inr (emit (Log LG_PHYS ''Incoming truncated PPPoE connection request'') w)
      else listen_request PIf_arg inp w)"

section \<open>The states the process can reach\<close>

text \<open>
  At start there is no link and the static table \<^verbatim>\<open>PppoeIfs\<close> is zero-filled. The
  link framework creates links (for a PPPoE link it allocates a zero-filled \<^verbatim>\<open>Link\<close>,
  whose state is therefore DOWN, and calls PppoeInit), changes their options, and
  disposes of them; the event loop and the console call the entry points of this file
  on PPPoE links. A call that ends in a fault does not lead to a further state.
\<close>

definition boot :: "int \<Rightarrow> nat \<Rightarrow> world" where
  "boot pid n = \<lparr>gPid = pid, gLinks = [], PppoeIfs = replicate n zero_if, lheap = [],
                 gNgEtherLoaded = False, trace = []\<rparr>"

definition new_link :: "nat \<Rightarrow> string \<Rightarrow> bool \<Rightarrow> bool \<Rightarrow> link_opt set \<Rightarrow> link_opt set \<Rightarrow> link" where
  "new_link k name t s en ac =
     PppoeInit \<lparr>link_id = int k, lname = name, ltype = gPppoePhysType, state = PHYS_STATE_DOWN,
                tmpl = t, stay = s, opt_enable = en, opt_accept = ac, info = zeroed_info\<rparr>"

definition is_pppoe :: "world \<Rightarrow> nat \<Rightarrow> bool" where
  "is_pppoe w k = (case get_link w k of None \<Rightarrow> False | Some l \<Rightarrow> ltype l = gPppoePhysType)"

definition timer_runs :: "world \<Rightarrow> nat \<Rightarrow> bool" where
  "timer_runs w k = (case get_link w k of None \<Rightarrow> False | Some l \<Rightarrow> connectTimer (info l))"

inductive reachable :: "world \<Rightarrow> bool" where
  r_boot: "reachable (boot pid n)"
| r_create: "reachable w \<Longrightarrow> k \<le> length (gLinks w) \<Longrightarrow> get_link w k = None \<Longrightarrow>
     reachable (store_link k (new_link k name t s en ac) w)"
| r_other: "reachable w \<Longrightarrow> k \<le> length (gLinks w) \<Longrightarrow> get_link w k = None \<Longrightarrow>
     ltype l \<noteq> gPppoePhysType \<Longrightarrow> reachable (store_link k l w)"
| r_options: "reachable w \<Longrightarrow> get_link w k = Some l \<Longrightarrow>
     reachable (put_link k (l\<lparr>stay := s, opt_enable := en, opt_accept := ac\<rparr>) w)"
| r_open: "reachable w \<Longrightarrow> is_pppoe w k \<Longrightarrow> PppoeOpen k env w = Inr w' \<Longrightarrow> reachable w'"
| r_close: "reachable w \<Longrightarrow> is_pppoe w k \<Longrightarrow> PppoeClose k w = Inr w' \<Longrightarrow> reachable w'"
| r_timeout: "reachable w \<Longrightarrow> is_pppoe w k \<Longrightarrow> timer_runs w k \<Longrightarrow>
     PppoeConnectTimeout k w = Inr w' \<Longrightarrow> reachable w'"
| r_ctrl: "reachable w \<Longrightarrow> p < length (PppoeIfs w) \<Longrightarrow> PppoeCtrlReadEvent p rcv w = Inr w' \<Longrightarrow>
     reachable w'"
| r_listen: "reachable w \<Longrightarrow> p < length (PppoeIfs w) \<Longrightarrow> PppoeListenEvent p inp w = Inr w' \<Longrightarrow>
     reachable w'"
| r_set: "reachable w \<Longrightarrow> is_pppoe w k \<Longrightarrow> PppoeSetCommand k av arg cenv lenv w = Inr (st, w') \<Longrightarrow>
     reachable w'"
| r_update: "reachable w \<Longrightarrow> is_pppoe w k \<Longrightarrow> PppoeNodeUpdate k cenv lenv w = Inr w' \<Longrightarrow>
     reachable w'"
| r_shutdown: "reachable w \<Longrightarrow> is_pppoe w k \<Longrightarrow> LinkShutdown k w = Inr w' \<Longrightarrow> reachable w'"

text \<open>What a session in state DOWN looks like.\<close>

definition clean :: "pppoeinfo \<Rightarrow> bool" where
  "clean pi = (\<not> connectTimer pi \<and> peeraddr pi = replicate 6 0 \<and> agent_cid pi = [] \<and>
               agent_rid pi = [] \<and> mp_reply pi = 0 \<and> (real_session pi = [] \<or> real_session pi = ''*''))"

definition down_ok :: "link option \<Rightarrow> bool" where
  "down_ok lo = (case lo of
       None \<Rightarrow> True
     | Some l \<Rightarrow> ltype l = gPppoePhysType \<longrightarrow> state l = PHYS_STATE_DOWN \<longrightarrow> clean (info l))"

definition links_ok :: "world \<Rightarrow> bool" where
  "links_ok w = list_all down_ok (gLinks w)"

text \<open>
  Between two states, the links are the same except that link \<open>k\<close> may point to
  another parent and listener.
\<close>

definition no_ptrs :: "link \<Rightarrow> link" where
  "no_ptrs l = l\<lparr>info := (info l)\<lparr>PIf := None, plist := None\<rparr>\<rparr>"

definition ptr_step :: "nat \<Rightarrow> world \<Rightarrow> world \<Rightarrow> bool" where
  "ptr_step k w w1 =
     (\<exists>l l1. get_link w k = Some l \<and> gLinks w1 = (gLinks w)[k := Some l1] \<and> no_ptrs l1 = no_ptrs l)"

text \<open>A change of the private data that leaves the session fields alone.\<close>

definition keeps_session :: "(pppoeinfo \<Rightarrow> pppoeinfo) \<Rightarrow> bool" where
  "keeps_session f = (\<forall>pi. connectTimer (f pi) = connectTimer pi \<and> peeraddr (f pi) = peeraddr pi \<and>
      agent_cid (f pi) = agent_cid pi \<and> agent_rid (f pi) = agent_rid pi \<and>
      mp_reply (f pi) = mp_reply pi \<and> real_session (f pi) = real_session pi)"

text \<open>
  The parent table and the links that refer to it. A slot is either free (no reference,
  no path) or in use (referenced, with the path of a configured interface and both
  sockets); every PPPoE link has a
  non-empty node path and a parent pointer, if any, into the table; and the reference
  count of a slot is the number of PPPoE links whose parent it is.
\<close>

definition holds :: "nat \<Rightarrow> link option \<Rightarrow> bool" where
  "holds i lo = (case lo of None \<Rightarrow> False | Some l \<Rightarrow> ltype l = gPppoePhysType \<and> PIf (info l) = Some i)"

definition holders :: "world \<Rightarrow> nat \<Rightarrow> nat" where
  "holders w i = length (filter (holds i) (gLinks w))"

definition slot_ok :: "PppoeIf \<Rightarrow> bool" where
  "slot_ok e = ((refs e = 0 \<and> ifnodepath e = []) \<or>
                (refs e > 0 \<and> ifnodepath e \<noteq> [] \<and> ifnodepath e \<noteq> ''undefined:'' \<and>
                 csock e \<ge> 0 \<and> dsock e \<ge> 0))"

definition link_reg_ok :: "nat \<Rightarrow> link option \<Rightarrow> bool" where
  "link_reg_ok n lo = (case lo of
       None \<Rightarrow> True
     | Some l \<Rightarrow> ltype l = gPppoePhysType \<longrightarrow>
         path (info l) \<noteq> [] \<and> (case PIf (info l) of None \<Rightarrow> True | Some i \<Rightarrow> i < n))"

definition reg_ok :: "world \<Rightarrow> bool" where
  "reg_ok w = (list_all slot_ok (PppoeIfs w) \<and>
               list_all (link_reg_ok (length (PppoeIfs w))) (gLinks w) \<and>
               (\<forall>i < length (PppoeIfs w). refs (PppoeIfs w ! i) = int (holders w i)))"

text \<open>The part of the state that \<open>reg_ok\<close> depends on.\<close>

definition if_view :: "PppoeIf \<Rightarrow> int \<times> string \<times> int \<times> int" where
  "if_view e = (refs e, ifnodepath e, csock e, dsock e)"

definition link_view :: "link option \<Rightarrow> (phystype \<times> nat option \<times> bool) option" where
  "link_view lo = map_option (\<lambda>l. (ltype l, PIf (info l), path (info l) = [])) lo"

definition reg_view :: "world \<Rightarrow> (int \<times> string \<times> int \<times> int) list \<times> (phystype \<times> nat option \<times> bool) option list" where
  "reg_view w = (map if_view (PppoeIfs w), map link_view (gLinks w))"

text \<open>Between two states, only the sockets, node id and events of slot \<open>i\<close> differ.\<close>

definition same_but :: "nat \<Rightarrow> world \<Rightarrow> world \<Rightarrow> bool" where
  "same_but i w w1 = (gLinks w1 = gLinks w \<and> length (PppoeIfs w1) = length (PppoeIfs w) \<and>
      (\<forall>j. j \<noteq> i \<longrightarrow> PppoeIfs w1 ! j = PppoeIfs w ! j) \<and>
      refs (PppoeIfs w1 ! i) = refs (PppoeIfs w ! i) \<and>
      ifnodepath (PppoeIfs w1 ! i) = ifnodepath (PppoeIfs w ! i))"

text \<open>
  One step of the process: the transitions of \<open>reachable\<close> as a relation between the
  state before and the state after.
\<close>

inductive step :: "world \<Rightarrow> world \<Rightarrow> bool" where
  s_create: "k \<le> length (gLinks w) \<Longrightarrow> get_link w k = None \<Longrightarrow>
     step w (store_link k (new_link k name t s en ac) w)"
| s_other: "k \<le> length (gLinks w) \<Longrightarrow> get_link w k = None \<Longrightarrow>
     ltype l \<noteq> gPppoePhysType \<Longrightarrow> step w (store_link k l w)"
| s_options: "get_link w k = Some l \<Longrightarrow>
     step w (put_link k (l\<lparr>stay := s, opt_enable := en, opt_accept := ac\<rparr>) w)"
| s_open: "is_pppoe w k \<Longrightarrow> PppoeOpen k env w = Inr w' \<Longrightarrow> step w w'"
| s_close: "is_pppoe w k \<Longrightarrow> PppoeClose k w = Inr w' \<Longrightarrow> step w w'"
| s_timeout: "is_pppoe w k \<Longrightarrow> timer_runs w k \<Longrightarrow>
     PppoeConnectTimeout k w = Inr w' \<Longrightarrow> step w w'"
| s_ctrl: "p < length (PppoeIfs w) \<Longrightarrow> PppoeCtrlReadEvent p rcv w = Inr w' \<Longrightarrow> step w w'"
| s_listen: "p < length (PppoeIfs w) \<Longrightarrow> PppoeListenEvent p inp w = Inr w' \<Longrightarrow> step w w'"
| s_set: "is_pppoe w k \<Longrightarrow> PppoeSetCommand k av arg cenv lenv w = Inr (st, w') \<Longrightarrow> step w w'"
| s_update: "is_pppoe w k \<Longrightarrow> PppoeNodeUpdate k cenv lenv w = Inr w' \<Longrightarrow> step w w'"
| s_shutdown: "is_pppoe w k \<Longrightarrow> LinkShutdown k w = Inr w' \<Longrightarrow> step w w'"

text \<open>
  What may happen to the real service name of a link between two states: if the link is
  DOWN afterwards, its real service name is empty, or the link was DOWN before and the
  name is the one it had. \<open>rs_keep\<close> says so for every link of the first state and
  that each of them is still there; \<open>rs_step\<close> says it for the links that are
  there in both states.
\<close>

definition kept :: "link option \<Rightarrow> link option \<Rightarrow> bool" where
  "kept lo lo' = (case (lo, lo') of
       (Some l, Some l') \<Rightarrow>
         state l' = PHYS_STATE_DOWN \<longrightarrow>
           real_session (info l') = [] \<or>
           (state l = PHYS_STATE_DOWN \<and> real_session (info l') = real_session (info l))
     | _ \<Rightarrow> True)"

definition rs_keep :: "world \<Rightarrow> world \<Rightarrow> bool" where
  "rs_keep w0 w = (\<forall>k. (get_link w0 k \<noteq> None \<longrightarrow> get_link w k \<noteq> None) \<and>
                        kept (get_link w0 k) (get_link w k))"

definition rs_step :: "world \<Rightarrow> world \<Rightarrow> bool" where
  "rs_step w0 w = (\<forall>k. kept (get_link w0 k) (get_link w k))"

text \<open>How often the host has been told that link \<open>k\<close> is up.\<close>

definition ups :: "nat \<Rightarrow> effect list \<Rightarrow> nat" where
  "ups k tr = length (filter (\<lambda>e. e = PhysUp k) tr)"

section \<open>A concrete configuration\<close>

text \<open>
  One outgoing link \<open>L1\<close> (slot 0 of \<^verbatim>\<open>gLinks\<close>) configured for service \<open>isp\<close> on
  interface \<open>em0\<close>, a parent table of two slots, process id 100.
\<close>

definition if_em0 :: PppoeIf where
  "if_em0 = \<lparr>ifnodepath = ''em0:'', node_id = 5, refs = 1, csock = 3, dsock = 4,
             ctrlEvent = True, dataEvent = True, slist = []\<rparr>"

definition info_cfg :: pppoeinfo where
  "info_cfg = \<lparr>iface = ''em0'', path = ''em0:'', hook = ''orphans'', session = ''isp'', acname = [],
     max_payload = 0, mac_format = MAC_UNFORMATTED, peeraddr = replicate 6 0,
     real_session = ''*'', agent_cid = [], agent_rid = [], incoming = 0, opened = 0,
     mp_reply = 0, PIf = None, plist = None, connectTimer = False\<rparr>"

definition link_cfg :: link where
  "link_cfg = \<lparr>link_id = 0, lname = ''L1'', ltype = gPppoePhysType, state = PHYS_STATE_DOWN,
     tmpl = False, stay = True, opt_enable = {LINK_CONF_ACFCOMP}, opt_accept = {LINK_CONF_ACFCOMP},
     info = info_cfg\<rparr>"

definition world_cfg :: world where
  "world_cfg = \<lparr>gPid = 100, gLinks = [Some link_cfg], PppoeIfs = [zero_if, zero_if],
     lheap = [], gNgEtherLoaded = False, trace = []\<rparr>"

text \<open>The same link once connected: parent in slot 0, state UP, opened by the user.\<close>

definition link_up :: link where
  "link_up = link_cfg\<lparr>state := PHYS_STATE_UP,
     info := info_cfg\<lparr>opened := 1, PIf := Some 0, real_session := ''isp''\<rparr>\<rparr>"

definition world_up :: world where
  "world_up = world_cfg\<lparr>gLinks := [Some link_up], PppoeIfs := [if_em0, zero_if], gNgEtherLoaded := True\<rparr>"

text \<open>An environment in which every call succeeds and the Ethernet node has no hook yet.\<close>

definition env_ok :: open_env where
  "env_ok = \<lparr>node_env = \<lparr>iface_up_ok = True, mksock = Some (3, 4), listtypes_sent = True,
                listtypes_reply = Some [''socket'', ''ether''], kldload_ok = True,
                listhooks_sent = True, listhooks_reply = Some \<lparr>node_type = ''ether'', hooks = []\<rparr>,
                mkpeer_ok = True, new_node_id = 5\<rparr>,
              upper_hook = Some (''[7]:'', ''link0''), connect_ok = True, shutdown_tee_ok = True,
              setmaxp_ok = True, pppoe_connect_ok = True\<rparr>"

definition msg_success :: "string \<Rightarrow> ng_mesg" where
  "msg_success h = \<lparr>cookie_is_pppoe = True, cmd = NGM_PPPOE_SUCCESS, sts_hook = h, maxp_data = 0\<rparr>"

text \<open>The link while it is connecting, and after the first SUCCESS.\<close>

definition link_connecting :: link where
  "link_connecting = link_cfg\<lparr>state := PHYS_STATE_CONNECTING,
     info := info_cfg\<lparr>opened := 1, PIf := Some 0, real_session := ''isp'', connectTimer := True\<rparr>\<rparr>"

definition world_connecting :: world where
  "world_connecting = world_cfg\<lparr>gLinks := [Some link_connecting], PppoeIfs := [if_em0, zero_if],
     gNgEtherLoaded := True\<rparr>"

definition world_after_success :: world where
  "world_after_success = world_up\<lparr>trace := [Log LG_PHYS ''PPPoE: connection successful'', PhysUp 0]\<rparr>"

text \<open>The configured link after a successful \<open>PppoeOpen\<close> in the environment \<open>env_ok\<close>.\<close>

definition link_opened :: link where
  "link_opened = link_cfg\<lparr>state := PHYS_STATE_CONNECTING, opt_enable := {}, opt_accept := {},
     info := info_cfg\<lparr>opened := 1, PIf := Some 1, real_session := ''isp'', connectTimer := True\<rparr>\<rparr>"

definition world_opened :: world where
  "world_opened = world_cfg\<lparr>gLinks := [Some link_opened], PppoeIfs := [zero_if, if_em0],
     gNgEtherLoaded := True,
     trace := [NgSendMsg 3 (NamePath []) NGM_LISTTYPES [],
               NgSendMsg 3 (NamePath ''em0:'') NGM_LISTHOOKS [],
               NgSendMsg 3 (NamePath ''em0:'') NGM_MKPEER [''pppoe'', ''orphans'', ''ethernet''],
               NgSendMsg 3 (NodeIdPath 5 []) NGM_CONNECT [''mpd100-0'', ''[7]:'', ''link0''],
               NgSendMsg 3 (NodeIdPath 5 []) NGM_PPPOE_SETMAXP_REQ [],
               Log LG_PHYS ''PPPoE: Connecting'',
               NgSendMsg 3 (NodeIdPath 5 []) NGM_PPPOE_CONNECT [''mpd100-0'', ''isp'']]\<rparr>"

text \<open>
  The console commands that lead to this configuration: the link is created with the
  options above, then \<open>set pppoe iface em0\<close> and \<open>set pppoe service isp\<close>.
\<close>

definition env_listen :: listen_env where
  "env_listen = \<lparr>lconnect_ok = True, listen_ok = True\<rparr>"

definition world_iface :: world where
  "world_iface = world_cfg\<lparr>gLinks := [Some (link_cfg\<lparr>info := info_cfg\<lparr>session := ''*''\<rparr>\<rparr>)]\<rparr>"

text \<open>
  A second link \<open>L2\<close> on the same interface, configured after the first one in the
  same way, and the state after \<open>L1\<close> has then been opened: \<open>L1\<close> holds the
  parent in slot 1, \<open>L2\<close> has no parent yet.
\<close>

definition link_two :: link where
  "link_two = link_cfg\<lparr>link_id := 1, lname := ''L2''\<rparr>"

definition world_two_iface :: world where
  "world_two_iface = world_cfg\<lparr>gLinks := [Some link_cfg, Some (link_two\<lparr>info := info_cfg\<lparr>session := ''*''\<rparr>\<rparr>)]\<rparr>"

definition world_two_cfg :: world where
  "world_two_cfg = world_cfg\<lparr>gLinks := [Some link_cfg, Some link_two]\<rparr>"

definition world_two :: world where
  "world_two = world_opened\<lparr>gLinks := [Some link_opened, Some link_two]\<rparr>"

text \<open>
  Two discovery packets. In the first a tag of type 0 is followed by the Service-Name
  \<open>isp\<close>, which ends exactly at the end of the payload. In the second the tag of type 0
  is followed by a tag whose length field (255) runs past the payload of 12 bytes, and
  then by the four bytes of an empty Service-Name tag.
\<close>

definition pkt_two_tags :: mem where
  "pkt_two_tags = mem_of [0x11, 0x09, 0, 0, 0, 11, 0, 0, 0, 0, 1, 1, 0, 3, 0x69, 0x73, 0x70]"

definition pkt_overshoot :: mem where
  "pkt_overshoot = mem_of [0x11, 0x09, 0, 0, 0, 12, 0, 0, 0, 0, 0, 0, 0, 0xFF, 1, 1, 0, 0]"

text \<open>
  A link \<open>L1\<close> that accepts incoming calls, configured by \<open>set pppoe iface em0\<close>
  (\<open>world_incoming\<close>); the state after the link framework has then called
  PppoeNodeUpdate, so that the link listens on its parent (\<open>world_listening\<close>); the
  state after the link has been opened for an outgoing call (\<open>world_dialing\<close>); and the
  state after \<open>set pppoe iface em1\<close> when interface \<open>em1\<close> cannot be brought up
  (\<open>env_no_iface\<close>): the old parent has been released, no new one has been created
  (\<open>world_orphan\<close>).
\<close>

definition link_incoming :: link where
  "link_incoming = link_cfg\<lparr>opt_enable := {LINK_CONF_INCOMING}, opt_accept := {},
     info := info_cfg\<lparr>session := ''*''\<rparr>\<rparr>"

definition world_incoming :: world where
  "world_incoming = world_cfg\<lparr>gLinks := [Some link_incoming]\<rparr>"

definition world_listening :: world where
  "world_listening = world_cfg\<lparr>
     gLinks := [Some (link_incoming\<lparr>info := (info link_incoming)\<lparr>PIf := Some 1, plist := Some 0\<rparr>\<rparr>)],
     PppoeIfs := [zero_if, if_em0\<lparr>slist := [0]\<rparr>],
     lheap := [Some \<lparr>l_session = ''*'', l_refs = 1\<rparr>],
     gNgEtherLoaded := True,
     trace := [NgSendMsg 3 (NamePath []) NGM_LISTTYPES [],
               NgSendMsg 3 (NamePath ''em0:'') NGM_LISTHOOKS [],
               NgSendMsg 3 (NamePath ''em0:'') NGM_MKPEER [''pppoe'', ''orphans'', ''ethernet''],
               NgSendMsg 3 (NamePath ''.:'') NGM_CONNECT [''listen-*'', ''listen-*''],
               NgSendMsg 3 (NodeIdPath 5 []) NGM_PPPOE_LISTEN [''listen-*'', ''*''],
               Log LG_PHYS ''PPPoE: waiting for connection'']\<rparr>"

definition world_dialing :: world where
  "world_dialing = world_listening\<lparr>
     gLinks := [Some (link_incoming\<lparr>state := PHYS_STATE_CONNECTING,
                  info := (info link_incoming)\<lparr>PIf := Some 1, plist := Some 0, opened := 1,
                                                connectTimer := True\<rparr>\<rparr>)],
     trace := trace world_listening @
              [NgSendMsg 3 (NodeIdPath 5 []) NGM_CONNECT [''mpd100-0'', ''[7]:'', ''link0''],
               NgSendMsg 3 (NodeIdPath 5 []) NGM_PPPOE_SETMAXP_REQ [],
               Log LG_PHYS ''PPPoE: Connecting'',
               NgSendMsg 3 (NodeIdPath 5 []) NGM_PPPOE_CONNECT [''mpd100-0'', ''*'']]\<rparr>"

definition env_no_iface :: create_env where
  "env_no_iface = (node_env env_ok)\<lparr>iface_up_ok := False\<rparr>"

definition link_orphan :: link where
  "link_orphan = link_incoming\<lparr>state := PHYS_STATE_CONNECTING,
     info := (info link_incoming)\<lparr>iface := ''em1'', path := ''em1:'', opened := 1,
                                   connectTimer := True\<rparr>\<rparr>"

definition world_orphan :: world where
  "world_orphan = world_dialing\<lparr>
     gLinks := [Some link_orphan],
     PppoeIfs := [zero_if, zero_if\<lparr>csock := - 1, dsock := - 1\<rparr>],
     lheap := [None],
     trace := trace world_dialing @
              [NgFuncDisconnect 3 (NodeIdPath 5 []) ''listen-*'',
               Log LG_PHYS ''PPPoE: stop waiting for connection'',
               CloseFd 3, CloseFd 4,
               Perror ''PPPoE: can't bring up interface'',
               Log LG_ERR ''PPPoE: Error creating ng_pppoe node'']\<rparr>"

text \<open>The state after \<open>L1\<close>, opened and connecting (\<open>world_opened\<close>), has been closed.\<close>

definition link_closed :: link where
  "link_closed = link_opened\<lparr>state := PHYS_STATE_DOWN,
     info := (info link_opened)\<lparr>opened := 0, connectTimer := False, real_session := []\<rparr>\<rparr>"

definition world_closed :: world where
  "world_closed = world_opened\<lparr>gLinks := [Some link_closed],
     trace := trace world_opened @
              [NgFuncDisconnect 3 (NodeIdPath 5 []) ''mpd100-0'', PhysDown 0 STR_MANUALLY]\<rparr>"

section \<open>Properties of the tag walk\<close>

lemma get_tag_loop_reads:
  "get_tag_loop m endp idx pt rd = (r, rd') \<Longrightarrow> \<forall>a\<in>set rd. a < endp \<Longrightarrow> \<forall>a\<in>set rd'. a < endp"
proof (induction m endp idx pt rd rule: get_tag_loop.induct)
  case (1 m endp idx pt rd)
  show ?case
  proof (cases "pt + 4 \<le> endp")
    case False
    with "1.prems" show ?thesis by (simp add: get_tag_loop.simps [of m endp idx pt rd])
  next
    case fits: True
    show ?thesis
    proof (cases "pt + 4 + tag_len m pt > endp")
      case True
      with fits "1.prems" show ?thesis
        by (auto simp: get_tag_loop.simps [of m endp idx pt rd])
    next
      case inside: False
      show ?thesis
      proof (cases "load16 m pt = idx")
        case True
        with fits inside "1.prems" show ?thesis
          by (auto simp: get_tag_loop.simps [of m endp idx pt rd])
      next
        case False
        with fits inside "1.prems"
        have rec: "get_tag_loop m endp idx (pt + 4 + tag_len m pt) (rd @ [pt + 2, pt + 3, pt, pt + 1]) = (r, rd')"
          by (simp add: get_tag_loop.simps [of m endp idx pt rd])
        have "\<forall>a\<in>set (rd @ [pt + 2, pt + 3, pt, pt + 1]). a < endp"
          using fits "1.prems"(2) by auto
        with "1.IH" fits inside False rec show ?thesis by simp
      qed
    qed
  qed
qed

lemma get_tag_loop_fits:
  "get_tag_loop m endp idx pt rd = (Some t, rd') \<Longrightarrow> t + 4 + tag_len m t \<le> endp \<and> load16 m t = idx"
proof (induction m endp idx pt rd rule: get_tag_loop.induct)
  case (1 m endp idx pt rd)
  show ?case
  proof (cases "pt + 4 \<le> endp \<and> \<not> pt + 4 + tag_len m pt > endp")
    case False
    with "1.prems" show ?thesis
      by (auto simp: get_tag_loop.simps [of m endp idx pt rd] split: if_splits)
  next
    case inside: True
    show ?thesis
    proof (cases "load16 m pt = idx")
      case True
      with inside "1.prems" show ?thesis
        by (auto simp: get_tag_loop.simps [of m endp idx pt rd])
    next
      case False
      with inside "1.prems"
      have "get_tag_loop m endp idx (pt + 4 + tag_len m pt) (rd @ [pt + 2, pt + 3, pt, pt + 1]) = (Some t, rd')"
        by (simp add: get_tag_loop.simps [of m endp idx pt rd])
      with "1.IH" inside False show ?thesis by simp
    qed
  qed
qed

lemma get_tag_loop_find:
  "fst (get_tag_loop m endp idx pt rd) = find (\<lambda>t. load16 m t = idx) (tag_iter m endp pt)"
proof (induction m endp idx pt rd rule: get_tag_loop.induct)
  case (1 m endp idx pt rd)
  show ?case
  proof (cases "pt + 4 \<le> endp \<and> pt + 4 + tag_len m pt \<le> endp")
    case False
    then show ?thesis
      by (auto simp: get_tag_loop.simps [of m endp idx pt rd] tag_iter.simps [of m endp pt])
  next
    case inside: True
    show ?thesis
    proof (cases "load16 m pt = idx")
      case True
      with inside show ?thesis
        by (simp add: get_tag_loop.simps [of m endp idx pt rd] tag_iter.simps [of m endp pt])
    next
      case False
      with inside "1.IH" show ?thesis
        by (simp add: get_tag_loop.simps [of m endp idx pt rd] tag_iter.simps [of m endp pt])
    qed
  qed
qed

lemma tag_iter_within: "t \<in> set (tag_iter m endp pt) \<Longrightarrow> pt \<le> t \<and> t + 4 + tag_len m t \<le> endp"
proof (induction m endp pt rule: tag_iter.induct)
  case (1 m endp pt)
  show ?case
  proof (cases "pt + 4 \<le> endp \<and> pt + 4 + tag_len m pt \<le> endp")
    case False
    with "1.prems" show ?thesis by (simp add: tag_iter.simps [of m endp pt])
  next
    case True
    with "1.prems" have "t = pt \<or> t \<in> set (tag_iter m endp (pt + 4 + tag_len m pt))"
      by (simp add: tag_iter.simps [of m endp pt])
    then show ?thesis
    proof
      assume "t = pt"
      with True show ?thesis by simp
    next
      assume "t \<in> set (tag_iter m endp (pt + 4 + tag_len m pt))"
      with "1.IH" True have "pt + 4 + tag_len m pt \<le> t \<and> t + 4 + tag_len m t \<le> endp" by simp
      then show ?thesis by simp
    qed
  qed
qed

lemma tag_iter_hd: "tag_iter m endp pt \<noteq> [] \<Longrightarrow> hd (tag_iter m endp pt) = pt"
  by (subst tag_iter.simps, subst (asm) tag_iter.simps) (simp split: if_splits)

lemma tag_iter_next:
  "Suc i < length (tag_iter m endp pt) \<Longrightarrow>
   tag_iter m endp pt ! Suc i = tag_iter m endp pt ! i + 4 + tag_len m (tag_iter m endp pt ! i)"
proof (induction m endp pt arbitrary: i rule: tag_iter.induct)
  case (1 m endp pt)
  show ?case
  proof (cases "pt + 4 \<le> endp \<and> pt + 4 + tag_len m pt \<le> endp")
    case False
    with "1.prems" show ?thesis by (simp add: tag_iter.simps [of m endp pt])
  next
    case True
    define rest where "rest = tag_iter m endp (pt + 4 + tag_len m pt)"
    from True have ts: "tag_iter m endp pt = pt # rest"
      by (simp add: tag_iter.simps [of m endp pt] rest_def)
    show ?thesis
    proof (cases i)
      case 0
      with "1.prems" ts have "rest \<noteq> []" by auto
      then have "hd rest = pt + 4 + tag_len m pt" unfolding rest_def by (rule tag_iter_hd)
      with \<open>rest \<noteq> []\<close> 0 ts show ?thesis by (simp add: hd_conv_nth)
    next
      case (Suc j)
      with "1.prems" ts have "Suc j < length rest" by simp
      with "1.IH" [OF True, of j] have "rest ! Suc j = rest ! j + 4 + tag_len m (rest ! j)"
        by (simp add: rest_def)
      with Suc ts show ?thesis by simp
    qed
  qed
qed

text \<open>Where the sequence ends there is a malformed entry.\<close>

lemma tag_iter_stop:
  "endp < (if tag_iter m endp pt = [] then pt
           else last (tag_iter m endp pt) + 4 + tag_len m (last (tag_iter m endp pt))) + 4 \<or>
   endp < (if tag_iter m endp pt = [] then pt
           else last (tag_iter m endp pt) + 4 + tag_len m (last (tag_iter m endp pt))) + 4
          + tag_len m (if tag_iter m endp pt = [] then pt
                       else last (tag_iter m endp pt) + 4 + tag_len m (last (tag_iter m endp pt)))"
proof (induction m endp pt rule: tag_iter.induct)
  case (1 m endp pt)
  show ?case
  proof (cases "pt + 4 \<le> endp \<and> pt + 4 + tag_len m pt \<le> endp")
    case False
    then have "tag_iter m endp pt = []" by (simp add: tag_iter.simps [of m endp pt])
    with False show ?thesis by auto
  next
    case True
    define rest where "rest = tag_iter m endp (pt + 4 + tag_len m pt)"
    from True have ts: "tag_iter m endp pt = pt # rest"
      by (simp add: tag_iter.simps [of m endp pt] rest_def)
    from "1.IH" [OF True] show ?thesis
      unfolding ts rest_def [symmetric] by (cases "rest = []") simp_all
  qed
qed

text \<open>
  C1. For every packet, with header length field L: every offset \<^verbatim>\<open>get_tag\<close> reads lies
  below 6 + ntohs(L). The tag it returns is the first tag of the wanted type in the
  sequence \<open>tags\<close> that the iteration yields, and that sequence is the chain of tags from
  offset 6 on, each starting where the value of the one before ends and each with its
  value inside the bound, up to the first entry whose header is incomplete or whose
  value would extend past the bound. Such an entry stops the iteration before it is
  yielded: from a tag whose value overshoots nothing is yielded any more, and the walk
  returns NULL there after reading only the length field of that tag, whatever follows
  it. With L = 0 no tag is yielded, NULL is returned and only the length field of the
  header is read.
\<close>

theorem get_tag_bounded:
  "get_tag m idx = (r, rd) \<Longrightarrow>
     (\<forall>a\<in>set rd. a < 6 + unat (ntohs (load16 m 4))) \<and>
     r = find (\<lambda>t. load16 m t = idx) (tags m) \<and>
     (\<forall>t\<in>set (tags m). 6 \<le> t \<and> t + 4 + tag_len m t \<le> 6 + unat (ntohs (load16 m 4))) \<and>
     (tags m \<noteq> [] \<longrightarrow> hd (tags m) = 6) \<and>
     (\<forall>i. Suc i < length (tags m) \<longrightarrow> tags m ! Suc i = tags m ! i + 4 + tag_len m (tags m ! i)) \<and>
     (let stop = (if tags m = [] then 6 else last (tags m) + 4 + tag_len m (last (tags m)))
      in 6 + unat (ntohs (load16 m 4)) < stop + 4 \<or>
         6 + unat (ntohs (load16 m 4)) < stop + 4 + tag_len m stop) \<and>
     (\<forall>pt rd0. pt + 4 \<le> 6 + unat (ntohs (load16 m 4)) \<and>
                6 + unat (ntohs (load16 m 4)) < pt + 4 + tag_len m pt \<longrightarrow>
        tag_iter m (6 + unat (ntohs (load16 m 4))) pt = [] \<and>
        get_tag_loop m (6 + unat (ntohs (load16 m 4))) idx pt rd0 = (None, rd0 @ [pt + 2, pt + 3])) \<and>
     (ntohs (load16 m 4) = 0 \<longrightarrow> tags m = [] \<and> r = None \<and> rd = [4, 5])"
proof -
  assume g: "get_tag m idx = (r, rd)"
  then have loop: "get_tag_loop m (hdr_end m) idx 6 [4, 5] = (r, rd)"
    by (simp add: get_tag_def)
  have e: "6 + unat (ntohs (load16 m 4)) = hdr_end m" by (simp add: hdr_end_def)
  have "\<forall>a\<in>set [4, 5 :: nat]. a < hdr_end m" by (simp add: hdr_end_def)
  with loop have c1: "\<forall>a\<in>set rd. a < hdr_end m" by (rule get_tag_loop_reads)
  from get_tag_loop_find [of m "hdr_end m" idx 6 "[4, 5]"] loop
  have c2: "r = find (\<lambda>t. load16 m t = idx) (tags m)" by (simp add: tags_def)
  have c3: "\<forall>t\<in>set (tags m). 6 \<le> t \<and> t + 4 + tag_len m t \<le> hdr_end m"
    using tag_iter_within [where m = m and endp = "hdr_end m" and pt = 6] by (auto simp: tags_def)
  have c4: "tags m \<noteq> [] \<longrightarrow> hd (tags m) = 6"
    using tag_iter_hd [where m = m and endp = "hdr_end m" and pt = 6] by (simp add: tags_def)
  have c5: "\<forall>i. Suc i < length (tags m) \<longrightarrow> tags m ! Suc i = tags m ! i + 4 + tag_len m (tags m ! i)"
    using tag_iter_next [where m = m and endp = "hdr_end m" and pt = 6] by (simp add: tags_def)
  have c6: "(let stop = (if tags m = [] then 6 else last (tags m) + 4 + tag_len m (last (tags m)))
      in hdr_end m < stop + 4 \<or> hdr_end m < stop + 4 + tag_len m stop)"
    unfolding tags_def Let_def by (rule tag_iter_stop)
  have c7: "\<forall>pt rd0. pt + 4 \<le> hdr_end m \<and> hdr_end m < pt + 4 + tag_len m pt \<longrightarrow>
        tag_iter m (hdr_end m) pt = [] \<and>
        get_tag_loop m (hdr_end m) idx pt rd0 = (None, rd0 @ [pt + 2, pt + 3])"
  proof (intro allI impI)
    fix pt rd0
    assume "pt + 4 \<le> hdr_end m \<and> hdr_end m < pt + 4 + tag_len m pt"
    then show "tag_iter m (hdr_end m) pt = [] \<and>
        get_tag_loop m (hdr_end m) idx pt rd0 = (None, rd0 @ [pt + 2, pt + 3])"
      by (simp add: tag_iter.simps [of m "hdr_end m" pt] get_tag_loop.simps [of m "hdr_end m" idx pt rd0])
  qed
  have c8: "ntohs (load16 m 4) = 0 \<longrightarrow> tags m = [] \<and> r = None \<and> rd = [4, 5]"
    using loop
    by (auto simp: hdr_end_def tags_def get_tag_loop.simps [of m _ idx 6 "[4, 5]"] tag_iter.simps [of m _ 6])
  from c1 c2 c3 c4 c5 c6 c7 c8 show ?thesis unfolding e by blast
qed

lemma pkt_runs:
  "get_tag pkt_two_tags PTT_SRV_NAME = (Some 10, [4, 5, 8, 9, 6, 7, 12, 13, 10, 11])"
  "get_tag pkt_overshoot PTT_SRV_NAME = (None, [4, 5, 8, 9, 6, 7, 12, 13])"
  "tags pkt_two_tags = [6, 10]" "tags pkt_overshoot = [6]"
  "unat (ntohs (load16 pkt_two_tags 4)) = 11" "unat (ntohs (load16 pkt_overshoot 4)) = 12"
  "tag_len pkt_overshoot 10 = 255" "load16 pkt_overshoot 14 = PTT_SRV_NAME"
  "tag_len pkt_two_tags 10 = 3"
  by code_simp+

theorem get_tag_bounded_witness:
  "get_tag pkt_two_tags PTT_SRV_NAME = (Some 10, [4, 5, 8, 9, 6, 7, 12, 13, 10, 11]) \<and>
   Some 10 = find (\<lambda>t. load16 pkt_two_tags t = PTT_SRV_NAME) (tags pkt_two_tags) \<and>
   tags pkt_two_tags = [6, 10] \<and> 10 + 4 + tag_len pkt_two_tags 10 \<le> 6 + 11 \<and>
   get_tag pkt_overshoot PTT_SRV_NAME = (None, [4, 5, 8, 9, 6, 7, 12, 13]) \<and>
   None = find (\<lambda>t. load16 pkt_overshoot t = PTT_SRV_NAME) (tags pkt_overshoot) \<and>
   tags pkt_overshoot = [6] \<and> (10 :: nat) + 4 \<le> 6 + 12 \<and> 6 + 12 < 10 + 4 + tag_len pkt_overshoot 10 \<and>
   load16 pkt_overshoot 14 = PTT_SRV_NAME \<and>
   tag_iter pkt_overshoot (6 + 12) 10 = [] \<and>
   get_tag_loop pkt_overshoot (6 + 12) PTT_SRV_NAME 10 [4, 5, 8, 9, 6, 7] = (None, [4, 5, 8, 9, 6, 7, 12, 13])"
proof -
  from get_tag_bounded [OF pkt_runs(1)]
  have a: "Some 10 = find (\<lambda>t. load16 pkt_two_tags t = PTT_SRV_NAME) (tags pkt_two_tags)"
    and b: "\<forall>t\<in>set (tags pkt_two_tags). 6 \<le> t \<and>
              t + 4 + tag_len pkt_two_tags t \<le> 6 + unat (ntohs (load16 pkt_two_tags 4))"
    by blast+
  from get_tag_bounded [OF pkt_runs(2)]
  have c: "None = find (\<lambda>t. load16 pkt_overshoot t = PTT_SRV_NAME) (tags pkt_overshoot)"
    and d: "\<forall>pt rd0. pt + 4 \<le> 6 + unat (ntohs (load16 pkt_overshoot 4)) \<and>
                6 + unat (ntohs (load16 pkt_overshoot 4)) < pt + 4 + tag_len pkt_overshoot pt \<longrightarrow>
        tag_iter pkt_overshoot (6 + unat (ntohs (load16 pkt_overshoot 4))) pt = [] \<and>
        get_tag_loop pkt_overshoot (6 + unat (ntohs (load16 pkt_overshoot 4))) PTT_SRV_NAME pt rd0
          = (None, rd0 @ [pt + 2, pt + 3])"
    by blast+
  from b have b': "10 + 4 + tag_len pkt_two_tags 10 \<le> 6 + 11"
    by (simp add: pkt_runs(3,5))
  from d [rule_format, of 10 "[4, 5, 8, 9, 6, 7]"]
  have d': "tag_iter pkt_overshoot (6 + 12) 10 = [] \<and>
   get_tag_loop pkt_overshoot (6 + 12) PTT_SRV_NAME 10 [4, 5, 8, 9, 6, 7] = (None, [4, 5, 8, 9, 6, 7, 12, 13])"
    by (simp add: pkt_runs(6,7))
  from a b' c d' pkt_runs show ?thesis by simp
qed

section \<open>Properties of the C library helpers\<close>

lemma of_char_digit_char: "d < 10 \<Longrightarrow> (of_char (digit_char d) :: nat) = 48 + d"
  by (simp add: digit_char_def)

lemma isdigit_digit_char: "d < 10 \<Longrightarrow> isdigit_c (digit_char d)"
  by (simp add: isdigit_c_def of_char_digit_char)

lemma dec_digits_nonempty: "dec_digits n \<noteq> []"
  by (subst dec_digits.simps) simp

lemma dec_digits_all_digits: "c \<in> set (dec_digits n) \<Longrightarrow> isdigit_c c"
proof (induction n rule: dec_digits.induct)
  case (1 n)
  show ?case
  proof (cases "n < 10")
    case True
    with "1.prems" show ?thesis
      by (simp add: dec_digits.simps [of n] isdigit_digit_char)
  next
    case False
    with "1.prems" have "c \<in> set (dec_digits (n div 10)) \<or> c = digit_char (n mod 10)"
      by (auto simp: dec_digits.simps [of n])
    with "1.IH" False show ?thesis
      by (auto simp: isdigit_digit_char)
  qed
qed

lemma digits_val_snoc: "digits_val acc (xs @ [c]) = digits_val acc xs * 10 + (int (of_char c) - 48)"
  by (induction xs arbitrary: acc) simp_all

lemma digits_val_dec: "digits_val 0 (dec_digits n) = int n"
proof (induction n rule: dec_digits.induct)
  case (1 n)
  show ?case
  proof (cases "n < 10")
    case True
    then show ?thesis by (simp add: dec_digits.simps [of n] of_char_digit_char)
  next
    case False
    with "1.IH" show ?thesis
      by (simp add: dec_digits.simps [of n] digits_val_snoc of_char_digit_char) presburger
  qed
qed

lemma isdigit_not_space: "isdigit_c c \<Longrightarrow> \<not> isspace_c c"
  by (auto simp: isdigit_c_def isspace_c_def)

lemma isdigit_not_sign: "isdigit_c c \<Longrightarrow> c \<noteq> CHR ''-'' \<and> c \<noteq> CHR ''+''"
  by (auto simp: isdigit_c_def)

lemma strtol_dec: "int n \<le> LONG_MAX \<Longrightarrow> strtol (dec_digits n) = (int n, [])"
proof -
  assume le: "int n \<le> LONG_MAX"
  define s where "s = dec_digits n"
  have ne: "s \<noteq> []" by (simp add: s_def dec_digits_nonempty)
  have all: "\<forall>x\<in>set s. isdigit_c x"
    using dec_digits_all_digits [of _ n] by (auto simp: s_def)
  with ne have h: "isdigit_c (hd s)" by simp
  have sp: "dropWhile isspace_c s = s"
    using ne isdigit_not_space [OF h] by (cases s) auto
  have tw: "takeWhile isdigit_c s = s" and dw: "dropWhile isdigit_c s = []"
    using all by simp_all
  have val: "digits_val 0 s = int n" by (simp add: s_def digits_val_dec)
  have lo: "LONG_MIN \<le> int n" by (simp add: LONG_MIN_def)
  have "strtol s = (int n, [])"
    using ne isdigit_not_sign [OF h] le lo
    by (simp add: strtol_def Let_def sp tw dw val)
  then show ?thesis by (simp add: s_def)
qed

lemma long_to_int_small: "0 \<le> v \<Longrightarrow> v < 2 ^ 31 \<Longrightarrow> long_to_int v = v"
  by (simp add: long_to_int_def sint_sbintrunc' signed_take_bit_int_eq_self)

lemma length_dec_digits: "0 < k \<Longrightarrow> n < 10 ^ k \<Longrightarrow> length (dec_digits n) \<le> k"
proof (induction k arbitrary: n)
  case 0
  then show ?case by simp
next
  case (Suc k)
  show ?case
  proof (cases "n < 10")
    case True
    then show ?thesis by (simp add: dec_digits.simps [of n])
  next
    case False
    with Suc.prems have k: "0 < k" by (cases k) auto
    from Suc.prems have "n div 10 < 10 ^ k" by (simp add: less_mult_imp_div_less mult.commute)
    with Suc.IH k have "length (dec_digits (n div 10)) \<le> k" by blast
    with False show ?thesis by (simp add: dec_digits.simps [of n])
  qed
qed

section \<open>Closing a link\<close>

text \<open>
  close() clears \<open>opened\<close>. On a link in state DOWN nothing else changes. On a link in
  another state that holds a parent, the session hook is disconnected, the connect
  timer is stopped, the peer address, the real service name, both agent ids and
  \<open>mp_reply\<close> are cleared, the state becomes DOWN and the host gets PhysDown with the
  reason "manually".
\<close>

theorem PppoeClose_effect:
  assumes "get_link w k = Some l"
  shows "(state l = PHYS_STATE_DOWN \<longrightarrow>
            PppoeClose k w = Inr (w\<lparr>gLinks := (gLinks w)[k := Some (l\<lparr>info := (info l)\<lparr>opened := 0\<rparr>\<rparr>)]\<rparr>)) \<and>
         (state l \<noteq> PHYS_STATE_DOWN \<longrightarrow> PIf (info l) = Some i \<longrightarrow> get_if w i = Some pif \<longrightarrow>
            PppoeClose k w =
              Inr (w\<lparr>gLinks := (gLinks w)[k := Some (l\<lparr>state := PHYS_STATE_DOWN,
                          info := (info l)\<lparr>opened := 0, connectTimer := False, incoming := 0,
                                    peeraddr := replicate 6 0, real_session := [],
                                    agent_cid := [], agent_rid := [], mp_reply := 0\<rparr>\<rparr>)],
                     trace := trace w @ [NgFuncDisconnect (csock pif) (NodeIdPath (node_id pif) []) (session_hook_of w l),
                                         PhysDown k STR_MANUALLY]\<rparr>))"
proof -
  from assms have k: "k < length (gLinks w)" and lk: "gLinks w ! k = Some l"
    by (auto simp: get_link_def split: if_splits)
  show ?thesis
    using k lk
    by (simp add: PppoeClose_def PppoeDoClose_def get_link_def put_link_def get_if_def emit_def
        session_hook_of_def Let_def)
qed

theorem PppoeClose_effect_witness:
  "get_link world_up 0 = Some link_up \<and> state link_up \<noteq> PHYS_STATE_DOWN \<and>
   PIf (info link_up) = Some 0 \<and> get_if world_up 0 = Some if_em0 \<and>
   PppoeClose 0 world_up =
     Inr (world_up\<lparr>gLinks := [Some (link_up\<lparr>state := PHYS_STATE_DOWN,
                          info := (info link_up)\<lparr>opened := 0, connectTimer := False, incoming := 0,
                                    peeraddr := replicate 6 0, real_session := [],
                                    agent_cid := [], agent_rid := [], mp_reply := 0\<rparr>\<rparr>)],
                    trace := [NgFuncDisconnect 3 (NodeIdPath 5 []) ''mpd100-0'', PhysDown 0 STR_MANUALLY]\<rparr>)"
proof -
  have a: "get_link world_up 0 = Some link_up"
    by (simp add: get_link_def world_up_def world_cfg_def)
  have b: "get_if world_up 0 = Some if_em0"
    by (simp add: get_if_def world_up_def world_cfg_def)
  have c: "state link_up \<noteq> PHYS_STATE_DOWN" "PIf (info link_up) = Some 0"
    by (simp_all add: link_up_def)
  have h: "session_hook_of world_up link_up = ''mpd100-0''"
    by code_simp
  have d: "gLinks world_up = [Some link_up]" "trace world_up = []"
    by (simp_all add: world_up_def world_cfg_def)
  have e: "csock if_em0 = 3" "node_id if_em0 = 5" by (simp_all add: if_em0_def)
  from PppoeClose_effect [OF a, of 0 if_em0] a b c h d e show ?thesis by simp
qed

lemma fmt_d_nonneg: "0 \<le> i \<Longrightarrow> fmt_d i = dec_digits (nat i)"
  by (simp add: fmt_d_def)

lemma length_dec_int32: "n < 2 ^ 31 \<Longrightarrow> length (dec_digits n) \<le> 10"
proof -
  assume "n < 2 ^ 31"
  then have "n < 10 ^ 10" by simp
  then show ?thesis by (intro length_dec_digits) simp_all
qed

lemma session_hook_untruncated:
  assumes "0 \<le> gPid w" "gPid w < 2 ^ 31" "0 \<le> link_id l" "link_id l < 2 ^ 31"
  shows "session_hook_of w l = ''mpd'' @ dec_digits (nat (gPid w)) @ ''-'' @ dec_digits (nat (link_id l))"
proof -
  have "length (dec_digits (nat (gPid w))) \<le> 10" "length (dec_digits (nat (link_id l))) \<le> 10"
    using assms by (auto intro!: length_dec_int32)
  then show ?thesis
    using assms by (simp add: session_hook_of_def fmt_d_nonneg NG_HOOKSIZ_def)
qed

lemma ctrl_route_numbered:
  assumes pid: "0 \<le> gPid w" "gPid w < 2 ^ 31" and k31: "k < 2 ^ 31"
    and hook: "sts_hook msg = ''mpd'' @ dec_digits (nat (gPid w)) @ ''-'' @ dec_digits k"
  shows "ctrl_route p msg w =
     (if k \<ge> length (gLinks w) then Crashed OutOfBounds
      else (case gLinks w ! k of
          None \<Rightarrow> Dropped (emit (Log (if cmd msg = NGM_PPPOE_SUCCESS then LG_ERR else LG_PHYS)
                                   ''PPPoE: message from unexisting link'') w)
        | Some l \<Rightarrow>
            if ltype l \<noteq> gPppoePhysType \<or> Some p \<noteq> PIf (info l) then
              Dropped (emit (Log (if cmd msg = NGM_PPPOE_SUCCESS then LG_ERR else LG_PHYS)
                               ''PPPoE: message from unexisting link'') w)
            else if state l = PHYS_STATE_DOWN then
              Dropped (if cmd msg \<noteq> NGM_PPPOE_CLOSE
                       then emit (Log LG_PHYS ''PPPoE: message in DOWN state'') w else w)
            else Routed k))"
proof -
  define P where "P = dec_digits (nat (gPid w))"
  define K where "K = dec_digits k"
  have lenP: "length P \<le> 10" using pid by (auto simp: P_def intro!: length_dec_int32)
  have hook': "sts_hook msg = ''mpd'' @ P @ ''-'' @ K"
    using hook by (simp add: P_def K_def)
  have pre: "ppphook_of w = ''mpd'' @ P @ ''-''"
    using lenP pid by (simp add: ppphook_of_def fmt_d_nonneg NG_HOOKSIZ_def P_def)
  have st1: "strtol K = (int k, [])"
    unfolding K_def using k31 by (intro strtol_dec) (simp add: LONG_MAX_def)
  have cv: "long_to_int (int k) = int k" using k31 by (intro long_to_int_small) simp_all
  show ?thesis
    unfolding ctrl_route_def pre hook'
    using st1 cv by (simp add: Let_def route_link_def unexisting_def split: option.splits)
qed

lemma ctrl_route_own_hook:
  assumes pid: "0 \<le> gPid w" "gPid w < 2 ^ 31"
    and lk: "get_link w k = Some l" and id: "link_id l = int k" and k31: "k < 2 ^ 31"
    and ty: "ltype l = gPppoePhysType" and par: "PIf (info l) = Some p"
    and st: "state l \<noteq> PHYS_STATE_DOWN"
    and hk: "sts_hook msg = session_hook_of w l"
  shows "ctrl_route p msg w = Routed k"
proof -
  have hook: "sts_hook msg = ''mpd'' @ dec_digits (nat (gPid w)) @ ''-'' @ dec_digits k"
    using session_hook_untruncated [of w l] pid id k31 hk by simp
  from lk have kl: "k < length (gLinks w)" and gk: "gLinks w ! k = Some l"
    by (auto simp: get_link_def split: if_splits)
  show ?thesis
    using ctrl_route_numbered [OF pid k31 hook, of p] kl gk ty par st by simp
qed

lemma ctrl_route_listen:
  "take 7 (sts_hook msg) = ''listen-'' \<Longrightarrow> ctrl_route p msg w = Dropped w"
  by (simp add: ctrl_route_def Let_def)

lemma ctrl_route_foreign:
  "take 7 (sts_hook msg) \<noteq> ''listen-'' \<Longrightarrow>
   take (length (ppphook_of w)) (sts_hook msg) \<noteq> ppphook_of w \<Longrightarrow>
   ctrl_route p msg w = Dropped (emit (Log LG_ERR ''PPPoE: message from unknown hook'') w)"
  by (simp add: ctrl_route_def Let_def)

lemma route_link_shape:
  "(\<exists>k. route_link p msg w i = Routed k) \<or> route_link p msg w i = Crashed OutOfBounds \<or>
   route_link p msg w i = Dropped w \<or> (\<exists>lv t. route_link p msg w i = Dropped (emit (Log lv t) w))"
  by (auto simp: route_link_def unexisting_def split: option.splits)

lemma ctrl_route_shape:
  "(\<exists>k. ctrl_route p msg w = Routed k) \<or> ctrl_route p msg w = Crashed OutOfBounds \<or>
   ctrl_route p msg w = Dropped w \<or> (\<exists>lv t. ctrl_route p msg w = Dropped (emit (Log lv t) w))"
proof -
  have u: "\<exists>lv t. unexisting msg w = Dropped (emit (Log lv t) w)"
    by (auto simp: unexisting_def)
  show ?thesis
    unfolding ctrl_route_def Let_def
    using route_link_shape [of p msg w] u by auto
qed

text \<open>A dropped message changes nothing but the log.\<close>

lemma ctrl_dropped_frame:
  assumes "ctrl_route p msg w = Dropped w'"
  shows "gPid w' = gPid w \<and> gLinks w' = gLinks w \<and> PppoeIfs w' = PppoeIfs w \<and> lheap w' = lheap w \<and>
     gNgEtherLoaded w' = gNgEtherLoaded w \<and>
     (trace w' = trace w \<or> (\<exists>lv t. trace w' = trace w @ [Log lv t]))"
proof -
  from ctrl_route_shape [of p msg w] assms
  have "w' = w \<or> (\<exists>lv t. w' = emit (Log lv t) w)" by auto
  then show ?thesis by (auto simp: emit_def)
qed

lemma ctrl_dropped_event:
  "cookie_is_pppoe msg \<Longrightarrow> needs_link (cmd msg) \<Longrightarrow> ctrl_route p msg w = Dropped w' \<Longrightarrow>
     PppoeCtrlReadEvent p (Some msg) w = Inr w'"
  by (simp add: PppoeCtrlReadEvent_def)

lemma ctrl_success_routed:
  assumes "0 \<le> gPid w" "gPid w < 2 ^ 31"
    and "get_link w k = Some l" and "link_id l = int k" and "k < 2 ^ 31"
    and "ltype l = gPppoePhysType" and "PIf (info l) = Some p"
    and "state l \<noteq> PHYS_STATE_DOWN"
    and "cookie_is_pppoe msg" and "cmd msg = NGM_PPPOE_SUCCESS"
    and "sts_hook msg = session_hook_of w l"
  shows "PppoeCtrlReadEvent p (Some msg) w =
     Inr (if opened (info l) \<noteq> 0
          then w\<lparr>gLinks := (gLinks w)[k := Some (l\<lparr>state := PHYS_STATE_UP,
                                                   info := (info l)\<lparr>connectTimer := False\<rparr>\<rparr>)],
                 trace := trace w @ [Log LG_PHYS ''PPPoE: connection successful'', PhysUp k]\<rparr>
          else w\<lparr>gLinks := (gLinks w)[k := Some (l\<lparr>state := PHYS_STATE_READY\<rparr>)],
                 trace := trace w @ [Log LG_PHYS ''PPPoE: connection successful'']\<rparr>)"
proof -
  have r: "ctrl_route p msg w = Routed k"
    using assms by (intro ctrl_route_own_hook [where l = l]) simp_all
  show ?thesis
    using assms(3,9,10) r
    by (simp add: PppoeCtrlReadEvent_def needs_link_def ctrl_decode_def put_link_def emit_def Let_def)
qed

section \<open>Closing a link that has lost its parent\<close>

lemma reach_incoming: "reachable world_incoming"
proof -
  define w1 where "w1 = store_link 0 (new_link 0 ''L1'' False True {LINK_CONF_INCOMING} {}) (boot 100 2)"
  have r1: "reachable w1" unfolding w1_def
    by (rule r_create [OF r_boot]) (simp_all add: boot_def get_link_def)
  have p: "is_pppoe w1 0" unfolding w1_def by code_simp
  have e: "PppoeSetCommand 0 [''em0''] SET_IFACE (node_env env_ok) env_listen w1 = Inr (CmdOk, world_incoming)"
    unfolding w1_def by code_simp
  from r1 p e show ?thesis by (rule r_set)
qed

lemma reach_listening: "reachable world_listening"
proof -
  have p: "is_pppoe world_incoming 0" by code_simp
  have e: "PppoeNodeUpdate 0 (node_env env_ok) env_listen world_incoming = Inr world_listening"
    by code_simp
  from reach_incoming p e show ?thesis by (rule r_update)
qed

lemma reach_dialing: "reachable world_dialing"
proof -
  have p: "is_pppoe world_listening 0" by code_simp
  have e: "PppoeOpen 0 env_ok world_listening = Inr world_dialing" by code_simp
  from reach_listening p e show ?thesis by (rule r_open)
qed

lemma reach_orphan: "reachable world_orphan"
proof -
  have p: "is_pppoe world_dialing 0" by code_simp
  have e: "PppoeSetCommand 0 [''em1''] SET_IFACE env_no_iface env_listen world_dialing = Inr (CmdOk, world_orphan)"
    by code_simp
  from reach_dialing p e show ?thesis by (rule r_set)
qed

text \<open>
  C5 fails on a link that is not DOWN and holds no parent. Such a link exists in a state
  the process reaches: \<open>L1\<close> accepts incoming calls and listens on \<open>em0\<close>, is opened
  for an outgoing call (CONNECTING), and then \<open>set pppoe iface em1\<close> releases its
  parent while \<open>em1\<close> cannot be brought up. On that link close() clears \<open>opened\<close> and
  then PppoeDoClose reads \<^verbatim>\<open>pi->PIf->node_id\<close> through the null pointer: nothing is
  disconnected, the state does not become DOWN and the host gets no PhysDown.
\<close>

theorem PppoeClose_without_parent:
  "reachable world_orphan \<and> get_link world_orphan 0 = Some link_orphan \<and>
   ltype link_orphan = gPppoePhysType \<and> state link_orphan = PHYS_STATE_CONNECTING \<and>
   PIf (info link_orphan) = None \<and> connectTimer (info link_orphan) \<and>
   PppoeSetCommand 0 [''em1''] SET_IFACE env_no_iface env_listen world_dialing = Inr (CmdOk, world_orphan) \<and>
   PppoeClose 0 world_orphan = Inl NullDeref"
proof -
  have "get_link world_orphan 0 = Some link_orphan \<and>
   ltype link_orphan = gPppoePhysType \<and> state link_orphan = PHYS_STATE_CONNECTING \<and>
   PIf (info link_orphan) = None \<and> connectTimer (info link_orphan) \<and>
   PppoeSetCommand 0 [''em1''] SET_IFACE env_no_iface env_listen world_dialing = Inr (CmdOk, world_orphan) \<and>
   PppoeClose 0 world_orphan = Inl NullDeref"
    by code_simp
  with reach_orphan show ?thesis by simp
qed

section \<open>Control messages\<close>

text \<open>
  C2. A SUCCESS message whose hook name is the session hook of a link in state
  CONNECTING (a PPPoE link of the receiving parent): with \<open>opened\<close> set the connect
  timer is stopped, the state becomes UP and PhysUp is called; with \<open>opened\<close> clear the
  state becomes READY.
\<close>

theorem ctrl_success_connecting:
  assumes "0 \<le> gPid w" "gPid w < 2 ^ 31"
    and "get_link w k = Some l" and "link_id l = int k" and "k < 2 ^ 31"
    and "ltype l = gPppoePhysType" and "PIf (info l) = Some p"
    and "state l = PHYS_STATE_CONNECTING"
    and "cookie_is_pppoe msg" and "cmd msg = NGM_PPPOE_SUCCESS"
    and "sts_hook msg = session_hook_of w l"
  shows "PppoeCtrlReadEvent p (Some msg) w =
     Inr (if opened (info l) \<noteq> 0
          then w\<lparr>gLinks := (gLinks w)[k := Some (l\<lparr>state := PHYS_STATE_UP,
                                                   info := (info l)\<lparr>connectTimer := False\<rparr>\<rparr>)],
                 trace := trace w @ [Log LG_PHYS ''PPPoE: connection successful'', PhysUp k]\<rparr>
          else w\<lparr>gLinks := (gLinks w)[k := Some (l\<lparr>state := PHYS_STATE_READY\<rparr>)],
                 trace := trace w @ [Log LG_PHYS ''PPPoE: connection successful'']\<rparr>)"
  using assms by (intro ctrl_success_routed) simp_all

theorem ctrl_success_connecting_witness:
  "state link_connecting = PHYS_STATE_CONNECTING \<and> opened (info link_connecting) \<noteq> 0 \<and>
   PppoeCtrlReadEvent 0 (Some (msg_success ''mpd100-0'')) world_connecting =
     Inr (world_connecting\<lparr>gLinks := [Some (link_connecting\<lparr>state := PHYS_STATE_UP,
                                 info := (info link_connecting)\<lparr>connectTimer := False\<rparr>\<rparr>)],
            trace := [Log LG_PHYS ''PPPoE: connection successful'', PhysUp 0]\<rparr>)"
proof -
  have pid: "0 \<le> gPid world_connecting" "gPid world_connecting < 2 ^ 31"
    by (simp_all add: world_connecting_def world_cfg_def)
  have lk: "get_link world_connecting 0 = Some link_connecting"
    by (simp add: get_link_def world_connecting_def world_cfg_def)
  have l: "link_id link_connecting = int 0" "ltype link_connecting = gPppoePhysType"
    "PIf (info link_connecting) = Some 0" "state link_connecting = PHYS_STATE_CONNECTING"
    "opened (info link_connecting) \<noteq> 0"
    by (simp_all add: link_connecting_def link_cfg_def info_cfg_def)
  have m: "cookie_is_pppoe (msg_success ''mpd100-0'')" "cmd (msg_success ''mpd100-0'') = NGM_PPPOE_SUCCESS"
    by (simp_all add: msg_success_def)
  have h: "sts_hook (msg_success ''mpd100-0'') = session_hook_of world_connecting link_connecting"
    by code_simp
  have g: "gLinks world_connecting = [Some link_connecting]" "trace world_connecting = []"
    by (simp_all add: world_connecting_def world_cfg_def)
  from ctrl_success_connecting [OF pid lk l(1) _ l(2) l(3) l(4) m h] l g
  show ?thesis by simp
qed

section \<open>Frame properties of the parent table operations\<close>

lemma ups_emit: "ups k (trace (emit e w)) = ups k (trace w) + (if e = PhysUp k then 1 else 0)"
  by (simp add: ups_def emit_def)

lemma trace_put_if: "trace (put_if i e w) = trace w"
  by (simp add: put_if_def)

lemma trace_put_link: "trace (put_link k l w) = trace w"
  by (simp add: put_link_def)

lemma ups_close_socks: "ups k (trace (close_socks i w)) = ups k (trace w)"
  by (simp add: close_socks_def ups_emit)

lemma frame_emit: "gPid (emit e w) = gPid w" "gLinks (emit e w) = gLinks w" "PppoeIfs (emit e w) = PppoeIfs w"
  by (simp_all add: emit_def)

lemma frame_put_if: "gPid (put_if i e w) = gPid w" "gLinks (put_if i e w) = gLinks w"
  by (simp_all add: put_if_def)

lemma frame_close_socks: "gPid (close_socks i w) = gPid w" "gLinks (close_socks i w) = gLinks w"
  by (simp_all add: close_socks_def frame_emit)

lemma create_hooks_quiet:
  "ups k (trace (snd (create_hooks i ifc pth hk env w))) = ups k (trace w) \<and>
   gPid (snd (create_hooks i ifc pth hk env w)) = gPid w \<and>
   gLinks (snd (create_hooks i ifc pth hk env w)) = gLinks w"
  by (simp add: create_hooks_def Let_def ups_emit ups_close_socks trace_put_if frame_emit frame_put_if
      frame_close_socks split: option.splits)

lemma create_hooks_quiet':
  "create_hooks i ifc pth hk env w = (ok, w1) \<Longrightarrow>
   ups k (trace w1) = ups k (trace w) \<and> gPid w1 = gPid w \<and> gLinks w1 = gLinks w"
  using create_hooks_quiet [of k i ifc pth hk env w] by simp

lemma CreatePppoeNode_quiet:
  "CreatePppoeNode i ifc pth hk env w = Inr (ok, w1) \<Longrightarrow>
   ups k (trace w1) = ups k (trace w) \<and> gPid w1 = gPid w \<and> gLinks w1 = gLinks w"
  unfolding CreatePppoeNode_def Let_def
  by (auto split: if_splits option.splits prod.splits
      simp: ups_emit ups_close_socks trace_put_if frame_emit frame_put_if frame_close_socks
      dest!: create_hooks_quiet' [where k = k])

lemma get_link_put_link: "k < length (gLinks w) \<Longrightarrow> get_link (put_link k l w) k = Some l"
  by (simp add: get_link_def put_link_def)

lemma get_link_put_link_other: "j \<noteq> k \<Longrightarrow> get_link (put_link k l w) j = get_link w j"
  by (simp add: get_link_def put_link_def)

lemma get_link_put_if: "get_link (put_if i e w) k = get_link w k"
  by (simp add: get_link_def put_if_def)

lemma get_link_emit: "get_link (emit e w) k = get_link w k"
  by (simp add: get_link_def emit_def)

lemma get_link_cong: "gLinks w1 = gLinks w \<Longrightarrow> get_link w1 k = get_link w k"
  by (simp add: get_link_def)

lemma get_link_length: "get_link w k = Some l \<Longrightarrow> k < length (gLinks w)"
  by (auto simp: get_link_def split: if_splits)

lemma keep_link:
  "get_link w1 k = Some l \<Longrightarrow> \<exists>pf. get_link w1 k = Some (l\<lparr>info := (info l)\<lparr>PIf := pf\<rparr>\<rparr>)"
  by (rule exI [of _ "PIf (info l)"]) simp

lemma PppoeGetNode_quiet:
  assumes run: "PppoeGetNode k env w = Inr w1" and lk: "get_link w k = Some l"
  shows "ups j (trace w1) = ups j (trace w) \<and> gPid w1 = gPid w \<and>
         (\<exists>pf. get_link w1 k = Some (l\<lparr>info := (info l)\<lparr>PIf := pf\<rparr>\<rparr>))"
proof -
  have kl: "k < length (gLinks w)" using lk by (rule get_link_length)
  show ?thesis
  proof (cases "PIf (info l) \<noteq> None \<or> path (info l) = ''undefined:''")
    case True
    with run lk have "w1 = w \<or> w1 = emit (Log LG_ERR ''PPPoE: Skipping link with undefined interface'') w"
      by (auto simp: PppoeGetNode_def split: if_splits)
    then have "ups j (trace w1) = ups j (trace w)" "gPid w1 = gPid w" "get_link w1 k = Some l"
      using lk by (auto simp: ups_emit frame_emit get_link_emit)
    then show ?thesis using keep_link by blast
  next
    case False
    obtain jo fo where sc: "scan_ifs (PppoeIfs w) (path (info l)) 0 None = (jo, fo)"
      by (cases "scan_ifs (PppoeIfs w) (path (info l)) 0 None") auto
    show ?thesis
    proof (cases jo)
      case (Some jj)
      with run lk False sc
      have "w1 = put_link k (l\<lparr>info := (info l)\<lparr>PIf := Some jj\<rparr>\<rparr>)
                   (put_if jj ((PppoeIfs w ! jj)\<lparr>refs := refs (PppoeIfs w ! jj) + 1\<rparr>) w)"
        by (simp add: PppoeGetNode_def)
      then show ?thesis
        using kl by (auto simp: trace_put_link trace_put_if put_link_def frame_put_if get_link_def)
    next
      case None
      show ?thesis
      proof (cases fo)
        case None
        with run lk False sc \<open>jo = None\<close>
        have "w1 = emit (Log LG_ERR ''PPPoE: Too many different parent interfaces!'') w"
          by (simp add: PppoeGetNode_def)
        then have "ups j (trace w1) = ups j (trace w)" "gPid w1 = gPid w" "get_link w1 k = Some l"
      using lk by (auto simp: ups_emit frame_emit get_link_emit)
    then show ?thesis using keep_link by blast
      next
        case (Some fr)
        with run lk False sc \<open>jo = None\<close>
        obtain ok w' where cr: "CreatePppoeNode fr (iface (info l)) (path (info l)) (hook (info l)) env w = Inr (ok, w')"
          and w1: "w1 = (if ok then put_link k (l\<lparr>info := (info l)\<lparr>PIf := Some fr\<rparr>\<rparr>)
                             (put_if fr ((PppoeIfs w' ! fr)\<lparr>ifnodepath := strlcpy (path (info l)) MAX_PATH, refs := 1\<rparr>) w')
                         else emit (Log LG_ERR ''PPPoE: Error creating ng_pppoe node'') w')"
          by (auto simp: PppoeGetNode_def split: sum.splits prod.splits if_splits)
        from CreatePppoeNode_quiet [OF cr, of j]
        have q: "ups j (trace w') = ups j (trace w)" "gPid w' = gPid w" "gLinks w' = gLinks w" by auto
        show ?thesis
        proof (cases ok)
          case True
          with w1 q kl show ?thesis
            by (auto simp: trace_put_link trace_put_if put_link_def frame_put_if get_link_def)
        next
          case False
          with w1 q lk have "ups j (trace w1) = ups j (trace w)" "gPid w1 = gPid w" "get_link w1 k = Some l"
            by (auto simp: ups_emit frame_emit get_link_emit get_link_cong [OF q(3)])
          then show ?thesis using keep_link by blast
        qed
      qed
    qed
  qed
qed

lemma open_fail_frame:
  "get_link (open_fail k w) j = get_link w j"
  "get_link (open_fail2 k pif h w) j = get_link w j"
  by (simp_all add: open_fail_def open_fail2_def get_link_emit)

lemma open_connect_connecting:
  assumes run: "open_connect k env w = Inr w1" and lk: "get_link w k = Some l"
    and l1: "get_link w1 k = Some l1" and st: "state l = PHYS_STATE_DOWN"
    and st1: "state l1 = PHYS_STATE_CONNECTING"
  shows "ups j (trace w1) = ups j (trace w) \<and> gPid w1 = gPid w \<and> PIf (info l) \<noteq> None \<and>
     l1 = l\<lparr>state := PHYS_STATE_CONNECTING,
            info := (info l)\<lparr>connectTimer := True,
                      real_session := strlcpy (session (info l)) MAX_SESSION,
                      agent_cid := [], agent_rid := [], mp_reply := 0\<rparr>\<rparr>"
proof -
  have kl: "k < length (gLinks w)" using lk by (rule get_link_length)
  from run show ?thesis
    unfolding open_connect_def
    using lk kl l1 st st1
    apply (simp add: Let_def split: option.splits prod.splits if_splits)
    apply (auto simp: open_fail_def open_fail2_def ups_def get_link_def emit_def put_link_def)
    done
qed

lemma session_hook_of_cong:
  "gPid w1 = gPid w \<Longrightarrow> link_id l1 = link_id l \<Longrightarrow> session_hook_of w1 l1 = session_hook_of w l"
  by (simp add: session_hook_of_def)

lemma PppoeOpen_connecting:
  assumes lk: "get_link w k = Some l" and out: "incoming (info l) \<noteq> 1" and st: "state l = PHYS_STATE_DOWN"
    and run: "PppoeOpen k env w = Inr w1" and l1: "get_link w1 k = Some l1"
    and st1: "state l1 = PHYS_STATE_CONNECTING"
  shows "ups j (trace w1) = ups j (trace w) \<and> gPid w1 = gPid w \<and> link_id l1 = link_id l \<and>
         ltype l1 = ltype l \<and> opened (info l1) = 1 \<and> connectTimer (info l1) \<and>
         PIf (info l1) \<noteq> None \<and> real_session (info l1) = strlcpy (session (info l)) MAX_SESSION"
proof -
  define l0 where "l0 = Deny LINK_CONF_ACFCOMP (Disable LINK_CONF_ACFCOMP (l\<lparr>info := (info l)\<lparr>opened := 1\<rparr>\<rparr>))"
  define w0 where "w0 = put_link k l0 w"
  have kl: "k < length (gLinks w)" using lk by (rule get_link_length)
  have l0: "get_link w0 k = Some l0" by (simp add: w0_def get_link_put_link kl)
  have p0: "state l0 = PHYS_STATE_DOWN" "incoming (info l0) \<noteq> 1" "link_id l0 = link_id l"
    "ltype l0 = ltype l" "opened (info l0) = 1" "session (info l0) = session (info l)"
    using st out by (simp_all add: l0_def Deny_def Disable_def)
  have w0: "trace w0 = trace w" "gPid w0 = gPid w" by (simp_all add: w0_def put_link_def)
  from run lk p0 have oo: "open_outgoing k env w0 = Inr w1"
    by (simp add: PppoeOpen_def Let_def l0_def [symmetric] w0_def [symmetric])
  then obtain w' where g: "PppoeGetNode k (node_env env) w0 = Inr w'" and oc: "open_connect k env w' = Inr w1"
    by (auto simp: open_outgoing_def split: sum.splits)
  from PppoeGetNode_quiet [OF g l0, of j] obtain pf where
    q: "ups j (trace w') = ups j (trace w0)" "gPid w' = gPid w0"
    and l': "get_link w' k = Some (l0\<lparr>info := (info l0)\<lparr>PIf := pf\<rparr>\<rparr>)" by auto
  have "state (l0\<lparr>info := (info l0)\<lparr>PIf := pf\<rparr>\<rparr>) = PHYS_STATE_DOWN" using p0 by simp
  from open_connect_connecting [OF oc l' l1 this st1, of j]
  show ?thesis using q w0 p0 by simp
qed

section \<open>Opening a link that is already active\<close>

text \<open>
  C10 (as amended). PppoeOpen on an outgoing link whose state is not DOWN sets
  \<open>opened\<close> to 1 and removes ACFCOMP from the enabled and from the accepted options of
  the link, and does nothing else: the state, the connect timer, the parent table and
  every other field of the session are unchanged, and all it emits is one log line (no
  graph message, no host notification).
\<close>

theorem PppoeOpen_already_active:
  assumes "get_link w k = Some l" and "incoming (info l) \<noteq> 1" and "state l \<noteq> PHYS_STATE_DOWN"
  shows "PppoeOpen k env w =
     Inr (w\<lparr>gLinks := (gLinks w)[k := Some (l\<lparr>info := (info l)\<lparr>opened := 1\<rparr>,
                                               opt_enable := opt_enable l - {LINK_CONF_ACFCOMP},
                                               opt_accept := opt_accept l - {LINK_CONF_ACFCOMP}\<rparr>)],
            trace := trace w @ [Log LG_PHYS ''PPPoE allready active'']\<rparr>)"
  using assms
  by (simp add: PppoeOpen_def Disable_def Deny_def put_link_def emit_def Let_def)

theorem PppoeOpen_already_active_witness:
  "get_link world_up 0 = Some link_up \<and> incoming (info link_up) \<noteq> 1 \<and> state link_up \<noteq> PHYS_STATE_DOWN \<and>
   PppoeOpen 0 env_ok world_up =
     Inr (world_up\<lparr>gLinks := [Some (link_up\<lparr>opt_enable := {}, opt_accept := {}\<rparr>)],
            trace := [Log LG_PHYS ''PPPoE allready active'']\<rparr>)"
proof -
  have a: "get_link world_up 0 = Some link_up"
    by (simp add: get_link_def world_up_def world_cfg_def)
  have b: "incoming (info link_up) \<noteq> 1" "state link_up \<noteq> PHYS_STATE_DOWN"
    by (simp_all add: link_up_def info_cfg_def)
  have c: "gLinks world_up = [Some link_up]" "trace world_up = []"
    by (simp_all add: world_up_def world_cfg_def)
  have d: "link_up\<lparr>info := (info link_up)\<lparr>opened := 1\<rparr>,
                   opt_enable := opt_enable link_up - {LINK_CONF_ACFCOMP},
                   opt_accept := opt_accept link_up - {LINK_CONF_ACFCOMP}\<rparr> = link_up\<lparr>opt_enable := {}, opt_accept := {}\<rparr>"
    by (simp add: link_up_def link_cfg_def info_cfg_def)
  from PppoeOpen_already_active [OF a b, of env_ok] a b c d show ?thesis by simp
qed

text \<open>
  C10 as stated ("sets opened but performs no other action") fails on a link that has
  ACFCOMP enabled and accepted: after the call both option sets are empty, so the link
  is not the old link with only \<open>opened\<close> set.
\<close>

theorem PppoeOpen_only_opened_counterexample:
  "get_link world_up 0 = Some link_up \<and> incoming (info link_up) = 0 \<and> state link_up = PHYS_STATE_UP \<and>
   opt_enable link_up = {LINK_CONF_ACFCOMP} \<and> opt_accept link_up = {LINK_CONF_ACFCOMP} \<and>
   PppoeOpen 0 env_ok world_up =
     Inr (world_up\<lparr>gLinks := [Some (link_up\<lparr>opt_enable := {}, opt_accept := {}\<rparr>)],
            trace := [Log LG_PHYS ''PPPoE allready active'']\<rparr>) \<and>
   link_up\<lparr>opt_enable := {}, opt_accept := {}\<rparr> \<noteq> link_up\<lparr>info := (info link_up)\<lparr>opened := 1\<rparr>\<rparr>"
proof -
  have a: "get_link world_up 0 = Some link_up"
    by (simp add: get_link_def world_up_def world_cfg_def)
  have b: "incoming (info link_up) = 0" "state link_up = PHYS_STATE_UP"
    "opt_enable link_up = {LINK_CONF_ACFCOMP}" "opt_accept link_up = {LINK_CONF_ACFCOMP}"
    by (simp_all add: link_up_def link_cfg_def info_cfg_def)
  have run: "PppoeOpen 0 env_ok world_up =
     Inr (world_up\<lparr>gLinks := [Some (link_up\<lparr>opt_enable := {}, opt_accept := {}\<rparr>)],
            trace := [Log LG_PHYS ''PPPoE allready active'']\<rparr>)"
    using a b
    by (simp add: PppoeOpen_def Disable_def Deny_def put_link_def emit_def Let_def
        world_up_def world_cfg_def link_up_def link_cfg_def info_cfg_def)
  have ne: "link_up\<lparr>opt_enable := {}, opt_accept := {}\<rparr> \<noteq> link_up\<lparr>info := (info link_up)\<lparr>opened := 1\<rparr>\<rparr>"
  proof
    assume "link_up\<lparr>opt_enable := {}, opt_accept := {}\<rparr> = link_up\<lparr>info := (info link_up)\<lparr>opened := 1\<rparr>\<rparr>"
    then have "opt_enable (link_up\<lparr>opt_enable := {}, opt_accept := {}\<rparr>)
             = opt_enable (link_up\<lparr>info := (info link_up)\<lparr>opened := 1\<rparr>\<rparr>)" by simp
    with b show False by simp
  qed
  from a b run ne show ?thesis by simp
qed

section \<open>Messages that name no link of the table\<close>

text \<open>
  C8. With one link in the table, a SUCCESS message for the hook \<open>mpd100-7\<close> makes the
  demultiplexer evaluate \<^verbatim>\<open>gLinks[7]\<close>, an element outside the table, instead of
  dropping the message.
\<close>

theorem ctrl_unknown_link_id_out_of_table:
  "length (gLinks world_up) = 1 \<and>
   PppoeCtrlReadEvent 0 (Some (msg_success ''mpd100-7'')) world_up = Inl OutOfBounds"
  by code_simp

section \<open>A second SUCCESS\<close>

text \<open>
  C3 as stated fails: the first SUCCESS takes the connecting link to UP and calls PhysUp;
  the same message delivered again is handled again and calls PhysUp a second time.
\<close>

theorem duplicate_success_counterexample:
  "PppoeCtrlReadEvent 0 (Some (msg_success ''mpd100-0'')) world_connecting = Inr world_after_success \<and>
   PppoeCtrlReadEvent 0 (Some (msg_success ''mpd100-0'')) world_after_success =
     Inr (world_after_success\<lparr>trace := [Log LG_PHYS ''PPPoE: connection successful'', PhysUp 0,
                                        Log LG_PHYS ''PPPoE: connection successful'', PhysUp 0]\<rparr>)"
  by code_simp
section \<open>The vendor tag scan on a one-byte remainder\<close>

text \<open>
  C4. A discovery packet with length field 9 whose only tag is Vendor-Specific with
  tag_len 5: the vendor id 00 00 0D E9 and the single byte 01. The tag value occupies
  offsets 10 to 14. The scan still enters the loop (\<^verbatim>\<open>pos + 1 <= len\<close> with len = 1),
  reads the sub-length at offset 15, outside the tag and outside the packet, does not
  stop (\<^verbatim>\<open>len - pos - 2\<close> wraps around), and copies the two bytes at offsets 16 and 17
  into \<^verbatim>\<open>agent_cid\<close>.
\<close>

theorem decode_agent_ids_reads_past_vendor_tag:
  "get_vs_tag (mem_of [0x11, 0x09, 0, 0, 0, 9, 1, 5, 0, 5, 0, 0, 0x0D, 0xE9, 1, 2, 0x41, 0x42, 0x43])
     (htonl 0x00000DE9) = (Some 6, [4, 5, 8, 9, 6, 7, 8, 9, 10, 11, 12, 13]) \<and>
   tag_len (mem_of [0x11, 0x09, 0, 0, 0, 9, 1, 5, 0, 5, 0, 0, 0x0D, 0xE9, 1, 2, 0x41, 0x42, 0x43]) 6 = 5 \<and>
   hdr_end (mem_of [0x11, 0x09, 0, 0, 0, 9, 1, 5, 0, 5, 0, 0, 0x0D, 0xE9, 1, 2, 0x41, 0x42, 0x43]) = 15 \<and>
   decode_agent_ids (mem_of [0x11, 0x09, 0, 0, 0, 9, 1, 5, 0, 5, 0, 0, 0x0D, 0xE9, 1, 2, 0x41, 0x42, 0x43]) =
     (\<lparr>cid_buf = [0x41, 0x42] @ replicate 62 0, rid_buf = replicate 64 0\<rparr>,
      [4, 5, 8, 9, 6, 7, 8, 9, 10, 11, 12, 13, 8, 9, 15, 14, 16, 17])"
  by code_simp

text \<open>
  C3 (as amended). Every SUCCESS routed to a link that is not DOWN is acted on, the
  first and any later one alike: with \<open>opened\<close> set the timer is stopped, the state
  becomes (or stays) UP and PhysUp is called, again if the link was UP already; with
  \<open>opened\<close> clear the state becomes (or stays) READY and only a log line is written.
  In a successful outbound connect, that is PppoeOpen on a DOWN outgoing link that leaves
  it CONNECTING followed by one SUCCESS, the link ends UP with the configured service as
  real service name and PhysUp has been called exactly once more than before the open.
\<close>

theorem success_handled_each_time:
  assumes pid: "0 \<le> gPid w" "gPid w < 2 ^ 31" and k31: "k < 2 ^ 31"
    and lk: "get_link w k = Some l" and id: "link_id l = int k" and ty: "ltype l = gPppoePhysType"
    and msg: "cookie_is_pppoe msg" "cmd msg = NGM_PPPOE_SUCCESS" "sts_hook msg = session_hook_of w l"
  shows "(state l \<noteq> PHYS_STATE_DOWN \<longrightarrow> PIf (info l) = Some p \<longrightarrow>
            PppoeCtrlReadEvent p (Some msg) w =
              Inr (if opened (info l) \<noteq> 0
                   then w\<lparr>gLinks := (gLinks w)[k := Some (l\<lparr>state := PHYS_STATE_UP,
                                                            info := (info l)\<lparr>connectTimer := False\<rparr>\<rparr>)],
                          trace := trace w @ [Log LG_PHYS ''PPPoE: connection successful'', PhysUp k]\<rparr>
                   else w\<lparr>gLinks := (gLinks w)[k := Some (l\<lparr>state := PHYS_STATE_READY\<rparr>)],
                          trace := trace w @ [Log LG_PHYS ''PPPoE: connection successful'']\<rparr>)) \<and>
         (state l = PHYS_STATE_DOWN \<longrightarrow> incoming (info l) \<noteq> 1 \<longrightarrow> PppoeOpen k env w = Inr w1 \<longrightarrow>
          get_link w1 k = Some l1 \<longrightarrow> state l1 = PHYS_STATE_CONNECTING \<longrightarrow> PIf (info l1) = Some q \<longrightarrow>
            PppoeCtrlReadEvent q (Some msg) w1 =
              Inr (w1\<lparr>gLinks := (gLinks w1)[k := Some (l1\<lparr>state := PHYS_STATE_UP,
                                                          info := (info l1)\<lparr>connectTimer := False\<rparr>\<rparr>)],
                      trace := trace w1 @ [Log LG_PHYS ''PPPoE: connection successful'', PhysUp k]\<rparr>) \<and>
            ups k (trace w1 @ [Log LG_PHYS ''PPPoE: connection successful'', PhysUp k]) = ups k (trace w) + 1 \<and>
            real_session (info l1) = strlcpy (session (info l)) MAX_SESSION)"
proof (intro conjI impI)
  assume "state l \<noteq> PHYS_STATE_DOWN" "PIf (info l) = Some p"
  then show "PppoeCtrlReadEvent p (Some msg) w =
              Inr (if opened (info l) \<noteq> 0
                   then w\<lparr>gLinks := (gLinks w)[k := Some (l\<lparr>state := PHYS_STATE_UP,
                                                            info := (info l)\<lparr>connectTimer := False\<rparr>\<rparr>)],
                          trace := trace w @ [Log LG_PHYS ''PPPoE: connection successful'', PhysUp k]\<rparr>
                   else w\<lparr>gLinks := (gLinks w)[k := Some (l\<lparr>state := PHYS_STATE_READY\<rparr>)],
                          trace := trace w @ [Log LG_PHYS ''PPPoE: connection successful'']\<rparr>)"
    using assms by (intro ctrl_success_routed) simp_all
next
  assume a: "state l = PHYS_STATE_DOWN" "incoming (info l) \<noteq> 1" "PppoeOpen k env w = Inr w1"
    "get_link w1 k = Some l1" "state l1 = PHYS_STATE_CONNECTING" "PIf (info l1) = Some q"
  from PppoeOpen_connecting [OF lk a(2) a(1) a(3) a(4) a(5), of k]
  have o: "ups k (trace w1) = ups k (trace w)" "gPid w1 = gPid w" "link_id l1 = link_id l"
    "ltype l1 = ltype l" "opened (info l1) = 1"
    "real_session (info l1) = strlcpy (session (info l)) MAX_SESSION" by simp_all
  have hk: "sts_hook msg = session_hook_of w1 l1"
    using msg(3) session_hook_of_cong [OF o(2) o(3)] by simp
  have "PppoeCtrlReadEvent q (Some msg) w1 =
     Inr (if opened (info l1) \<noteq> 0
          then w1\<lparr>gLinks := (gLinks w1)[k := Some (l1\<lparr>state := PHYS_STATE_UP,
                                                     info := (info l1)\<lparr>connectTimer := False\<rparr>\<rparr>)],
                  trace := trace w1 @ [Log LG_PHYS ''PPPoE: connection successful'', PhysUp k]\<rparr>
          else w1\<lparr>gLinks := (gLinks w1)[k := Some (l1\<lparr>state := PHYS_STATE_READY\<rparr>)],
                  trace := trace w1 @ [Log LG_PHYS ''PPPoE: connection successful'']\<rparr>)"
    using pid k31 a o id ty msg(1,2) hk by (intro ctrl_success_routed) simp_all
  with o show "PppoeCtrlReadEvent q (Some msg) w1 =
              Inr (w1\<lparr>gLinks := (gLinks w1)[k := Some (l1\<lparr>state := PHYS_STATE_UP,
                                                          info := (info l1)\<lparr>connectTimer := False\<rparr>\<rparr>)],
                      trace := trace w1 @ [Log LG_PHYS ''PPPoE: connection successful'', PhysUp k]\<rparr>)"
    by simp
  from o show "ups k (trace w1 @ [Log LG_PHYS ''PPPoE: connection successful'', PhysUp k]) = ups k (trace w) + 1"
    by (simp add: ups_def)
  from o show "real_session (info l1) = strlcpy (session (info l)) MAX_SESSION" by simp
qed

theorem success_handled_each_time_witness:
  "state link_cfg = PHYS_STATE_DOWN \<and> PppoeOpen 0 env_ok world_cfg = Inr world_opened \<and>
   get_link world_opened 0 = Some link_opened \<and> state link_opened = PHYS_STATE_CONNECTING \<and>
   PppoeCtrlReadEvent 1 (Some (msg_success ''mpd100-0'')) world_opened =
     Inr (world_opened\<lparr>gLinks := (gLinks world_opened)[0 := Some (link_opened\<lparr>state := PHYS_STATE_UP,
                                         info := (info link_opened)\<lparr>connectTimer := False\<rparr>\<rparr>)],
            trace := trace world_opened @ [Log LG_PHYS ''PPPoE: connection successful'', PhysUp 0]\<rparr>) \<and>
   ups 0 (trace world_opened @ [Log LG_PHYS ''PPPoE: connection successful'', PhysUp 0]) = ups 0 (trace world_cfg) + 1 \<and>
   real_session (info link_opened) = ''isp''"
proof -
  have pid: "0 \<le> gPid world_cfg" "gPid world_cfg < 2 ^ 31"
    by (simp_all add: world_cfg_def)
  have lk: "get_link world_cfg 0 = Some link_cfg"
    by (simp add: get_link_def world_cfg_def)
  have l: "link_id link_cfg = int 0" "ltype link_cfg = gPppoePhysType"
    "state link_cfg = PHYS_STATE_DOWN" "incoming (info link_cfg) \<noteq> 1"
    by (simp_all add: link_cfg_def info_cfg_def)
  have m: "cookie_is_pppoe (msg_success ''mpd100-0'')" "cmd (msg_success ''mpd100-0'') = NGM_PPPOE_SUCCESS"
    by (simp_all add: msg_success_def)
  have h: "sts_hook (msg_success ''mpd100-0'') = session_hook_of world_cfg link_cfg"
    by code_simp
  have op: "PppoeOpen 0 env_ok world_cfg = Inr world_opened"
    by code_simp
  have l1: "get_link world_opened 0 = Some link_opened"
    by (simp add: get_link_def world_opened_def world_cfg_def)
  have s1: "state link_opened = PHYS_STATE_CONNECTING" "PIf (info link_opened) = Some 1"
    by (simp_all add: link_opened_def link_cfg_def info_cfg_def)
  have rs: "strlcpy (session (info link_cfg)) MAX_SESSION = ''isp''"
    by (simp add: strlcpy_def link_cfg_def info_cfg_def MAX_SESSION_def)
  from success_handled_each_time [OF pid _ lk l(1) l(2) m h,
      of 0 env_ok world_opened link_opened 1]
    l op l1 s1 rs
  show ?thesis by simp
qed

section \<open>The max-payload setting\<close>

lemma atoi_1492: "atoi ''1492'' = 1492" by code_simp
lemma atoi_1491: "atoi ''1491'' = 1491" by code_simp

text \<open>
  \<open>set max-payload v\<close> in terms of the number that \<^verbatim>\<open>atoi\<close> reads from \<open>v\<close>: when it
  is below PPPOE_MRU or above ETHER_MAX_LEN - 8 the command ends with an error for the
  console and the process state is unchanged; otherwise the number is stored in
  \<open>max_payload\<close> (it fits the 16-bit field). 1492 is accepted and stored, 1491 is
  rejected.
\<close>

theorem set_max_payload_range:
  assumes "get_link w k = Some l"
  shows "(atoi v < PPPOE_MRU \<or> atoi v > ETHER_MAX_LEN - 8 \<longrightarrow>
            PppoeSetCommand k [v] SET_MAX_PAYLOAD cenv lenv w = Inr (CmdError (''PPP-Max-Payload value '' @ [CHR 0x22] @ v @ [CHR 0x22]), w)) \<and>
         (PPPOE_MRU \<le> atoi v \<and> atoi v \<le> ETHER_MAX_LEN - 8 \<longrightarrow>
            PppoeSetCommand k [v] SET_MAX_PAYLOAD cenv lenv w =
              Inr (CmdOk, w\<lparr>gLinks := (gLinks w)[k := Some (l\<lparr>info := (info l)\<lparr>max_payload := word_of_int (atoi v)\<rparr>\<rparr>)]\<rparr>) \<and>
            uint (word_of_int (atoi v) :: 16 word) = atoi v) \<and>
         PppoeSetCommand k [''1492''] SET_MAX_PAYLOAD cenv lenv w =
              Inr (CmdOk, w\<lparr>gLinks := (gLinks w)[k := Some (l\<lparr>info := (info l)\<lparr>max_payload := 1492\<rparr>\<rparr>)]\<rparr>) \<and>
         PppoeSetCommand k [''1491''] SET_MAX_PAYLOAD cenv lenv w = Inr (CmdError (''PPP-Max-Payload value '' @ [CHR 0x22] @ ''1491'' @ [CHR 0x22]), w)"
proof (intro conjI impI)
  assume "atoi v < PPPOE_MRU \<or> atoi v > ETHER_MAX_LEN - 8"
  then show "PppoeSetCommand k [v] SET_MAX_PAYLOAD cenv lenv w = Inr (CmdError (''PPP-Max-Payload value '' @ [CHR 0x22] @ v @ [CHR 0x22]), w)"
    using assms by (simp add: PppoeSetCommand_def Let_def)
next
  assume r: "PPPOE_MRU \<le> atoi v \<and> atoi v \<le> ETHER_MAX_LEN - 8"
  then show "PppoeSetCommand k [v] SET_MAX_PAYLOAD cenv lenv w =
              Inr (CmdOk, w\<lparr>gLinks := (gLinks w)[k := Some (l\<lparr>info := (info l)\<lparr>max_payload := word_of_int (atoi v)\<rparr>\<rparr>)]\<rparr>)"
    using assms by (auto simp: PppoeSetCommand_def Let_def set_info_def put_link_def)
  from r have "0 \<le> atoi v" "atoi v < 2 ^ 16"
    by (simp_all add: PPPOE_MRU_def ETHER_MAX_LEN_def)
  then show "uint (word_of_int (atoi v) :: 16 word) = atoi v"
    by (simp add: uint_word_of_int take_bit_int_eq_self)
next
  show "PppoeSetCommand k [''1492''] SET_MAX_PAYLOAD cenv lenv w =
              Inr (CmdOk, w\<lparr>gLinks := (gLinks w)[k := Some (l\<lparr>info := (info l)\<lparr>max_payload := 1492\<rparr>\<rparr>)]\<rparr>)"
    using assms
    by (simp add: PppoeSetCommand_def Let_def set_info_def put_link_def atoi_1492 PPPOE_MRU_def ETHER_MAX_LEN_def)
  show "PppoeSetCommand k [''1491''] SET_MAX_PAYLOAD cenv lenv w = Inr (CmdError (''PPP-Max-Payload value '' @ [CHR 0x22] @ ''1491'' @ [CHR 0x22]), w)"
    using assms
    by (simp add: PppoeSetCommand_def Let_def atoi_1491 PPPOE_MRU_def ETHER_MAX_LEN_def)
qed

theorem set_max_payload_range_witness:
  "get_link world_cfg 0 = Some link_cfg \<and> atoi ''1500'' = 1500 \<and>
   PppoeSetCommand 0 [''1500''] SET_MAX_PAYLOAD (node_env env_ok) \<lparr>lconnect_ok = True, listen_ok = True\<rparr> world_cfg =
     Inr (CmdOk, world_cfg\<lparr>gLinks := [Some (link_cfg\<lparr>info := info_cfg\<lparr>max_payload := 1500\<rparr>\<rparr>)]\<rparr>) \<and>
   PppoeSetCommand 0 [''1511''] SET_MAX_PAYLOAD (node_env env_ok) \<lparr>lconnect_ok = True, listen_ok = True\<rparr> world_cfg =
     Inr (CmdError (''PPP-Max-Payload value '' @ [CHR 0x22] @ ''1511'' @ [CHR 0x22]), world_cfg)"
proof -
  have lk: "get_link world_cfg 0 = Some link_cfg"
    by (simp add: get_link_def world_cfg_def)
  have a: "atoi ''1500'' = 1500" "atoi ''1511'' = 1511" by code_simp+
  have g: "gLinks world_cfg = [Some link_cfg]" "info link_cfg = info_cfg"
    by (simp_all add: world_cfg_def link_cfg_def)
  from set_max_payload_range [OF lk, of "''1500''" "node_env env_ok" "\<lparr>lconnect_ok = True, listen_ok = True\<rparr>"]
    set_max_payload_range [OF lk, of "''1511''" "node_env env_ok" "\<lparr>lconnect_ok = True, listen_ok = True\<rparr>"]
    lk a g
  show ?thesis by (simp add: PPPOE_MRU_def ETHER_MAX_LEN_def)
qed

lemma strtol_fmt_d: "LONG_MIN \<le> n \<Longrightarrow> n \<le> LONG_MAX \<Longrightarrow> strtol (fmt_d n) = (n, [])"
proof (cases "n < 0")
  case False
  assume "n \<le> LONG_MAX"
  with False strtol_dec [of "nat n"] show ?thesis by (simp add: fmt_d_def)
next
  case True
  assume lo: "LONG_MIN \<le> n"
  define s where "s = dec_digits (nat (- n))"
  have ne: "s \<noteq> []" by (simp add: s_def dec_digits_nonempty)
  have all: "\<forall>x\<in>set s. isdigit_c x"
    using dec_digits_all_digits [of _ "nat (- n)"] by (auto simp: s_def)
  have tw: "takeWhile isdigit_c s = s" and dw: "dropWhile isdigit_c s = []"
    using all by simp_all
  have val: "digits_val 0 s = - n" using True by (simp add: s_def digits_val_dec)
  have sp: "\<not> isspace_c CHR ''-''" by (simp add: isspace_c_def)
  have "strtol (CHR ''-'' # s) = (n, [])"
    using ne lo True by (simp add: strtol_def Let_def sp tw dw val LONG_MAX_def)
  with True show ?thesis by (simp add: fmt_d_def s_def)
qed

lemma long_to_int_id: "- (2 ^ 31) \<le> v \<Longrightarrow> v < 2 ^ 31 \<Longrightarrow> long_to_int v = v"
  by (simp add: long_to_int_def sint_sbintrunc' signed_take_bit_int_eq_self)

lemma atoi_fmt_d: "- (2 ^ 31) \<le> n \<Longrightarrow> n < 2 ^ 31 \<Longrightarrow> atoi (fmt_d n) = n"
proof -
  assume a: "- (2 ^ 31) \<le> n" "n < 2 ^ 31"
  then have "LONG_MIN \<le> n" "n \<le> LONG_MAX" by (simp_all add: LONG_MIN_def LONG_MAX_def)
  then have "strtol (fmt_d n) = (n, [])" by (rule strtol_fmt_d)
  with a show ?thesis by (simp add: atoi_def long_to_int_id)
qed

text \<open>
  For every value that fits an \<^verbatim>\<open>int\<close>, written in decimal: outside the range it is
  rejected with the error for the console and no change of state, inside it is stored.
\<close>

theorem set_max_payload_decimal:
  assumes "get_link w k = Some l" and "- (2 ^ 31) \<le> n" and "n < 2 ^ 31"
  shows "(n < PPPOE_MRU \<or> n > ETHER_MAX_LEN - 8 \<longrightarrow>
            PppoeSetCommand k [fmt_d n] SET_MAX_PAYLOAD cenv lenv w =
              Inr (CmdError (''PPP-Max-Payload value '' @ [CHR 0x22] @ fmt_d n @ [CHR 0x22]), w)) \<and>
         (PPPOE_MRU \<le> n \<and> n \<le> ETHER_MAX_LEN - 8 \<longrightarrow>
            PppoeSetCommand k [fmt_d n] SET_MAX_PAYLOAD cenv lenv w =
              Inr (CmdOk, w\<lparr>gLinks := (gLinks w)[k := Some (l\<lparr>info := (info l)\<lparr>max_payload := word_of_int n\<rparr>\<rparr>)]\<rparr>) \<and>
            uint (word_of_int n :: 16 word) = n)"
  using set_max_payload_range [OF assms(1), of "fmt_d n" cenv lenv] atoi_fmt_d [OF assms(2,3)]
  by simp

theorem set_max_payload_decimal_witness:
  "get_link world_cfg 0 = Some link_cfg \<and> fmt_d 1491 = ''1491'' \<and> fmt_d 1492 = ''1492'' \<and>
   PppoeSetCommand 0 [''1491''] SET_MAX_PAYLOAD (node_env env_ok) env_listen world_cfg =
     Inr (CmdError (''PPP-Max-Payload value '' @ [CHR 0x22] @ ''1491'' @ [CHR 0x22]), world_cfg) \<and>
   PppoeSetCommand 0 [''1492''] SET_MAX_PAYLOAD (node_env env_ok) env_listen world_cfg =
     Inr (CmdOk, world_cfg\<lparr>gLinks := [Some (link_cfg\<lparr>info := info_cfg\<lparr>max_payload := 1492\<rparr>\<rparr>)]\<rparr>)"
proof -
  have lk: "get_link world_cfg 0 = Some link_cfg"
    by (simp add: get_link_def world_cfg_def)
  have f: "fmt_d 1491 = ''1491''" "fmt_d 1492 = ''1492''" by code_simp+
  have g: "gLinks world_cfg = [Some link_cfg]" "info link_cfg = info_cfg"
    by (simp_all add: world_cfg_def link_cfg_def)
  from set_max_payload_decimal [OF lk, of 1491 "node_env env_ok" env_listen]
    set_max_payload_decimal [OF lk, of 1492 "node_env env_ok" env_listen] lk f g
  show ?thesis by (simp add: PPPOE_MRU_def ETHER_MAX_LEN_def)
qed

text \<open>
  C9 fails for a value that does not fit an \<^verbatim>\<open>int\<close>. The command checks the range on
  the result of \<^verbatim>\<open>atoi\<close>, which keeps the low 32 bits of the number read:
  4294968788 = 2^32 + 1492 is far above ETHER_MAX_LEN - 8 = 1510, yet
  \<open>set max-payload 4294968788\<close> is accepted and 1492 is stored in \<open>max_payload\<close>.
\<close>

theorem set_max_payload_wraps:
  "\<not> (PPPOE_MRU \<le> 4294968788 \<and> 4294968788 \<le> ETHER_MAX_LEN - 8) \<and>
   fst (strtol ''4294968788'') = 4294968788 \<and> atoi ''4294968788'' = 1492 \<and>
   get_link world_cfg 0 = Some link_cfg \<and> max_payload (info link_cfg) = 0 \<and>
   PppoeSetCommand 0 [''4294968788''] SET_MAX_PAYLOAD (node_env env_ok) env_listen world_cfg =
     Inr (CmdOk, world_cfg\<lparr>gLinks := [Some (link_cfg\<lparr>info := info_cfg\<lparr>max_payload := 1492\<rparr>\<rparr>)]\<rparr>)"
  by code_simp

section \<open>Sessions in state DOWN\<close>

lemma list_all_update: "list_all P xs \<Longrightarrow> P y \<Longrightarrow> list_all P (xs[k := y])"
  by (induction xs arbitrary: k) (auto split: nat.splits)

lemma links_ok_emit [simp]: "links_ok (emit e w) = links_ok w"
  by (simp add: links_ok_def emit_def)

lemma links_ok_put_if [simp]: "links_ok (put_if i e w) = links_ok w"
  by (simp add: links_ok_def put_if_def)

lemma links_ok_lheap [simp]: "links_ok (w\<lparr>lheap := h\<rparr>) = links_ok w"
  by (simp add: links_ok_def)

lemma links_ok_loaded [simp]: "links_ok (w\<lparr>gNgEtherLoaded := b\<rparr>) = links_ok w"
  by (simp add: links_ok_def)

lemma links_ok_put_link: "links_ok w \<Longrightarrow> down_ok (Some l) \<Longrightarrow> links_ok (put_link k l w)"
  by (simp add: links_ok_def put_link_def list_all_update)

lemma links_ok_store_link: "links_ok w \<Longrightarrow> down_ok (Some l) \<Longrightarrow> links_ok (store_link k l w)"
  by (simp add: links_ok_def store_link_def list_all_update)

lemma links_ok_remove: "links_ok w \<Longrightarrow> links_ok (w\<lparr>gLinks := (gLinks w)[k := None]\<rparr>)"
  by (simp add: links_ok_def list_all_update down_ok_def)

lemma links_ok_get: "links_ok w \<Longrightarrow> get_link w k = Some l \<Longrightarrow> down_ok (Some l)"
  by (auto simp: links_ok_def get_link_def list_all_length split: if_splits)

lemma links_ok_cong: "gLinks w1 = gLinks w \<Longrightarrow> links_ok w1 = links_ok w"
  by (simp add: links_ok_def)

text \<open>Changes of a link that keep \<open>down_ok\<close>.\<close>

lemma down_ok_nondown: "state l \<noteq> PHYS_STATE_DOWN \<Longrightarrow> down_ok (Some l)"
  by (simp add: down_ok_def)

lemma down_ok_same_session:
  "down_ok (Some l) \<Longrightarrow> ltype l' = ltype l \<Longrightarrow> state l' = state l \<Longrightarrow>
   connectTimer (info l') = connectTimer (info l) \<Longrightarrow> peeraddr (info l') = peeraddr (info l) \<Longrightarrow>
   agent_cid (info l') = agent_cid (info l) \<Longrightarrow> agent_rid (info l') = agent_rid (info l) \<Longrightarrow>
   mp_reply (info l') = mp_reply (info l) \<Longrightarrow> real_session (info l') = real_session (info l) \<Longrightarrow>
   down_ok (Some l')"
  by (simp add: down_ok_def clean_def)

lemma DoClose_ok: "PppoeDoClose k w = Inr w' \<Longrightarrow> links_ok w \<Longrightarrow> links_ok w'"
  by (auto simp: PppoeDoClose_def down_ok_def clean_def split: option.splits if_splits
      intro!: links_ok_put_link)

lemma Close_ok: "PppoeClose k w = Inr w' \<Longrightarrow> links_ok w \<Longrightarrow> links_ok w'"
proof -
  assume run: "PppoeClose k w = Inr w'" and ok: "links_ok w"
  from run obtain l where lk: "get_link w k = Some l"
    by (auto simp: PppoeClose_def split: option.splits)
  define w1 where "w1 = put_link k (l\<lparr>info := (info l)\<lparr>opened := 0\<rparr>\<rparr>) w"
  have "down_ok (Some (l\<lparr>info := (info l)\<lparr>opened := 0\<rparr>\<rparr>))"
    using links_ok_get [OF ok lk] by (rule down_ok_same_session) simp_all
  then have ok1: "links_ok w1" using ok by (simp add: w1_def links_ok_put_link)
  from run lk show ?thesis
    using ok1 DoClose_ok [of k w1]
    by (auto simp: PppoeClose_def Let_def w1_def [symmetric] split: if_splits sum.splits)
qed

lemma Timeout_ok: "PppoeConnectTimeout k w = Inr w' \<Longrightarrow> links_ok w \<Longrightarrow> links_ok w'"
  using DoClose_ok [of k "emit (Log LG_PHYS ''PPPoE connection timeout'') w"]
  by (auto simp: PppoeConnectTimeout_def split: sum.splits)

lemma route_link_routed:
  "route_link p msg w i = Routed k \<Longrightarrow> \<exists>l. get_link w k = Some l \<and> state l \<noteq> PHYS_STATE_DOWN"
  by (auto simp: route_link_def unexisting_def get_link_def split: if_splits option.splits)

lemma ctrl_route_routed:
  "ctrl_route p msg w = Routed k \<Longrightarrow> \<exists>l. get_link w k = Some l \<and> state l \<noteq> PHYS_STATE_DOWN"
  unfolding ctrl_route_def Let_def
  by (auto simp: unexisting_def split: if_splits dest: route_link_routed)

lemma ctrl_decode_ok:
  assumes run: "ctrl_decode lk msg w = Inr w'" and ok: "links_ok w"
    and nd: "\<And>k. lk = Some k \<Longrightarrow> \<exists>l. get_link w k = Some l \<and> state l \<noteq> PHYS_STATE_DOWN"
  shows "links_ok w'"
proof (cases "needs_link (cmd msg)")
  case False
  with run ok show ?thesis
    by (cases "cmd msg") (auto simp: ctrl_decode_def needs_link_def)
next
  case True
  with run obtain k where k: "lk = Some k"
    by (cases lk; cases "cmd msg") (auto simp: ctrl_decode_def needs_link_def)
  from nd [OF k] obtain l where l: "get_link w k = Some l" "state l \<noteq> PHYS_STATE_DOWN" by auto
  have d: "\<And>e. PppoeDoClose k (emit e w) = Inr w' \<Longrightarrow> links_ok w'"
    using DoClose_ok ok by (metis links_ok_emit)
  from True run k l ok show ?thesis
    apply (cases "cmd msg")
            apply (auto simp: ctrl_decode_def needs_link_def Let_def split: if_splits sum.splits
        intro!: links_ok_put_link down_ok_nondown dest: DoClose_ok)
    done
qed

lemma Ctrl_ok: "PppoeCtrlReadEvent p rcv w = Inr w' \<Longrightarrow> links_ok w \<Longrightarrow> links_ok w'"
proof -
  assume run: "PppoeCtrlReadEvent p rcv w = Inr w'" and ok: "links_ok w"
  show ?thesis
  proof (cases rcv)
    case None
    with run ok show ?thesis by (auto simp: PppoeCtrlReadEvent_def)
  next
    case (Some msg)
    show ?thesis
    proof (cases "cookie_is_pppoe msg \<and> needs_link (cmd msg)")
      case False
      with run ok Some show ?thesis
        by (auto simp: PppoeCtrlReadEvent_def split: if_splits intro: ctrl_decode_ok)
    next
      case True
      from ctrl_route_shape [of p msg w]
      consider k where "ctrl_route p msg w = Routed k" | "ctrl_route p msg w = Crashed OutOfBounds"
        | "ctrl_route p msg w = Dropped w" | lv t where "ctrl_route p msg w = Dropped (emit (Log lv t) w)"
        by blast
      then show ?thesis
      proof cases
        case 1
        with run Some True have d: "ctrl_decode (Some k) msg w = Inr w'"
          by (simp add: PppoeCtrlReadEvent_def)
        show ?thesis
          by (rule ctrl_decode_ok [OF d ok]) (use ctrl_route_routed [OF 1] in auto)
      qed (use run Some True ok in \<open>auto simp: PppoeCtrlReadEvent_def\<close>)
    qed
  qed
qed

lemma ptr_stepI:
  "get_link w k = Some l \<Longrightarrow> gLinks w1 = (gLinks w)[k := Some l1] \<Longrightarrow> no_ptrs l1 = no_ptrs l \<Longrightarrow>
   ptr_step k w w1"
  unfolding ptr_step_def by blast

lemma ptr_step_same: "get_link w k = Some l \<Longrightarrow> gLinks w1 = gLinks w \<Longrightarrow> ptr_step k w w1"
proof -
  assume a: "get_link w k = Some l" "gLinks w1 = gLinks w"
  then have "k < length (gLinks w)" "gLinks w ! k = Some l"
    by (auto simp: get_link_def split: if_splits)
  then have "(gLinks w)[k := Some l] = gLinks w" by (metis list_update_id)
  with a have g: "gLinks w1 = (gLinks w)[k := Some l]" by simp
  show ?thesis by (rule ptr_stepI [OF a(1) g]) simp
qed

lemma ptr_step_link:
  "ptr_step k w w1 \<Longrightarrow> get_link w k = Some l \<Longrightarrow> \<exists>l1. get_link w1 k = Some l1 \<and> no_ptrs l1 = no_ptrs l"
  by (auto simp: ptr_step_def get_link_def split: if_splits)

lemma ptr_step_trans: "ptr_step k w w1 \<Longrightarrow> ptr_step k w1 w2 \<Longrightarrow> ptr_step k w w2"
proof -
  assume a: "ptr_step k w w1" and b: "ptr_step k w1 w2"
  from a obtain l l1 where l: "get_link w k = Some l"
    and g1: "gLinks w1 = (gLinks w)[k := Some l1]" and e1: "no_ptrs l1 = no_ptrs l"
    by (auto simp: ptr_step_def)
  have kl: "k < length (gLinks w)" using l by (rule get_link_length)
  from b obtain l1' l2 where l1: "get_link w1 k = Some l1'"
    and g2: "gLinks w2 = (gLinks w1)[k := Some l2]" and e2: "no_ptrs l2 = no_ptrs l1'"
    by (auto simp: ptr_step_def)
  from l1 g1 kl have "l1' = l1" by (simp add: get_link_def)
  with g1 g2 e1 e2 have "gLinks w2 = (gLinks w)[k := Some l2]" "no_ptrs l2 = no_ptrs l"
    by simp_all
  with l show ?thesis by (rule ptr_stepI)
qed

lemma ptr_step_other: "ptr_step k w w1 \<Longrightarrow> j \<noteq> k \<Longrightarrow> get_link w1 j = get_link w j"
  by (auto simp: ptr_step_def get_link_def)

lemma no_ptrs_fields:
  assumes "no_ptrs l1 = no_ptrs l"
  shows "ltype l1 = ltype l" "state l1 = state l" "link_id l1 = link_id l" "tmpl l1 = tmpl l"
    "stay l1 = stay l" "opt_enable l1 = opt_enable l" "lname l1 = lname l"
    "connectTimer (info l1) = connectTimer (info l)" "peeraddr (info l1) = peeraddr (info l)"
    "agent_cid (info l1) = agent_cid (info l)" "agent_rid (info l1) = agent_rid (info l)"
    "mp_reply (info l1) = mp_reply (info l)" "real_session (info l1) = real_session (info l)"
    "path (info l1) = path (info l)" "session (info l1) = session (info l)"
    "incoming (info l1) = incoming (info l)" "opened (info l1) = opened (info l)"
proof -
  have i: "info (no_ptrs l1) = info (no_ptrs l)" using assms by simp
  show "ltype l1 = ltype l" using arg_cong [OF assms, of ltype] by (simp add: no_ptrs_def)
  show "state l1 = state l" using arg_cong [OF assms, of state] by (simp add: no_ptrs_def)
  show "link_id l1 = link_id l" using arg_cong [OF assms, of link_id] by (simp add: no_ptrs_def)
  show "tmpl l1 = tmpl l" using arg_cong [OF assms, of tmpl] by (simp add: no_ptrs_def)
  show "stay l1 = stay l" using arg_cong [OF assms, of stay] by (simp add: no_ptrs_def)
  show "opt_enable l1 = opt_enable l" using arg_cong [OF assms, of opt_enable] by (simp add: no_ptrs_def)
  show "lname l1 = lname l" using arg_cong [OF assms, of lname] by (simp add: no_ptrs_def)
  show "connectTimer (info l1) = connectTimer (info l)" using arg_cong [OF i, of connectTimer] by (simp add: no_ptrs_def)
  show "peeraddr (info l1) = peeraddr (info l)" using arg_cong [OF i, of peeraddr] by (simp add: no_ptrs_def)
  show "agent_cid (info l1) = agent_cid (info l)" using arg_cong [OF i, of agent_cid] by (simp add: no_ptrs_def)
  show "agent_rid (info l1) = agent_rid (info l)" using arg_cong [OF i, of agent_rid] by (simp add: no_ptrs_def)
  show "mp_reply (info l1) = mp_reply (info l)" using arg_cong [OF i, of mp_reply] by (simp add: no_ptrs_def)
  show "real_session (info l1) = real_session (info l)" using arg_cong [OF i, of real_session] by (simp add: no_ptrs_def)
  show "path (info l1) = path (info l)" using arg_cong [OF i, of path] by (simp add: no_ptrs_def)
  show "session (info l1) = session (info l)" using arg_cong [OF i, of session] by (simp add: no_ptrs_def)
  show "incoming (info l1) = incoming (info l)" using arg_cong [OF i, of incoming] by (simp add: no_ptrs_def)
  show "opened (info l1) = opened (info l)" using arg_cong [OF i, of opened] by (simp add: no_ptrs_def)
qed

lemma ptr_step_ok: "ptr_step k w w1 \<Longrightarrow> links_ok w \<Longrightarrow> links_ok w1"
proof -
  assume a: "ptr_step k w w1" and ok: "links_ok w"
  from a obtain l l1 where l: "get_link w k = Some l"
    and g1: "gLinks w1 = (gLinks w)[k := Some l1]" and e1: "no_ptrs l1 = no_ptrs l"
    by (auto simp: ptr_step_def)
  have "down_ok (Some l1)"
    using links_ok_get [OF ok l] by (rule down_ok_same_session) (simp_all add: no_ptrs_fields [OF e1])
  with ok g1 show ?thesis by (simp add: links_ok_def list_all_update)
qed

lemma PppoeGetNode_ptr:
  assumes run: "PppoeGetNode k env w = Inr w1" and lk: "get_link w k = Some l"
  shows "ptr_step k w w1"
proof -
  have kl: "k < length (gLinks w)" using lk by (rule get_link_length)
  show ?thesis
  proof (cases "PIf (info l) \<noteq> None \<or> path (info l) = ''undefined:''")
    case True
    with run lk have "w1 = w \<or> w1 = emit (Log LG_ERR ''PPPoE: Skipping link with undefined interface'') w"
      by (auto simp: PppoeGetNode_def split: if_splits)
    then have "gLinks w1 = gLinks w" by (auto simp: frame_emit)
    with lk show ?thesis by (rule ptr_step_same)
  next
    case False
    obtain jo fo where sc: "scan_ifs (PppoeIfs w) (path (info l)) 0 None = (jo, fo)"
      by (cases "scan_ifs (PppoeIfs w) (path (info l)) 0 None") auto
    show ?thesis
    proof (cases jo)
      case (Some jj)
      with run lk False sc
      have "w1 = put_link k (l\<lparr>info := (info l)\<lparr>PIf := Some jj\<rparr>\<rparr>)
                   (put_if jj ((PppoeIfs w ! jj)\<lparr>refs := refs (PppoeIfs w ! jj) + 1\<rparr>) w)"
        by (simp add: PppoeGetNode_def)
      then have "gLinks w1 = (gLinks w)[k := Some (l\<lparr>info := (info l)\<lparr>PIf := Some jj\<rparr>\<rparr>)]"
        by (simp add: put_link_def put_if_def)
      with lk show ?thesis by (rule ptr_stepI) (simp add: no_ptrs_def)
    next
      case None
      show ?thesis
      proof (cases fo)
        case None
        with run lk False sc \<open>jo = None\<close>
        have "w1 = emit (Log LG_ERR ''PPPoE: Too many different parent interfaces!'') w"
          by (simp add: PppoeGetNode_def)
        then have "gLinks w1 = gLinks w" by (auto simp: frame_emit)
        with lk show ?thesis by (rule ptr_step_same)
      next
        case (Some fr)
        with run lk False sc \<open>jo = None\<close>
        obtain ok w' where cr: "CreatePppoeNode fr (iface (info l)) (path (info l)) (hook (info l)) env w = Inr (ok, w')"
          and w1: "w1 = (if ok then put_link k (l\<lparr>info := (info l)\<lparr>PIf := Some fr\<rparr>\<rparr>)
                             (put_if fr ((PppoeIfs w' ! fr)\<lparr>ifnodepath := strlcpy (path (info l)) MAX_PATH, refs := 1\<rparr>) w')
                         else emit (Log LG_ERR ''PPPoE: Error creating ng_pppoe node'') w')"
          by (auto simp: PppoeGetNode_def split: sum.splits prod.splits if_splits)
        from CreatePppoeNode_quiet [OF cr, of 0] have q: "gLinks w' = gLinks w" by auto
        show ?thesis
        proof (cases ok)
          case True
          with w1 q have "gLinks w1 = (gLinks w)[k := Some (l\<lparr>info := (info l)\<lparr>PIf := Some fr\<rparr>\<rparr>)]"
            by (simp add: put_link_def put_if_def)
          with lk show ?thesis by (rule ptr_stepI) (simp add: no_ptrs_def)
        next
          case False
          with w1 q have "gLinks w1 = gLinks w" by (simp add: frame_emit)
          with lk show ?thesis by (rule ptr_step_same)
        qed
      qed
    qed
  qed
qed

lemma PppoeReleaseNode_links:
  "get_link w k = Some l \<Longrightarrow>
   (case PppoeReleaseNode k w of
      Inl f \<Rightarrow> True
    | Inr w1 \<Rightarrow> gLinks w1 = gLinks w \<or>
        gLinks w1 = (gLinks w)[k := Some (l\<lparr>info := (info l)\<lparr>PIf := None\<rparr>\<rparr>)])"
  by (auto simp: PppoeReleaseNode_def Let_def put_link_def put_if_def emit_def
      split: option.splits)

lemma PppoeReleaseNode_ptr:
  assumes run: "PppoeReleaseNode k w = Inr w1" and lk: "get_link w k = Some l"
  shows "ptr_step k w w1"
proof -
  from PppoeReleaseNode_links [OF lk] run
  consider "gLinks w1 = gLinks w"
    | "gLinks w1 = (gLinks w)[k := Some (l\<lparr>info := (info l)\<lparr>PIf := None\<rparr>\<rparr>)]"
    by auto
  then show ?thesis
  proof cases
    case 1
    with lk show ?thesis by (rule ptr_step_same)
  next
    case 2
    with lk show ?thesis by (rule ptr_stepI) (simp add: no_ptrs_def)
  qed
qed

lemma PppoeListen_links:
  "get_link w k = Some l \<Longrightarrow>
   (case PppoeListen k env w of
      Inl f \<Rightarrow> True
    | Inr w1 \<Rightarrow> gLinks w1 = gLinks w \<or>
        (\<exists>a. gLinks w1 = (gLinks w)[k := Some (l\<lparr>info := (info l)\<lparr>plist := Some a\<rparr>\<rparr>)]))"
  by (auto simp: PppoeListen_def Let_def put_link_def put_if_def emit_def
      split: option.splits sum.splits)

lemma PppoeListen_ptr:
  assumes run: "PppoeListen k env w = Inr w1" and lk: "get_link w k = Some l"
  shows "ptr_step k w w1"
proof -
  from PppoeListen_links [OF lk, of env] run
  consider "gLinks w1 = gLinks w"
    | a where "gLinks w1 = (gLinks w)[k := Some (l\<lparr>info := (info l)\<lparr>plist := Some a\<rparr>\<rparr>)]"
    by auto
  then show ?thesis
  proof cases
    case 1
    with lk show ?thesis by (rule ptr_step_same)
  next
    case 2
    with lk show ?thesis by (rule ptr_stepI) (simp add: no_ptrs_def)
  qed
qed

lemma PppoeUnListen_links:
  "get_link w k = Some l \<Longrightarrow>
   (case PppoeUnListen k w of
      Inl f \<Rightarrow> True
    | Inr w1 \<Rightarrow> gLinks w1 = gLinks w \<or>
        gLinks w1 = (gLinks w)[k := Some (l\<lparr>info := (info l)\<lparr>plist := None\<rparr>\<rparr>)])"
  by (auto simp: PppoeUnListen_def Let_def put_link_def put_if_def emit_def
      split: option.splits)

lemma PppoeUnListen_ptr:
  assumes run: "PppoeUnListen k w = Inr w1" and lk: "get_link w k = Some l"
  shows "ptr_step k w w1"
proof -
  from PppoeUnListen_links [OF lk] run
  consider "gLinks w1 = gLinks w"
    | "gLinks w1 = (gLinks w)[k := Some (l\<lparr>info := (info l)\<lparr>plist := None\<rparr>\<rparr>)]"
    by auto
  then show ?thesis
  proof cases
    case 1
    with lk show ?thesis by (rule ptr_step_same)
  next
    case 2
    with lk show ?thesis by (rule ptr_stepI) (simp add: no_ptrs_def)
  qed
qed

lemma sum_case_True: "(case x of Inl f \<Rightarrow> True | Inr w1 \<Rightarrow> P w1) \<Longrightarrow> x = Inr w' \<Longrightarrow> P w'"
  by simp

lemma open_incoming_ok':
  "links_ok w \<Longrightarrow> (case open_incoming k l env w of Inl f \<Rightarrow> True | Inr w1 \<Rightarrow> links_ok w1)"
  by (simp add: open_incoming_def Let_def open_fail2_def open_fail_def links_ok_put_link down_ok_nondown
      split: option.splits prod.splits)

lemma open_connect_ok':
  "links_ok w \<Longrightarrow> (case open_connect k env w of Inl f \<Rightarrow> True | Inr w1 \<Rightarrow> links_ok w1)"
  by (simp add: open_connect_def Let_def open_fail2_def open_fail_def links_ok_put_link down_ok_nondown
      split: option.splits prod.splits)

lemma Open_ok: "PppoeOpen k env w = Inr w' \<Longrightarrow> links_ok w \<Longrightarrow> links_ok w'"
proof -
  assume run: "PppoeOpen k env w = Inr w'" and ok: "links_ok w"
  from run obtain l where lk: "get_link w k = Some l"
    by (auto simp: PppoeOpen_def split: option.splits)
  define l0 where "l0 = Deny LINK_CONF_ACFCOMP (Disable LINK_CONF_ACFCOMP (l\<lparr>info := (info l)\<lparr>opened := 1\<rparr>\<rparr>))"
  define w0 where "w0 = put_link k l0 w"
  have kl: "k < length (gLinks w)" using lk by (rule get_link_length)
  have l0: "get_link w0 k = Some l0" by (simp add: w0_def get_link_put_link kl)
  have "down_ok (Some l0)"
    using links_ok_get [OF ok lk] by (rule down_ok_same_session) (simp_all add: l0_def Deny_def Disable_def)
  then have ok0: "links_ok w0" using ok by (simp add: w0_def links_ok_put_link)
  have cases: "open_incoming k l0 env w0 = Inr w' \<or>
      w' = emit (Log LG_PHYS ''PPPoE allready active'') w0 \<or> open_outgoing k env w0 = Inr w'"
  proof (cases "incoming (info l0) = 1")
    case True
    with run lk show ?thesis
      by (simp add: PppoeOpen_def Let_def l0_def [symmetric] w0_def)
  next
    case out: False
    show ?thesis
    proof (cases "state l0 = PHYS_STATE_DOWN")
      case True
      with out run lk show ?thesis
        by (simp add: PppoeOpen_def Let_def l0_def [symmetric] w0_def)
    next
      case False
      with out run lk show ?thesis
        by (auto simp: PppoeOpen_def Let_def l0_def [symmetric] w0_def)
    qed
  qed
  then show ?thesis
  proof (elim disjE)
    assume "open_incoming k l0 env w0 = Inr w'"
    with open_incoming_ok' [OF ok0, of k l0 env] show ?thesis by simp
  next
    assume "w' = emit (Log LG_PHYS ''PPPoE allready active'') w0"
    with ok0 show ?thesis by simp
  next
    assume oo: "open_outgoing k env w0 = Inr w'"
    then obtain w1 where g: "PppoeGetNode k (node_env env) w0 = Inr w1" and oc: "open_connect k env w1 = Inr w'"
      by (auto simp: open_outgoing_def split: sum.splits)
    have "links_ok w1" using PppoeGetNode_ptr [OF g l0] ok0 by (rule ptr_step_ok)
    with open_connect_ok' [of w1 k env] oc show ?thesis by simp
  qed
qed

lemma bind_Inr: "(case x of Inl f \<Rightarrow> Inl f | Inr w1 \<Rightarrow> g w1) = Inr w' \<Longrightarrow> \<exists>w1. x = Inr w1 \<and> g w1 = Inr w'"
  by (cases x) auto

lemma NodeUpdate_ok: "PppoeNodeUpdate k cenv lenv w = Inr w' \<Longrightarrow> links_ok w \<Longrightarrow> links_ok w'"
proof -
  assume run: "PppoeNodeUpdate k cenv lenv w = Inr w'" and ok: "links_ok w"
  from run obtain l where lk: "get_link w k = Some l"
    by (cases "get_link w k") (simp_all add: PppoeNodeUpdate_def)
  have "ptr_step k w w'"
  proof (cases "plist (info l) = None")
    case True
    show ?thesis
    proof (cases "Enabled l LINK_CONF_INCOMING")
      case en: True
      with run lk True
      have "(case PppoeGetNode k cenv w of Inl f \<Rightarrow> Inl f | Inr w1 \<Rightarrow> PppoeListen k lenv w1) = Inr w'"
        by (simp add: PppoeNodeUpdate_def)
      from bind_Inr [OF this] obtain w1 where g: "PppoeGetNode k cenv w = Inr w1"
        and li: "PppoeListen k lenv w1 = Inr w'" by auto
      have a: "ptr_step k w w1" using g lk by (rule PppoeGetNode_ptr)
      from ptr_step_link [OF a lk] obtain l1 where "get_link w1 k = Some l1" by auto
      with li have "ptr_step k w1 w'" by (rule PppoeListen_ptr)
      with a show ?thesis by (rule ptr_step_trans)
    next
      case False
      with run lk True have "w' = w" by (simp add: PppoeNodeUpdate_def)
      with lk show ?thesis by (simp add: ptr_step_same)
    qed
  next
    case False
    show ?thesis
    proof (cases "Enabled l LINK_CONF_INCOMING")
      case True
      with run lk False have "w' = w" by (simp add: PppoeNodeUpdate_def)
      with lk show ?thesis by (simp add: ptr_step_same)
    next
      case dis: False
      with run lk False
      have "(case PppoeUnListen k w of Inl f \<Rightarrow> Inl f
             | Inr w1 \<Rightarrow> if state l = PHYS_STATE_DOWN then PppoeReleaseNode k w1 else Inr w1) = Inr w'"
        by (simp add: PppoeNodeUpdate_def)
      from bind_Inr [OF this] obtain w1 where u: "PppoeUnListen k w = Inr w1"
        and r: "(if state l = PHYS_STATE_DOWN then PppoeReleaseNode k w1 else Inr w1) = Inr w'" by auto
      have a: "ptr_step k w w1" using u lk by (rule PppoeUnListen_ptr)
      from ptr_step_link [OF a lk] obtain l1 where l1: "get_link w1 k = Some l1" by auto
      show ?thesis
      proof (cases "state l = PHYS_STATE_DOWN")
        case True
        with r have "PppoeReleaseNode k w1 = Inr w'" by simp
        then have "ptr_step k w1 w'" using l1 by (rule PppoeReleaseNode_ptr)
        with a show ?thesis by (rule ptr_step_trans)
      next
        case False
        with r a show ?thesis by simp
      qed
    qed
  qed
  then show ?thesis using ok by (rule ptr_step_ok)
qed

lemma DoClose_link: "PppoeDoClose k w = Inr w1 \<Longrightarrow> \<exists>l. get_link w k = Some l \<and> (\<exists>l1. get_link w1 k = Some l1)"
  by (auto simp: PppoeDoClose_def get_link_def put_link_def emit_def split: option.splits if_splits)

lemma Shutdown_ok: "PppoeShutdown k w = Inr w' \<Longrightarrow> links_ok w \<Longrightarrow> links_ok w'"
proof -
  assume run: "PppoeShutdown k w = Inr w'" and ok: "links_ok w"
  from run obtain w1 where a: "PppoeDoClose k w = Inr w1"
    and bc: "(case PppoeUnListen k w1 of Inl f \<Rightarrow> Inl f | Inr w2 \<Rightarrow> PppoeReleaseNode k w2) = Inr w'"
    unfolding PppoeShutdown_def by (blast dest: bind_Inr)
  from bind_Inr [OF bc] obtain w2 where b: "PppoeUnListen k w1 = Inr w2"
    and c: "PppoeReleaseNode k w2 = Inr w'" by auto
  from DoClose_link [OF a] obtain l1 where l1: "get_link w1 k = Some l1" by auto
  have ok1: "links_ok w1" using a ok by (rule DoClose_ok)
  have s1: "ptr_step k w1 w2" using b l1 by (rule PppoeUnListen_ptr)
  from ptr_step_link [OF s1 l1] obtain l2 where "get_link w2 k = Some l2" by auto
  with c have "ptr_step k w2 w'" by (rule PppoeReleaseNode_ptr)
  with s1 have "ptr_step k w1 w'" by (rule ptr_step_trans)
  then show ?thesis using ok1 by (rule ptr_step_ok)
qed

lemma LinkShutdown_ok: "LinkShutdown k w = Inr w' \<Longrightarrow> links_ok w \<Longrightarrow> links_ok w'"
proof -
  assume run: "LinkShutdown k w = Inr w'" and ok: "links_ok w"
  from run obtain w1 where a: "PppoeShutdown k w = Inr w1" and b: "w' = w1\<lparr>gLinks := (gLinks w1)[k := None]\<rparr>"
    unfolding LinkShutdown_def by (cases "PppoeShutdown k w") auto
  from Shutdown_ok [OF a ok] b show ?thesis by (simp add: links_ok_remove)
qed

lemma set_info_ok: "keeps_session f \<Longrightarrow> links_ok w \<Longrightarrow> links_ok (set_info k f w)"
proof (cases "get_link w k")
  case None
  assume "links_ok w"
  with None show ?thesis by (simp add: set_info_def)
next
  case (Some l)
  assume f: "keeps_session f" and ok: "links_ok w"
  have "down_ok (Some (l\<lparr>info := f (info l)\<rparr>))"
    using links_ok_get [OF ok Some] by (rule down_ok_same_session) (use f in \<open>simp_all add: keeps_session_def\<close>)
  with Some ok show ?thesis by (simp add: set_info_def links_ok_put_link)
qed

lemma set_info_link: "get_link w k = Some l \<Longrightarrow> get_link (set_info k f w) k = Some (l\<lparr>info := f (info l)\<rparr>)"
  by (simp add: set_info_def get_link_put_link get_link_length)

lemma relisten_iface_ptr:
  assumes run: "relisten_iface k cenv lenv w = Inr w'" and lk: "get_link w k = Some l"
  shows "ptr_step k w w'"
proof -
  from bind_Inr [OF run [unfolded relisten_iface_def]] obtain w1 where a: "PppoeUnListen k w = Inr w1"
    and r1: "(case PppoeReleaseNode k w1 of Inl f \<Rightarrow> Inl f
              | Inr w2 \<Rightarrow> (case PppoeGetNode k cenv w2 of Inl f \<Rightarrow> Inl f | Inr w3 \<Rightarrow> PppoeListen k lenv w3)) = Inr w'"
    by auto
  from bind_Inr [OF r1] obtain w2 where b: "PppoeReleaseNode k w1 = Inr w2"
    and r2: "(case PppoeGetNode k cenv w2 of Inl f \<Rightarrow> Inl f | Inr w3 \<Rightarrow> PppoeListen k lenv w3) = Inr w'"
    by auto
  from bind_Inr [OF r2] obtain w3 where c: "PppoeGetNode k cenv w2 = Inr w3"
    and d: "PppoeListen k lenv w3 = Inr w'" by auto
  have s1: "ptr_step k w w1" using a lk by (rule PppoeUnListen_ptr)
  from ptr_step_link [OF s1 lk] obtain l1 where l1: "get_link w1 k = Some l1" by auto
  have s2: "ptr_step k w1 w2" using b l1 by (rule PppoeReleaseNode_ptr)
  from ptr_step_link [OF s2 l1] obtain l2 where l2: "get_link w2 k = Some l2" by auto
  have s3: "ptr_step k w2 w3" using c l2 by (rule PppoeGetNode_ptr)
  from ptr_step_link [OF s3 l2] obtain l3 where l3: "get_link w3 k = Some l3" by auto
  have s4: "ptr_step k w3 w'" using d l3 by (rule PppoeListen_ptr)
  from s1 s2 s3 s4 show ?thesis by (blast intro: ptr_step_trans)
qed

lemma set_iface_ok:
  assumes run: "set_iface k l name hookname cenv lenv w = Inr (st, w')" and lk: "get_link w k = Some l"
    and ok: "links_ok w"
  shows "links_ok w'"
proof -
  define f :: "pppoeinfo \<Rightarrow> pppoeinfo" where "f = (\<lambda>pi. pi\<lparr>iface := strlcpy name IFNAMSIZ,
                                   path := iface_path (strlcpy name IFNAMSIZ),
                                   hook := strlcpy hookname NG_HOOKSIZ\<rparr>)"
  define w1 where "w1 = set_info k f w"
  have ks: "keeps_session f" by (simp add: keeps_session_def f_def)
  have ok1: "links_ok w1" unfolding w1_def using ks ok by (rule set_info_ok)
  have l1: "get_link w1 k = Some (l\<lparr>info := f (info l)\<rparr>)" unfolding w1_def using lk by (rule set_info_link)
  show ?thesis
  proof (cases "plist (info l) \<noteq> None")
    case True
    with run have "(case relisten_iface k cenv lenv w1 of Inl f \<Rightarrow> Inl f | Inr w2 \<Rightarrow> Inr (CmdOk, w2)) = Inr (st, w')"
      by (simp add: set_iface_def Let_def f_def w1_def)
    then have "relisten_iface k cenv lenv w1 = Inr w'"
      by (cases "relisten_iface k cenv lenv w1") auto
    then have "ptr_step k w1 w'" using l1 by (rule relisten_iface_ptr)
    then show ?thesis using ok1 by (rule ptr_step_ok)
  next
    case False
    with run have "w' = w1" by (simp add: set_iface_def Let_def f_def w1_def)
    with ok1 show ?thesis by simp
  qed
qed

lemma set_session_ok:
  assumes run: "(let w1 = set_info k (\<lambda>pi. pi\<lparr>session := strlcpy name MAX_SESSION\<rparr>) w
                    in if plist (info l) \<noteq> None then
                         (case PppoeUnListen k w1 of
                            Inl f \<Rightarrow> Inl f
                          | Inr w2 \<Rightarrow> (case PppoeListen k lenv w2 of
                              Inl f \<Rightarrow> Inl f
                            | Inr w3 \<Rightarrow> Inr (CmdOk, w3)))
                       else Inr (CmdOk, w1)) = Inr (st, w')"
    and lk: "get_link w k = Some l" and ok: "links_ok w"
  shows "links_ok w'"
proof -
  define f :: "pppoeinfo \<Rightarrow> pppoeinfo" where "f = (\<lambda>pi. pi\<lparr>session := strlcpy name MAX_SESSION\<rparr>)"
  define w1 where "w1 = set_info k f w"
  have ks: "keeps_session f" by (simp add: keeps_session_def f_def)
  have ok1: "links_ok w1" unfolding w1_def using ks ok by (rule set_info_ok)
  have l1: "get_link w1 k = Some (l\<lparr>info := f (info l)\<rparr>)" unfolding w1_def using lk by (rule set_info_link)
  show ?thesis
  proof (cases "plist (info l) \<noteq> None")
    case True
    with run have r: "(case PppoeUnListen k w1 of
                            Inl f \<Rightarrow> Inl f
                          | Inr w2 \<Rightarrow> (case PppoeListen k lenv w2 of
                              Inl f \<Rightarrow> Inl f
                            | Inr w3 \<Rightarrow> Inr (CmdOk, w3))) = Inr (st, w')"
      by (simp add: Let_def f_def w1_def)
    from bind_Inr [OF r] obtain w2 where a: "PppoeUnListen k w1 = Inr w2"
      and r2: "(case PppoeListen k lenv w2 of Inl f \<Rightarrow> Inl f | Inr w3 \<Rightarrow> Inr (CmdOk, w3)) = Inr (st, w')"
      by auto
    from r2 have b: "PppoeListen k lenv w2 = Inr w'" by (cases "PppoeListen k lenv w2") auto
    have s1: "ptr_step k w1 w2" using a l1 by (rule PppoeUnListen_ptr)
    from ptr_step_link [OF s1 l1] obtain l2 where l2: "get_link w2 k = Some l2" by auto
    have "ptr_step k w2 w'" using b l2 by (rule PppoeListen_ptr)
    with s1 have "ptr_step k w1 w'" by (rule ptr_step_trans)
    then show ?thesis using ok1 by (rule ptr_step_ok)
  next
    case False
    with run have "w' = w1" by (simp add: Let_def f_def w1_def)
    with ok1 show ?thesis by simp
  qed
qed

lemma SetCommand_ok:
  assumes run: "PppoeSetCommand k av arg cenv lenv w = Inr (st, w')" and ok: "links_ok w"
  shows "links_ok w'"
proof -
  from run obtain l where lk: "get_link w k = Some l"
    by (cases "get_link w k") (simp_all add: PppoeSetCommand_def)
  show ?thesis
  proof (cases arg)
    case SET_IFACE
    with run lk consider name hookname where "set_iface k l name hookname cenv lenv w = Inr (st, w')" | "w' = w"
      by (auto simp: PppoeSetCommand_def split: list.splits)
    then show ?thesis
    proof cases
      case 1
      then show ?thesis using lk ok by (rule set_iface_ok)
    next
      case 2
      with ok show ?thesis by simp
    qed
  next
    case SET_SESSION
    with run lk consider name where "(let w1 = set_info k (\<lambda>pi. pi\<lparr>session := strlcpy name MAX_SESSION\<rparr>) w
                    in if plist (info l) \<noteq> None then
                         (case PppoeUnListen k w1 of
                            Inl f \<Rightarrow> Inl f
                          | Inr w2 \<Rightarrow> (case PppoeListen k lenv w2 of
                              Inl f \<Rightarrow> Inl f
                            | Inr w3 \<Rightarrow> Inr (CmdOk, w3)))
                       else Inr (CmdOk, w1)) = Inr (st, w')" | "w' = w"
      by (auto simp: PppoeSetCommand_def split: list.splits)
    then show ?thesis
    proof cases
      case 1
      then show ?thesis using lk ok by (rule set_session_ok)
    next
      case 2
      with ok show ?thesis by simp
    qed
  next
    case SET_ACNAME
    have "keeps_session (\<lambda>pi. pi\<lparr>acname := x\<rparr>)" for x by (simp add: keeps_session_def)
    with run lk SET_ACNAME ok show ?thesis
      by (auto simp: PppoeSetCommand_def set_info_ok split: list.splits)
  next
    case SET_MAX_PAYLOAD
    have "keeps_session (\<lambda>pi. pi\<lparr>max_payload := x\<rparr>)" for x by (simp add: keeps_session_def)
    with run lk SET_MAX_PAYLOAD ok show ?thesis
      by (auto simp: PppoeSetCommand_def Let_def set_info_ok split: list.splits if_splits)
  next
    case SET_MAC_FORMAT
    have "keeps_session (\<lambda>pi. pi\<lparr>mac_format := x\<rparr>)" for x by (simp add: keeps_session_def)
    with run lk SET_MAC_FORMAT ok show ?thesis
      by (auto simp: PppoeSetCommand_def set_info_ok split: list.splits if_splits)
  next
    case SET_OTHER
    with run lk show ?thesis by (simp add: PppoeSetCommand_def)
  qed
qed

lemma PppoeInst_links:
  "get_link w k = Some l \<Longrightarrow> get_link w kt = Some lt \<Longrightarrow>
   (case PppoeInst k kt w of
      Inl f \<Rightarrow> True
    | Inr w' \<Rightarrow> gLinks w' = (gLinks w)[k := Some (l\<lparr>info := info lt\<rparr>)])"
  by (auto simp: PppoeInst_def Let_def put_link_def put_if_def get_if_def split: option.splits)

lemma links_ok_store_get: "k \<le> length (gLinks w) \<Longrightarrow> get_link (store_link k l w) k = Some l"
  by (auto simp: store_link_def get_link_def nth_append)

lemma get_link_store_other: "j \<noteq> k \<Longrightarrow> get_link w j = Some l \<Longrightarrow> get_link (store_link k l' w) j = Some l"
  by (auto simp: store_link_def get_link_def nth_append split: if_splits)

lemma LinkInst_ok:
  assumes run: "LinkInst kt slot name w = Inr (ko, w')" and ok: "links_ok w"
  shows "links_ok w'"
proof -
  from run obtain lt where lt: "get_link w kt = Some lt"
    by (cases "get_link w kt") (simp_all add: LinkInst_def)
  show ?thesis
  proof (cases slot)
    case None
    with run lt ok show ?thesis by (simp add: LinkInst_def)
  next
    case (Some k)
    define l where "l = lt\<lparr>link_id := int k, lname := name, tmpl := False, stay := False\<rparr>"
    define w1 where "w1 = store_link k l w"
    from run lt Some have kk: "k \<le> length (gLinks w)" "get_link w k = None"
      and r: "(case PppoeInst k kt w1 of Inl f \<Rightarrow> Inl f | Inr w2 \<Rightarrow> Inr (Some k, w2)) = Inr (ko, w')"
      by (auto simp: LinkInst_def Let_def l_def w1_def split: if_splits)
    from r have pi: "PppoeInst k kt w1 = Inr w'" by (cases "PppoeInst k kt w1") auto
    have ne: "kt \<noteq> k" using lt kk by auto
    have d: "down_ok (Some l)"
      using links_ok_get [OF ok lt] by (rule down_ok_same_session) (simp_all add: l_def)
    have ok1: "links_ok w1" unfolding w1_def using ok d by (rule links_ok_store_link)
    have l1: "get_link w1 k = Some l" unfolding w1_def using kk(1) by (rule links_ok_store_get)
    have lt1: "get_link w1 kt = Some lt" unfolding w1_def using ne lt by (rule get_link_store_other)
    from PppoeInst_links [OF l1 lt1] pi have g: "gLinks w' = (gLinks w1)[k := Some (l\<lparr>info := info lt\<rparr>)]"
      by simp
    have "down_ok (Some (l\<lparr>info := info lt\<rparr>))"
      using links_ok_get [OF ok lt] by (rule down_ok_same_session) (simp_all add: l_def)
    with ok1 g show ?thesis by (simp add: links_ok_def list_all_update)
  qed
qed

lemma links_ok_not_accepted [simp]: "links_ok (not_accepted k l w) = links_ok w"
  by (simp add: not_accepted_def Let_def)

lemma links_ok_shutdown_tee [simp]: "links_ok (shutdown_tee k l inp cs tee w) = links_ok w"
  by (simp add: shutdown_tee_def Let_def)

lemma accept_on_ok':
  "links_ok w \<Longrightarrow> (case accept_on k p inp rs ids w of Inl f \<Rightarrow> True | Inr w1 \<Rightarrow> links_ok w1)"
  by (simp add: accept_on_def Let_def links_ok_put_link down_ok_nondown split: option.splits prod.splits)

lemma listen_request_ok:
  assumes run: "listen_request p inp w = Inr w'" and ok: "links_ok w"
  shows "links_ok w'"
proof -
  define sess where "sess = drop 7 (rhook inp)"
  define w1 where "w1 = emit (Log LG_PHYS ''Incoming PPPoE connection request'') w"
  define rs where "rs = parse_real_session (frame inp) sess"
  define ids where "ids = fst (decode_agent_ids (frame inp))"
  have ok1: "links_ok w1" using ok by (simp add: w1_def)
  show ?thesis
  proof (cases "shutting_down inp \<or> overload inp")
    case True
    with run have "\<exists>e. w' = emit e w1"
      by (auto simp: listen_request_def Let_def w1_def split: if_splits)
    with ok1 show ?thesis by auto
  next
    case False
    show ?thesis
    proof (cases "find_accepting inp p sess w1")
      case None
      with run False ok show ?thesis
        by (auto simp: listen_request_def Let_def sess_def w1_def)
    next
      case (Some kt)
      from run False Some obtain lt where lt: "get_link w1 kt = Some lt"
        by (cases "get_link w1 kt") (simp_all add: listen_request_def Let_def sess_def w1_def)
      show ?thesis
      proof (cases "tmpl lt")
        case False
        with run \<open>\<not> (shutting_down inp \<or> overload inp)\<close> Some lt
        have "accept_on kt p inp rs ids w1 = Inr w'"
          unfolding listen_request_def Let_def sess_def w1_def rs_def ids_def by simp
        with accept_on_ok' [OF ok1, of kt p inp rs ids] show ?thesis by simp
      next
        case True
        with run \<open>\<not> (shutting_down inp \<or> overload inp)\<close> Some lt
        have r: "(case LinkInst kt (inst_at inp) (inst_name inp) w1 of
                             Inl f \<Rightarrow> Inl f
                           | Inr (None, w2) \<Rightarrow>
                               Inr (emit (Log LG_PHYS ''No free PPPoE link with requested parameters was found'') w2)
                           | Inr (Some k, w2) \<Rightarrow> accept_on k p inp rs ids w2) = Inr w'"
          unfolding listen_request_def Let_def sess_def w1_def rs_def ids_def by simp
        then obtain ko w2 where li: "LinkInst kt (inst_at inp) (inst_name inp) w1 = Inr (ko, w2)"
          by (cases "LinkInst kt (inst_at inp) (inst_name inp) w1") auto
        have ok2: "links_ok w2" using li ok1 by (rule LinkInst_ok)
        show ?thesis
        proof (cases ko)
          case None
          with r li ok2 show ?thesis by auto
        next
          case (Some k)
          with r li have "accept_on k p inp rs ids w2 = Inr w'" by simp
          with accept_on_ok' [OF ok2, of k p inp rs ids] show ?thesis by simp
        qed
      qed
    qed
  qed
qed

lemma ListenEvent_ok:
  assumes run: "PppoeListenEvent p inp w = Inr w'" and ok: "links_ok w"
  shows "links_ok w'"
proof -
  from run have "(\<exists>e. w' = emit e w) \<or> listen_request p inp w = Inr w'"
    by (auto simp: PppoeListenEvent_def split: if_splits)
  then show ?thesis using ok listen_request_ok by auto
qed

lemma new_link_fields:
  "state (new_link k name t s en ac) = PHYS_STATE_DOWN"
  "ltype (new_link k name t s en ac) = gPppoePhysType"
  "real_session (info (new_link k name t s en ac)) = ''*''"
  "clean (info (new_link k name t s en ac))"
  by (simp_all add: new_link_def PppoeInit_def zeroed_info_def clean_def strlcpy_def MAX_SESSION_def)

lemma reachable_links_ok: "reachable w \<Longrightarrow> links_ok w"
proof (induction rule: reachable.induct)
  case (r_boot pid n)
  show ?case by (simp add: links_ok_def boot_def)
next
  case (r_create w k a b c d e)
  have "down_ok (Some (new_link k name t s en ac))" for name t s en ac
    by (simp add: down_ok_def new_link_fields)
  with r_create.IH show ?case by (rule links_ok_store_link)
next
  case (r_other w k l)
  then have "down_ok (Some l)" by (simp add: down_ok_def)
  with r_other.IH show ?case by (rule links_ok_store_link)
next
  case (r_options w k l a b c)
  have "down_ok (Some (l\<lparr>stay := s, opt_enable := en, opt_accept := ac\<rparr>))" for s en ac
    using links_ok_get [OF r_options.IH r_options.hyps(2)] by (rule down_ok_same_session) simp_all
  with r_options.IH show ?case by (rule links_ok_put_link)
next
  case (r_open w k env w')
  then show ?case using Open_ok by blast
next
  case (r_close w k w')
  then show ?case using Close_ok by blast
next
  case (r_timeout w k w')
  then show ?case using Timeout_ok by blast
next
  case (r_ctrl w p rcv w')
  then show ?case using Ctrl_ok by blast
next
  case (r_listen w p inp w')
  then show ?case using ListenEvent_ok by blast
next
  case (r_set w k av arg cenv lenv st w')
  then show ?case using SetCommand_ok by blast
next
  case (r_update w k cenv lenv w')
  then show ?case using NodeUpdate_ok by blast
next
  case (r_shutdown w k w')
  then show ?case using LinkShutdown_ok by blast
qed

text \<open>
  In every reachable state, every PPPoE link in state DOWN has an idle connect timer, an
  all-zero peer address, empty agent ids and \<open>mp_reply\<close> = 0, and its real service name
  is empty or \<open>*\<close>.
\<close>

lemma down_links_clean:
  assumes "reachable w" and "get_link w k = Some l" and "ltype l = gPppoePhysType"
    and "state l = PHYS_STATE_DOWN"
  shows "\<not> connectTimer (info l) \<and> peeraddr (info l) = replicate 6 0 \<and>
         agent_cid (info l) = [] \<and> agent_rid (info l) = [] \<and> mp_reply (info l) = 0 \<and>
         (real_session (info l) = [] \<or> real_session (info l) = ''*'')"
proof -
  have "down_ok (Some l)" using reachable_links_ok [OF assms(1)] assms(2) by (rule links_ok_get)
  with assms(3,4) show ?thesis by (simp add: down_ok_def clean_def)
qed

lemma reach_fresh: "reachable (store_link 0 (new_link 0 ''L1'' False True {} {}) (boot 100 2))"
  by (rule r_create [OF r_boot]) (simp_all add: boot_def get_link_def)

lemma fresh_link: "get_link (store_link 0 (new_link 0 ''L1'' False True {} {}) (boot 100 2)) 0
     = Some (new_link 0 ''L1'' False True {} {})"
  by (simp add: store_link_def boot_def get_link_def)


section \<open>The parent table\<close>

lemma holds_view: "link_view lo' = link_view lo \<Longrightarrow> holds i lo' = holds i lo"
  by (cases lo; cases lo') (auto simp: link_view_def holds_def)

lemma link_reg_ok_view: "link_view lo' = link_view lo \<Longrightarrow> link_reg_ok n lo' = link_reg_ok n lo"
  by (cases lo; cases lo') (auto simp: link_view_def link_reg_ok_def)

lemma slot_ok_view: "if_view e' = if_view e \<Longrightarrow> slot_ok e' = slot_ok e"
  by (auto simp: if_view_def slot_ok_def)

lemma filter_view:
  "map link_view xs' = map link_view xs \<Longrightarrow> length (filter (holds i) xs') = length (filter (holds i) xs)"
proof (induction xs arbitrary: xs')
  case Nil
  then show ?case by simp
next
  case (Cons x xs)
  then obtain y ys where xs': "xs' = y # ys" by (cases xs') auto
  with Cons.prems have "link_view y = link_view x" "map link_view ys = map link_view xs" by auto
  with Cons.IH [of ys] holds_view [of y x i] xs' show ?case by simp
qed

lemma list_all_view:
  assumes "map f xs' = map f xs" and "\<And>a b. f a = f b \<Longrightarrow> P a = P b"
  shows "list_all P xs' = list_all P xs"
  using assms(1)
proof (induction xs arbitrary: xs')
  case Nil
  then show ?case by simp
next
  case (Cons x xs)
  then obtain y ys where xs': "xs' = y # ys" by (cases xs') auto
  with Cons.prems have "f y = f x" "map f ys = map f xs" by auto
  with Cons.IH [of ys] assms(2) [of y x] xs' show ?case by simp
qed

lemma reg_ok_view:
  assumes "reg_view w' = reg_view w"
  shows "reg_ok w' = reg_ok w"
proof -
  from assms have a: "map if_view (PppoeIfs w') = map if_view (PppoeIfs w)"
    and b: "map link_view (gLinks w') = map link_view (gLinks w)"
    by (simp_all add: reg_view_def)
  from a have len: "length (PppoeIfs w') = length (PppoeIfs w)" by (rule map_eq_imp_length_eq)
  have s: "list_all slot_ok (PppoeIfs w') = list_all slot_ok (PppoeIfs w)"
    using a slot_ok_view by (rule list_all_view)
  have l: "list_all (link_reg_ok (length (PppoeIfs w))) (gLinks w')
         = list_all (link_reg_ok (length (PppoeIfs w))) (gLinks w)"
    using b link_reg_ok_view by (rule list_all_view)
  have h: "holders w' i = holders w i" for i
    unfolding holders_def using b by (rule filter_view)
  have r: "refs (PppoeIfs w' ! i) = refs (PppoeIfs w ! i)" if "i < length (PppoeIfs w)" for i
  proof -
    from a that len have "if_view (PppoeIfs w' ! i) = if_view (PppoeIfs w ! i)"
      by (metis nth_map)
    then show ?thesis by (simp add: if_view_def)
  qed
  show ?thesis unfolding reg_ok_def s l len h using r by auto
qed

lemma reg_view_emit [simp]: "reg_view (emit e w) = reg_view w"
  by (simp add: reg_view_def emit_def)

lemma reg_view_lheap [simp]: "reg_view (w\<lparr>lheap := h\<rparr>) = reg_view w"
  by (simp add: reg_view_def)

lemma reg_view_loaded [simp]: "reg_view (w\<lparr>gNgEtherLoaded := b\<rparr>) = reg_view w"
  by (simp add: reg_view_def)

lemma reg_view_put_link:
  "get_link w k = Some l \<Longrightarrow> link_view (Some l') = link_view (Some l) \<Longrightarrow>
   reg_view (put_link k l' w) = reg_view w"
proof -
  assume a: "get_link w k = Some l" and b: "link_view (Some l') = link_view (Some l)"
  from a have "k < length (gLinks w)" "gLinks w ! k = Some l"
    by (auto simp: get_link_def split: if_splits)
  then have "(map link_view (gLinks w))[k := link_view (Some l')] = map link_view (gLinks w)"
    using b by (metis list_update_id nth_map)
  then show ?thesis by (simp add: reg_view_def put_link_def map_update)
qed

lemma reg_view_put_if:
  "get_if w i = Some e \<Longrightarrow> if_view e' = if_view e \<Longrightarrow> reg_view (put_if i e' w) = reg_view w"
proof -
  assume a: "get_if w i = Some e" and b: "if_view e' = if_view e"
  from a have "i < length (PppoeIfs w)" "PppoeIfs w ! i = e"
    by (auto simp: get_if_def split: if_splits)
  then have "(map if_view (PppoeIfs w))[i := if_view e'] = map if_view (PppoeIfs w)"
    using b by (metis list_update_id nth_map)
  then show ?thesis by (simp add: reg_view_def put_if_def map_update)
qed

lemma link_view_Some: "link_view (Some l') = link_view (Some l) \<longleftrightarrow>
    ltype l' = ltype l \<and> PIf (info l') = PIf (info l) \<and> (path (info l') = []) = (path (info l) = [])"
  by (auto simp: link_view_def)

lemma rv_put_link [simp]:
  "get_link w k = Some l \<Longrightarrow> ltype l' = ltype l \<Longrightarrow> PIf (info l') = PIf (info l) \<Longrightarrow>
   (path (info l') = []) = (path (info l) = []) \<Longrightarrow> reg_view (put_link k l' w) = reg_view w"
  by (rule reg_view_put_link) (simp_all add: link_view_Some)

lemma rv_put_if [simp]:
  "get_if w i = Some e \<Longrightarrow> refs e' = refs e \<Longrightarrow> ifnodepath e' = ifnodepath e \<Longrightarrow>
   csock e' = csock e \<Longrightarrow> dsock e' = dsock e \<Longrightarrow> reg_view (put_if i e' w) = reg_view w"
  by (rule reg_view_put_if) (simp_all add: if_view_def)

lemma get_link_emit_simps [simp]:
  "get_link (emit e w) k = get_link w k" "get_if (emit e w) i = get_if w i"
  "get_link (put_if i pe w) k = get_link w k"
  "get_link (w\<lparr>lheap := h\<rparr>) k = get_link w k" "get_if (w\<lparr>lheap := h\<rparr>) i = get_if w i"
  by (simp_all add: get_link_def get_if_def emit_def put_if_def)

lemma DoClose_rv: "PppoeDoClose k w = Inr w' \<Longrightarrow> reg_view w' = reg_view w"
proof -
  have "(case PppoeDoClose k w of Inl f \<Rightarrow> True | Inr w' \<Rightarrow> reg_view w' = reg_view w)"
    by (simp add: PppoeDoClose_def split: option.splits)
  then show "PppoeDoClose k w = Inr w' \<Longrightarrow> reg_view w' = reg_view w" by simp
qed

lemma Close_rv: "PppoeClose k w = Inr w' \<Longrightarrow> reg_view w' = reg_view w"
proof -
  assume run: "PppoeClose k w = Inr w'"
  then obtain l where lk: "get_link w k = Some l"
    by (cases "get_link w k") (simp_all add: PppoeClose_def)
  define w1 where "w1 = put_link k (l\<lparr>info := (info l)\<lparr>opened := 0\<rparr>\<rparr>) w"
  have v: "reg_view w1 = reg_view w" using lk by (simp add: w1_def)
  from run lk have "w' = w1 \<or> (\<exists>w2. PppoeDoClose k w1 = Inr w2 \<and> w' = emit (PhysDown k STR_MANUALLY) w2)"
    by (auto simp: PppoeClose_def Let_def w1_def [symmetric] split: if_splits sum.splits)
  then show ?thesis using v DoClose_rv [of k w1] by auto
qed

lemma Timeout_rv: "PppoeConnectTimeout k w = Inr w' \<Longrightarrow> reg_view w' = reg_view w"
  using DoClose_rv [of k "emit (Log LG_PHYS ''PPPoE connection timeout'') w"]
  by (auto simp: PppoeConnectTimeout_def split: sum.splits)

lemma ctrl_decode_rv: "ctrl_decode lk msg w = Inr w' \<Longrightarrow> reg_view w' = reg_view w"
proof -
  assume run: "ctrl_decode lk msg w = Inr w'"
  have d: "PppoeDoClose k (emit e w) = Inr w2 \<Longrightarrow> reg_view w2 = reg_view w" for k e w2
    using DoClose_rv [of k "emit e w" w2] by simp
  from run show ?thesis
    by (cases "cmd msg")
      (auto simp: ctrl_decode_def Let_def split: option.splits sum.splits if_splits dest: d)
qed

lemma Ctrl_rv: "PppoeCtrlReadEvent p rcv w = Inr w' \<Longrightarrow> reg_view w' = reg_view w"
proof -
  assume run: "PppoeCtrlReadEvent p rcv w = Inr w'"
  show ?thesis
  proof (cases rcv)
    case None
    with run show ?thesis by (auto simp: PppoeCtrlReadEvent_def)
  next
    case (Some msg)
    from ctrl_route_shape [of p msg w]
    consider k where "ctrl_route p msg w = Routed k" | "ctrl_route p msg w = Crashed OutOfBounds"
      | "ctrl_route p msg w = Dropped w" | lv t where "ctrl_route p msg w = Dropped (emit (Log lv t) w)"
      by blast
    then show ?thesis
      using run Some
      by cases (auto simp: PppoeCtrlReadEvent_def split: if_splits dest: ctrl_decode_rv)
  qed
qed

lemma Listen_rv: "PppoeListen k env w = Inr w' \<Longrightarrow> reg_view w' = reg_view w"
proof -
  have "(case PppoeListen k env w of Inl f \<Rightarrow> True | Inr w' \<Rightarrow> reg_view w' = reg_view w)"
    by (simp add: PppoeListen_def Let_def split: option.splits sum.splits)
  then show "PppoeListen k env w = Inr w' \<Longrightarrow> reg_view w' = reg_view w" by simp
qed

lemma UnListen_rv: "PppoeUnListen k w = Inr w' \<Longrightarrow> reg_view w' = reg_view w"
proof -
  have "(case PppoeUnListen k w of Inl f \<Rightarrow> True | Inr w' \<Rightarrow> reg_view w' = reg_view w)"
    by (simp add: PppoeUnListen_def Let_def split: option.splits)
  then show "PppoeUnListen k w = Inr w' \<Longrightarrow> reg_view w' = reg_view w" by simp
qed

lemma count_update:
  "k < length xs \<Longrightarrow>
   int (length (filter P (xs[k := y]))) =
   int (length (filter P xs)) - (if P (xs ! k) then 1 else 0) + (if P y then 1 else 0)"
proof (induction xs arbitrary: k)
  case Nil
  then show ?case by simp
next
  case (Cons x xs)
  show ?case
  proof (cases k)
    case 0
    then show ?thesis by auto
  next
    case (Suc j)
    with Cons.prems have "j < length xs" by simp
    from Cons.IH [OF this] Suc show ?thesis by auto
  qed
qed

lemma holders_update:
  "k < length (gLinks w) \<Longrightarrow> gLinks w' = (gLinks w)[k := y] \<Longrightarrow>
   int (holders w' i) = int (holders w i) - (if holds i (gLinks w ! k) then 1 else 0) + (if holds i y then 1 else 0)"
  by (simp add: holders_def count_update)

lemma holders_append:
  "gLinks w' = gLinks w @ [y] \<Longrightarrow> int (holders w' i) = int (holders w i) + (if holds i y then 1 else 0)"
  by (simp add: holders_def)

lemma reg_okD:
  assumes "reg_ok w"
  shows "i < length (PppoeIfs w) \<Longrightarrow> slot_ok (PppoeIfs w ! i)"
    and "get_link w k = Some l \<Longrightarrow> link_reg_ok (length (PppoeIfs w)) (Some l)"
    and "i < length (PppoeIfs w) \<Longrightarrow> refs (PppoeIfs w ! i) = int (holders w i)"
  using assms by (auto simp: reg_ok_def list_all_length get_link_def split: if_splits)

text \<open>A change of one link and one slot that keeps the table consistent.\<close>

lemma reg_ok_change:
  assumes ok: "reg_ok w" and lk: "get_link w k = Some l" and i: "i < length (PppoeIfs w)"
    and g: "gLinks w' = (gLinks w)[k := Some l']"
    and len: "length (PppoeIfs w') = length (PppoeIfs w)"
    and others: "\<And>j. j \<noteq> i \<Longrightarrow> PppoeIfs w' ! j = PppoeIfs w ! j"
    and slot: "slot_ok (PppoeIfs w' ! i)"
    and lok: "link_reg_ok (length (PppoeIfs w)) (Some l')"
    and cnt: "refs (PppoeIfs w' ! i) = refs (PppoeIfs w ! i) - (if holds i (Some l) then 1 else 0)
               + (if holds i (Some l') then 1 else 0)"
    and same: "\<And>j. j \<noteq> i \<Longrightarrow> holds j (Some l') = holds j (Some l)"
  shows "reg_ok w'"
proof -
  from lk have kl: "k < length (gLinks w)" and gk: "gLinks w ! k = Some l"
    by (auto simp: get_link_def split: if_splits)
  have s: "list_all slot_ok (PppoeIfs w')"
    unfolding list_all_length
  proof (intro allI impI)
    fix j assume "j < length (PppoeIfs w')"
    then show "slot_ok (PppoeIfs w' ! j)"
      using slot others [of j] reg_okD(1) [OF ok, of j] len by (cases "j = i") auto
  qed
  have l: "list_all (link_reg_ok (length (PppoeIfs w'))) (gLinks w')"
    unfolding len g using ok lok by (auto simp: reg_ok_def intro: list_all_update)
  have c: "refs (PppoeIfs w' ! j) = int (holders w' j)" if "j < length (PppoeIfs w')" for j
  proof (cases "j = i")
    case True
    with holders_update [OF kl g, of i] gk cnt reg_okD(3) [OF ok i] show ?thesis by simp
  next
    case False
    with holders_update [OF kl g, of j] gk same [of j] others [of j] reg_okD(3) [OF ok, of j] that len
    show ?thesis by simp
  qed
  from s l c show ?thesis by (simp add: reg_ok_def)
qed

lemma is_pppoe_view: "reg_view w' = reg_view w \<Longrightarrow> is_pppoe w' k = is_pppoe w k"
proof -
  assume "reg_view w' = reg_view w"
  then have b: "map link_view (gLinks w') = map link_view (gLinks w)" by (simp add: reg_view_def)
  then have len: "length (gLinks w') = length (gLinks w)" by (rule map_eq_imp_length_eq)
  show ?thesis
  proof (cases "k < length (gLinks w)")
    case True
    with b len have "link_view (gLinks w' ! k) = link_view (gLinks w ! k)" by (metis nth_map)
    with True len show ?thesis
      by (cases "gLinks w ! k"; cases "gLinks w' ! k") (auto simp: is_pppoe_def get_link_def link_view_def)
  next
    case False
    with len show ?thesis by (simp add: is_pppoe_def get_link_def)
  qed
qed

lemma is_pppoe_ptr: "ptr_step k w w1 \<Longrightarrow> is_pppoe w1 j = is_pppoe w j"
proof -
  assume "ptr_step k w w1"
  then obtain l l1 where lk: "get_link w k = Some l" and g: "gLinks w1 = (gLinks w)[k := Some l1]"
    and n: "no_ptrs l1 = no_ptrs l" unfolding ptr_step_def by blast
  from n have "ltype (no_ptrs l1) = ltype (no_ptrs l)" by simp
  then have t: "ltype l1 = ltype l" by (simp add: no_ptrs_def)
  from lk have "k < length (gLinks w)" "gLinks w ! k = Some l" by (auto simp: get_link_def split: if_splits)
  with g t show ?thesis by (cases "j = k") (auto simp: is_pppoe_def get_link_def)
qed

lemma open_incoming_rv:
  "get_link w k = Some l \<Longrightarrow> open_incoming k l env w = Inr w' \<Longrightarrow> reg_view w' = reg_view w"
proof -
  assume lk: "get_link w k = Some l"
  have "(case open_incoming k l env w of Inl f \<Rightarrow> True | Inr w' \<Rightarrow> reg_view w' = reg_view w)"
    using lk by (simp add: open_incoming_def open_fail2_def open_fail_def Let_def split: option.splits prod.splits)
  then show "open_incoming k l env w = Inr w' \<Longrightarrow> reg_view w' = reg_view w" by simp
qed

lemma open_connect_rv: "open_connect k env w = Inr w' \<Longrightarrow> reg_view w' = reg_view w"
proof -
  have "(case open_connect k env w of Inl f \<Rightarrow> True | Inr w' \<Rightarrow> reg_view w' = reg_view w)"
    by (simp add: open_connect_def open_fail2_def open_fail_def Let_def split: option.splits prod.splits)
  then show "open_connect k env w = Inr w' \<Longrightarrow> reg_view w' = reg_view w" by simp
qed

lemma reg_view_not_accepted [simp]: "reg_view (not_accepted k l w) = reg_view w"
  by (simp add: not_accepted_def Let_def)

lemma reg_view_shutdown_tee [simp]: "reg_view (shutdown_tee k l inp cs tee w) = reg_view w"
  by (simp add: shutdown_tee_def Let_def)

lemma accept_on_rv: "accept_on k p inp rs ids w = Inr w' \<Longrightarrow> reg_view w' = reg_view w"
proof -
  have "(case accept_on k p inp rs ids w of Inl f \<Rightarrow> True | Inr w' \<Rightarrow> reg_view w' = reg_view w)"
    by (simp add: accept_on_def Let_def split: option.splits prod.splits)
  then show "accept_on k p inp rs ids w = Inr w' \<Longrightarrow> reg_view w' = reg_view w" by simp
qed

lemma set_info_rv:
  "(\<And>pi. PIf (f pi) = PIf pi \<and> path (f pi) = path pi) \<Longrightarrow> reg_view (set_info k f w) = reg_view w"
  by (simp add: set_info_def split: option.splits)

lemma set_info_path_rv:
  assumes ok: "reg_ok w" and p: "is_pppoe w k" and f: "\<And>pi. PIf (f pi) = PIf pi \<and> path (f pi) \<noteq> []"
  shows "reg_view (set_info k f w) = reg_view w"
proof -
  from p obtain l where lk: "get_link w k = Some l" and t: "ltype l = gPppoePhysType"
    by (auto simp: is_pppoe_def split: option.splits)
  from reg_okD(2) [OF ok lk] t have "path (info l) \<noteq> []" by (simp add: link_reg_ok_def)
  with lk f show ?thesis by (simp add: set_info_def)
qed

lemma same_but_refl [simp]: "same_but i w w"
  by (simp add: same_but_def)

lemma same_but_emit [simp]: "same_but i w (emit e w1) = same_but i w w1"
  by (simp add: same_but_def emit_def)

lemma same_but_loaded [simp]: "same_but i w (w1\<lparr>gNgEtherLoaded := b\<rparr>) = same_but i w w1"
  by (simp add: same_but_def)

lemma same_but_close_socks [simp]: "same_but i w (close_socks j w1) = same_but i w w1"
  by (simp add: close_socks_def)

lemma same_but_put_if:
  "same_but i w w1 \<Longrightarrow> refs e = refs (PppoeIfs w1 ! i) \<Longrightarrow> ifnodepath e = ifnodepath (PppoeIfs w1 ! i) \<Longrightarrow>
   same_but i w (put_if i e w1)"
proof (cases "i < length (PppoeIfs w1)")
  case True
  assume "same_but i w w1" "refs e = refs (PppoeIfs w1 ! i)" "ifnodepath e = ifnodepath (PppoeIfs w1 ! i)"
  with True show ?thesis by (simp add: same_but_def put_if_def)
next
  case False
  then have "(PppoeIfs w1)[i := e] = PppoeIfs w1" by (simp add: list_update_beyond not_less)
  then have "put_if i e w1 = w1" by (simp add: put_if_def)
  moreover assume "same_but i w w1"
  ultimately show ?thesis by simp
qed

lemma nth_emit [simp]: "PppoeIfs (emit e w) = PppoeIfs w"
  by (simp add: emit_def)

lemma nth_close_socks [simp]: "PppoeIfs (close_socks i w) = PppoeIfs w"
  by (simp add: close_socks_def)

lemma socks_put_if:
  "i < length (PppoeIfs w) \<Longrightarrow> csock e = csock (PppoeIfs w ! i) \<Longrightarrow> dsock e = dsock (PppoeIfs w ! i) \<Longrightarrow>
   csock (PppoeIfs (put_if i e w) ! i) = csock (PppoeIfs w ! i) \<and>
   dsock (PppoeIfs (put_if i e w) ! i) = dsock (PppoeIfs w ! i)"
  by (simp add: put_if_def)

lemma create_hooks_frame:
  "same_but i w0 w \<Longrightarrow> same_but i w0 (snd (create_hooks i ifc pth hk env w))"
  by (simp add: create_hooks_def Let_def same_but_put_if split: option.splits)

lemma create_hooks_socks:
  "i < length (PppoeIfs w) \<Longrightarrow>
   csock (PppoeIfs (snd (create_hooks i ifc pth hk env w)) ! i) = csock (PppoeIfs w ! i) \<and>
   dsock (PppoeIfs (snd (create_hooks i ifc pth hk env w)) ! i) = dsock (PppoeIfs w ! i)"
  by (simp add: create_hooks_def Let_def put_if_def split: option.splits)

lemma PppoeIfs_put_if [simp]: "PppoeIfs (put_if i e w) = (PppoeIfs w)[i := e]"
  by (simp add: put_if_def)

lemma CreatePppoeNode_frame:
  assumes i: "i < length (PppoeIfs w)"
  shows "(case CreatePppoeNode i ifc pth hk env w of
            Inl f \<Rightarrow> True
          | Inr r \<Rightarrow> same_but i w (snd r) \<and>
              (fst r \<longrightarrow> 0 \<le> csock (PppoeIfs (snd r) ! i) \<and> 0 \<le> dsock (PppoeIfs (snd r) ! i)))"
  using i
  by (simp add: CreatePppoeNode_def Let_def create_hooks_frame create_hooks_socks same_but_put_if
      split: option.splits prod.splits)

lemma scan_ifs_match:
  "scan_ifs es p i free = (Some j, fr) \<Longrightarrow>
   i \<le> j \<and> j < i + length es \<and> ifnodepath (es ! (j - i)) = p \<and> p \<noteq> []"
proof (induction es arbitrary: i free)
  case Nil
  then show ?case by simp
next
  case (Cons e es)
  show ?case
  proof (cases "ifnodepath e = []")
    case True
    with Cons.prems have "scan_ifs es p (i + 1) (Some i) = (Some j, fr)" by simp
    from Cons.IH [OF this] have ih: "Suc i \<le> j" "j < Suc i + length es"
      "ifnodepath (es ! (j - Suc i)) = p" "p \<noteq> []" by simp_all
    from ih(1) have "j - i = Suc (j - Suc i)" by simp
    with ih show ?thesis by simp
  next
    case False
    show ?thesis
    proof (cases "ifnodepath e = p")
      case True
      with False Cons.prems show ?thesis by auto
    next
      case ne: False
      with False Cons.prems have "scan_ifs es p (i + 1) free = (Some j, fr)" by simp
      from Cons.IH [OF this] have ih: "Suc i \<le> j" "j < Suc i + length es"
      "ifnodepath (es ! (j - Suc i)) = p" "p \<noteq> []" by simp_all
    from ih(1) have "j - i = Suc (j - Suc i)" by simp
    with ih show ?thesis by simp
    qed
  qed
qed

lemma scan_ifs_free:
  "scan_ifs es p i free = (r, Some fr) \<Longrightarrow>
   free = Some fr \<or> (i \<le> fr \<and> fr < i + length es \<and> ifnodepath (es ! (fr - i)) = [])"
proof (induction es arbitrary: i free)
  case Nil
  then show ?case by simp
next
  case (Cons e es)
  show ?case
  proof (cases "ifnodepath e = []")
    case True
    with Cons.prems have "scan_ifs es p (i + 1) (Some i) = (r, Some fr)" by simp
    from Cons.IH [OF this]
    consider "Some i = Some fr" | "Suc i \<le> fr" "fr < Suc i + length es" "ifnodepath (es ! (fr - Suc i)) = []"
      by auto
    then show ?thesis
    proof cases
      case 1
      with True show ?thesis by simp
    next
      case 2
      from 2(1) have "fr - i = Suc (fr - Suc i)" by simp
      with 2 show ?thesis by simp
    qed
  next
    case False
    show ?thesis
    proof (cases "ifnodepath e = p")
      case True
      with False Cons.prems show ?thesis by auto
    next
      case ne: False
      with False Cons.prems have "scan_ifs es p (i + 1) free = (r, Some fr)" by simp
      from Cons.IH [OF this]
      consider "free = Some fr" | "Suc i \<le> fr" "fr < Suc i + length es" "ifnodepath (es ! (fr - Suc i)) = []"
        by auto
      then show ?thesis
      proof cases
        case 1
        then show ?thesis by simp
      next
        case 2
        from 2(1) have "fr - i = Suc (fr - Suc i)" by simp
        with 2 show ?thesis by simp
      qed
    qed
  qed
qed

lemma scan_ifs_first:
  "j < length es \<Longrightarrow> ifnodepath (es ! j) = p \<Longrightarrow> p \<noteq> [] \<Longrightarrow>
   \<forall>j' < j. ifnodepath (es ! j') \<noteq> p \<Longrightarrow> \<exists>fr. scan_ifs es p i free = (Some (i + j), fr)"
proof (induction es arbitrary: i free j)
  case Nil
  then show ?case by simp
next
  case (Cons e es)
  show ?case
  proof (cases j)
    case 0
    with Cons.prems show ?thesis by simp
  next
    case (Suc m)
    with Cons.prems have m: "m < length es" "ifnodepath (es ! m) = p" by simp_all
    from Cons.prems(4) Suc have hd: "ifnodepath e \<noteq> p" by auto
    from Cons.prems(4) Suc have tl: "\<forall>j' < m. ifnodepath (es ! j') \<noteq> p" by auto
    have ih: "\<exists>fr. scan_ifs es p (Suc i) f = (Some (Suc (i + m)), fr)" for f
      using Cons.IH [OF m Cons.prems(3) tl, of "Suc i" f] by simp
    from hd Suc ih show ?thesis by (cases "ifnodepath e = []") simp_all
  qed
qed

lemma strlcpy_path:
  "p \<noteq> [] \<Longrightarrow> p \<noteq> ''undefined:'' \<Longrightarrow> strlcpy p MAX_PATH \<noteq> [] \<and> strlcpy p MAX_PATH \<noteq> ''undefined:''"
proof -
  assume a: "p \<noteq> []" "p \<noteq> ''undefined:''"
  have "take 63 p \<noteq> ''undefined:''"
  proof
    assume e: "take 63 p = ''undefined:''"
    then have "length (take 63 p) = 10" by simp
    then have "length p = 10" by (simp add: min_def split: if_splits)
    with e a show False by simp
  qed
  with a show ?thesis by (simp add: strlcpy_def MAX_PATH_def)
qed

lemma same_but_reg_ok:
  assumes ok: "reg_ok w" and sb: "same_but i w w1" and i: "i < length (PppoeIfs w)"
    and free: "ifnodepath (PppoeIfs w ! i) = []"
  shows "reg_ok w1"
proof -
  from sb have g: "gLinks w1 = gLinks w" and len: "length (PppoeIfs w1) = length (PppoeIfs w)"
    and others: "\<And>j. j \<noteq> i \<Longrightarrow> PppoeIfs w1 ! j = PppoeIfs w ! j"
    and r: "refs (PppoeIfs w1 ! i) = refs (PppoeIfs w ! i)"
    and p: "ifnodepath (PppoeIfs w1 ! i) = ifnodepath (PppoeIfs w ! i)"
    by (simp_all add: same_but_def)
  from reg_okD(1) [OF ok i] free have "refs (PppoeIfs w ! i) = 0" by (simp add: slot_ok_def)
  with r p free have si: "slot_ok (PppoeIfs w1 ! i)" by (simp add: slot_ok_def)
  have s: "list_all slot_ok (PppoeIfs w1)"
    unfolding list_all_length
  proof (intro allI impI)
    fix j assume "j < length (PppoeIfs w1)"
    then show "slot_ok (PppoeIfs w1 ! j)"
      using si others [of j] reg_okD(1) [OF ok, of j] len by (cases "j = i") auto
  qed
  have h: "holders w1 j = holders w j" for j by (simp add: holders_def g)
  have c: "refs (PppoeIfs w1 ! j) = int (holders w1 j)" if "j < length (PppoeIfs w1)" for j
    using that len r others [of j] reg_okD(3) [OF ok, of j] h by (cases "j = i") auto
  from ok have "list_all (link_reg_ok (length (PppoeIfs w1))) (gLinks w1)"
    by (simp add: reg_ok_def g len)
  with s c show ?thesis by (simp add: reg_ok_def)
qed

lemma holders_pos:
  assumes "get_link w k = Some l" and "holds i (Some l)"
  shows "0 < holders w i"
proof -
  from assms(1) have "k < length (gLinks w)" "gLinks w ! k = Some l"
    by (auto simp: get_link_def split: if_splits)
  then have "Some l \<in> set (gLinks w)" by (metis nth_mem)
  with assms(2) have "filter (holds i) (gLinks w) \<noteq> []" by (auto simp: filter_empty_conv)
  then show ?thesis by (simp add: holders_def)
qed

lemma reg_ok_attach:
  assumes ok: "reg_ok w" and lk: "get_link w k = Some l" and t: "ltype l = gPppoePhysType"
    and none: "PIf (info l) = None" and j: "j < length (PppoeIfs w)"
    and slot: "slot_ok e'" and r: "refs e' = refs (PppoeIfs w ! j) + 1"
  shows "reg_ok (put_link k (l\<lparr>info := (info l)\<lparr>PIf := Some j\<rparr>\<rparr>) (put_if j e' w))"
proof -
  define l' where "l' = l\<lparr>info := (info l)\<lparr>PIf := Some j\<rparr>\<rparr>"
  define w' where "w' = put_link k l' (put_if j e' w)"
  from reg_okD(2) [OF ok lk] t have pne: "path (info l) \<noteq> []" by (simp add: link_reg_ok_def)
  have ifs: "PppoeIfs w' = (PppoeIfs w)[j := e']" by (simp add: w'_def put_link_def)
  have "reg_ok w'"
  proof (rule reg_ok_change [OF ok lk j])
    show "gLinks w' = (gLinks w)[k := Some l']" by (simp add: w'_def put_link_def put_if_def)
    show "length (PppoeIfs w') = length (PppoeIfs w)" by (simp add: ifs)
    show "PppoeIfs w' ! i = PppoeIfs w ! i" if "i \<noteq> j" for i
      using that by (simp add: ifs)
    show "slot_ok (PppoeIfs w' ! j)" using j slot by (simp add: ifs)
    show "link_reg_ok (length (PppoeIfs w)) (Some l')"
      using pne j t by (simp add: link_reg_ok_def l'_def)
    have h: "\<not> holds j (Some l)" "holds j (Some l')" using none t by (simp_all add: holds_def l'_def)
    show "refs (PppoeIfs w' ! j) = refs (PppoeIfs w ! j) - (if holds j (Some l) then 1 else 0)
           + (if holds j (Some l') then 1 else 0)"
      using j r h by (simp add: ifs)
    show "holds i (Some l') = holds i (Some l)" if "i \<noteq> j" for i
      using that none by (auto simp: holds_def l'_def)
  qed
  then show ?thesis by (simp add: w'_def l'_def)
qed

lemma GetNode_match:
  assumes lk: "get_link w k = Some l" and run: "PppoeGetNode k env w = Inr w'"
   and c: "\<not> (PIf (info l) \<noteq> None \<or> path (info l) = ''undefined:'')"
   and sc: "scan_ifs (PppoeIfs w) (path (info l)) 0 None = (Some j, fr)"
  shows "w' = put_link k (l\<lparr>info := (info l)\<lparr>PIf := Some j\<rparr>\<rparr>)
                (put_if j ((PppoeIfs w ! j)\<lparr>refs := refs (PppoeIfs w ! j) + 1\<rparr>) w)"
  using run lk c sc by (simp add: PppoeGetNode_def)

lemma GetNode_full:
  assumes lk: "get_link w k = Some l" and run: "PppoeGetNode k env w = Inr w'"
   and c: "\<not> (PIf (info l) \<noteq> None \<or> path (info l) = ''undefined:'')"
   and sc: "scan_ifs (PppoeIfs w) (path (info l)) 0 None = (None, None)"
  shows "w' = emit (Log LG_ERR ''PPPoE: Too many different parent interfaces!'') w"
  using run lk c sc by (simp add: PppoeGetNode_def)

lemma GetNode_create:
  assumes lk: "get_link w k = Some l" and run: "PppoeGetNode k env w = Inr w'"
   and c: "\<not> (PIf (info l) \<noteq> None \<or> path (info l) = ''undefined:'')"
   and sc: "scan_ifs (PppoeIfs w) (path (info l)) 0 None = (None, Some free)"
  shows "\<exists>okc w1. CreatePppoeNode free (iface (info l)) (path (info l)) (hook (info l)) env w = Inr (okc, w1) \<and>
          w' = (if okc then put_link k (l\<lparr>info := (info l)\<lparr>PIf := Some free\<rparr>\<rparr>)
                             (put_if free ((PppoeIfs w1 ! free)\<lparr>ifnodepath := strlcpy (path (info l)) MAX_PATH, refs := 1\<rparr>) w1)
                else emit (Log LG_ERR ''PPPoE: Error creating ng_pppoe node'') w1)"
proof (cases "CreatePppoeNode free (iface (info l)) (path (info l)) (hook (info l)) env w")
  case (Inl f)
  with run lk c sc show ?thesis by (simp add: PppoeGetNode_def)
next
  case (Inr r)
  obtain okc w1 where r: "r = (okc, w1)" by (cases r)
  from run lk c sc Inr r show ?thesis by (simp add: PppoeGetNode_def split: if_splits)
qed

lemma GetNode_skip:
  assumes lk: "get_link w k = Some l" and run: "PppoeGetNode k env w = Inr w'"
   and c: "PIf (info l) \<noteq> None \<or> path (info l) = ''undefined:''"
  shows "reg_view w' = reg_view w"
proof -
  from c run lk have "w' = w \<or> w' = emit (Log LG_ERR ''PPPoE: Skipping link with undefined interface'') w"
    by (auto simp: PppoeGetNode_def split: if_splits)
  then show "reg_view w' = reg_view w" by auto
qed

lemma GetNode_reg_match:
  assumes ok: "reg_ok w" and lk: "get_link w k = Some l" and t: "ltype l = gPppoePhysType"
    and run: "PppoeGetNode k env w = Inr w'"
    and c: "\<not> (PIf (info l) \<noteq> None \<or> path (info l) = ''undefined:'')"
    and sc': "scan_ifs (PppoeIfs w) (path (info l)) 0 None = (Some j, fr)"
  shows "reg_ok w'"
proof -
  from reg_okD(2) [OF ok lk] t have pne: "path (info l) \<noteq> []" by (simp add: link_reg_ok_def)
  from c have none: "PIf (info l) = None" by simp
  from scan_ifs_match [OF sc']
  have j: "j < length (PppoeIfs w)" and pj: "ifnodepath (PppoeIfs w ! j) = path (info l)" by simp_all
  define e' where "e' = (PppoeIfs w ! j)\<lparr>refs := refs (PppoeIfs w ! j) + 1\<rparr>"
  have w': "w' = put_link k (l\<lparr>info := (info l)\<lparr>PIf := Some j\<rparr>\<rparr>) (put_if j e' w)"
    unfolding e'_def using lk run c sc' by (rule GetNode_match)
  from reg_okD(1) [OF ok j] pj pne have s: "slot_ok e'" by (simp add: slot_ok_def e'_def)
  have r: "refs e' = refs (PppoeIfs w ! j) + 1" by (simp add: e'_def)
  show ?thesis unfolding w' using ok lk t none j s r by (rule reg_ok_attach)
qed

lemma CreatePppoeNode_frame':
  assumes f: "free < length (PppoeIfs w)"
    and cr: "CreatePppoeNode free ifc pth hk env w = Inr (okc, w1)"
  shows "same_but free w w1"
    and "okc \<Longrightarrow> 0 \<le> csock (PppoeIfs w1 ! free) \<and> 0 \<le> dsock (PppoeIfs w1 ! free)"
proof -
  have "(case CreatePppoeNode free ifc pth hk env w of
            Inl f \<Rightarrow> True
          | Inr r \<Rightarrow> same_but free w (snd r) \<and>
              (fst r \<longrightarrow> 0 \<le> csock (PppoeIfs (snd r) ! free) \<and> 0 \<le> dsock (PppoeIfs (snd r) ! free)))"
    using f by (rule CreatePppoeNode_frame)
  then have a: "same_but free w w1 \<and> (okc \<longrightarrow> 0 \<le> csock (PppoeIfs w1 ! free) \<and> 0 \<le> dsock (PppoeIfs w1 ! free))"
    unfolding cr by simp
  from a show "same_but free w w1" by simp
  from a show "okc \<Longrightarrow> 0 \<le> csock (PppoeIfs w1 ! free) \<and> 0 \<le> dsock (PppoeIfs w1 ! free)" by simp
qed

lemma reg_ok_viewD: "reg_view w' = reg_view w \<Longrightarrow> reg_ok w \<Longrightarrow> reg_ok w'"
  using reg_ok_view [of w' w] by simp

lemma GetNode_reg_create:
  assumes ok: "reg_ok w" and lk: "get_link w k = Some l" and t: "ltype l = gPppoePhysType"
    and run: "PppoeGetNode k env w = Inr w'"
    and c: "\<not> (PIf (info l) \<noteq> None \<or> path (info l) = ''undefined:'')"
    and sc': "scan_ifs (PppoeIfs w) (path (info l)) 0 None = (None, Some free)"
  shows "reg_ok w'"
proof -
  from reg_okD(2) [OF ok lk] t have pne: "path (info l) \<noteq> []" by (simp add: link_reg_ok_def)
  from c have none: "PIf (info l) = None" and pu: "path (info l) \<noteq> ''undefined:''" by simp_all
  from scan_ifs_free [OF sc']
  have f: "free < length (PppoeIfs w)" and pf: "ifnodepath (PppoeIfs w ! free) = []" by simp_all
  from GetNode_create [OF lk run c sc']
  obtain okc w1 where cr: "CreatePppoeNode free (iface (info l)) (path (info l)) (hook (info l)) env w = Inr (okc, w1)"
    and w1: "w' = (if okc then put_link k (l\<lparr>info := (info l)\<lparr>PIf := Some free\<rparr>\<rparr>)
                       (put_if free ((PppoeIfs w1 ! free)\<lparr>ifnodepath := strlcpy (path (info l)) MAX_PATH, refs := 1\<rparr>) w1)
                   else emit (Log LG_ERR ''PPPoE: Error creating ng_pppoe node'') w1)"
    by blast
  note sb = CreatePppoeNode_frame'(1) [OF f cr]
  note socks = CreatePppoeNode_frame'(2) [OF f cr]
  have ok1: "reg_ok w1" using ok sb f pf by (rule same_but_reg_ok)
  from sb have g1: "gLinks w1 = gLinks w" and len1: "length (PppoeIfs w1) = length (PppoeIfs w)"
    and r1: "refs (PppoeIfs w1 ! free) = refs (PppoeIfs w ! free)"
    by (simp_all add: same_but_def)
  from lk g1 have lk1: "get_link w1 k = Some l" by (auto simp: get_link_def split: if_splits)
  from f len1 have f1: "free < length (PppoeIfs w1)" by simp
  from reg_okD(1) [OF ok f] pf have r0: "refs (PppoeIfs w ! free) = 0" by (simp add: slot_ok_def)
  show ?thesis
  proof (cases okc)
    case False
    with w1 have "w' = emit (Log LG_ERR ''PPPoE: Error creating ng_pppoe node'') w1"
      by simp
    then have "reg_view w' = reg_view w1" by simp
    then show ?thesis using ok1 by (rule reg_ok_viewD)
  next
    case True
    define e' where "e' = (PppoeIfs w1 ! free)\<lparr>ifnodepath := strlcpy (path (info l)) MAX_PATH, refs := 1\<rparr>"
    from w1 True have w': "w' = put_link k (l\<lparr>info := (info l)\<lparr>PIf := Some free\<rparr>\<rparr>) (put_if free e' w1)"
      by (simp add: e'_def)
    from socks [OF True] strlcpy_path [OF pne pu] have s: "slot_ok e'" by (simp add: slot_ok_def e'_def)
    have r: "refs e' = refs (PppoeIfs w1 ! free) + 1" using r0 r1 by (simp add: e'_def)
    show ?thesis unfolding w' using ok1 lk1 t none f1 s r by (rule reg_ok_attach)
  qed
qed

lemma GetNode_reg:
  assumes ok: "reg_ok w" and lk: "get_link w k = Some l" and t: "ltype l = gPppoePhysType"
    and run: "PppoeGetNode k env w = Inr w'"
  shows "reg_ok w'"
proof (cases "PIf (info l) \<noteq> None \<or> path (info l) = ''undefined:''")
  case True
  from GetNode_skip [OF lk run True] ok show ?thesis by (rule reg_ok_viewD)
next
  case False
  obtain r fr where sc: "scan_ifs (PppoeIfs w) (path (info l)) 0 None = (r, fr)"
    by (cases "scan_ifs (PppoeIfs w) (path (info l)) 0 None") auto
  show ?thesis
  proof (cases r)
    case (Some j)
    with sc have "scan_ifs (PppoeIfs w) (path (info l)) 0 None = (Some j, fr)" by simp
    with ok lk t run False show ?thesis by (rule GetNode_reg_match)
  next
    case None
    show ?thesis
    proof (cases fr)
      case fn: None
      with sc None have sc': "scan_ifs (PppoeIfs w) (path (info l)) 0 None = (None, None)" by simp
      from GetNode_full [OF lk run False sc'] have "reg_view w' = reg_view w" by simp
      then show ?thesis using ok by (rule reg_ok_viewD)
    next
      case (Some free)
      with sc None have "scan_ifs (PppoeIfs w) (path (info l)) 0 None = (None, Some free)" by simp
      with ok lk t run False show ?thesis by (rule GetNode_reg_create)
    qed
  qed
qed

lemma GetNode_is_pppoe:
  "get_link w k = Some l \<Longrightarrow> PppoeGetNode k env w = Inr w' \<Longrightarrow> is_pppoe w' j = is_pppoe w j"
  using PppoeGetNode_ptr [of k env w w' l] is_pppoe_ptr [of k w w' j] by simp

lemma ReleaseNode_reg:
  assumes ok: "reg_ok w" and lk: "get_link w k = Some l" and t: "ltype l = gPppoePhysType"
    and run: "PppoeReleaseNode k w = Inr w'"
  shows "reg_ok w' \<and> (\<exists>l'. get_link w' k = Some l' \<and> ltype l' = gPppoePhysType \<and> PIf (info l') = None)"
proof (cases "PIf (info l)")
  case None
  with run lk have "w' = w" by (simp add: PppoeReleaseNode_def)
  with ok lk t None show ?thesis by simp
next
  case (Some i)
  from reg_okD(2) [OF ok lk] t Some have i: "i < length (PppoeIfs w)" and pne: "path (info l) \<noteq> []"
    by (simp_all add: link_reg_ok_def)
  define e where "e = PppoeIfs w ! i"
  from i have gi: "get_if w i = Some e" by (simp add: get_if_def e_def)
  define l' where "l' = l\<lparr>info := (info l)\<lparr>PIf := None\<rparr>\<rparr>"
  define e' where "e' = (if refs e - 1 = 0
                         then e\<lparr>refs := refs e - 1, ifnodepath := [], node_id := 0,
                                 ctrlEvent := False, dataEvent := False, csock := - 1, dsock := - 1\<rparr>
                         else e\<lparr>refs := refs e - 1\<rparr>)"
  from run lk Some gi have "w' = put_link k l' (put_if i e' w) \<or>
       w' = put_link k l' (emit (CloseFd (dsock e)) (emit (CloseFd (csock e)) (put_if i e' w)))"
    by (auto simp: PppoeReleaseNode_def Let_def l'_def e'_def)
  then have g: "gLinks w' = (gLinks w)[k := Some l']" and ifs: "PppoeIfs w' = (PppoeIfs w)[i := e']"
    by (auto simp: put_link_def put_if_def emit_def)
  have hl: "holds i (Some l)" using t Some by (simp add: holds_def)
  from holders_pos [OF lk hl] reg_okD(3) [OF ok i] have rp: "0 < refs e" by (simp add: e_def)
  from reg_okD(1) [OF ok i] rp have se: "ifnodepath e \<noteq> [] \<and> ifnodepath e \<noteq> ''undefined:'' \<and> 0 \<le> csock e \<and> 0 \<le> dsock e"
    by (simp add: slot_ok_def e_def)
  have s: "slot_ok e'" using rp se by (simp add: slot_ok_def e'_def)
  have r: "refs e' = refs e - 1" by (simp add: e'_def)
  have kl: "k < length (gLinks w)" using lk by (rule get_link_length)
  have "reg_ok w'"
  proof (rule reg_ok_change [OF ok lk i g])
    show "length (PppoeIfs w') = length (PppoeIfs w)" by (simp add: ifs)
    show "PppoeIfs w' ! j = PppoeIfs w ! j" if "j \<noteq> i" for j using that by (simp add: ifs)
    show "slot_ok (PppoeIfs w' ! i)" using i s by (simp add: ifs)
    show "link_reg_ok (length (PppoeIfs w)) (Some l')" using pne by (simp add: link_reg_ok_def l'_def)
    have "\<not> holds i (Some l')" by (simp add: holds_def l'_def)
    with hl show "refs (PppoeIfs w' ! i) = refs (PppoeIfs w ! i) - (if holds i (Some l) then 1 else 0)
           + (if holds i (Some l') then 1 else 0)"
      using i r by (simp add: ifs e_def)
    show "holds j (Some l') = holds j (Some l)" if "j \<noteq> i" for j
      using that Some by (auto simp: holds_def l'_def)
  qed
  moreover from g kl have "get_link w' k = Some l'" by (simp add: get_link_def)
  moreover have "ltype l' = gPppoePhysType" "PIf (info l') = None" using t by (simp_all add: l'_def)
  ultimately show ?thesis by blast
qed

lemma reg_ok_remove:
  assumes ok: "reg_ok w" and lk: "get_link w k = Some l" and none: "ltype l = gPppoePhysType \<longrightarrow> PIf (info l) = None"
  shows "reg_ok (w\<lparr>gLinks := (gLinks w)[k := None]\<rparr>)"
proof -
  define w' where "w' = w\<lparr>gLinks := (gLinks w)[k := None]\<rparr>"
  from lk have kl: "k < length (gLinks w)" and gk: "gLinks w ! k = Some l"
    by (auto simp: get_link_def split: if_splits)
  have g: "gLinks w' = (gLinks w)[k := None]" by (simp add: w'_def)
  have nh: "\<not> holds i (Some l)" for i using none by (auto simp: holds_def)
  have h: "holders w' i = holders w i" for i
  proof -
    have "\<not> holds i None" by (simp add: holds_def)
    with holders_update [OF kl g, of i] gk nh [of i] have "int (holders w' i) = int (holders w i)" by simp
    then show ?thesis by simp
  qed
  from ok have "list_all (link_reg_ok (length (PppoeIfs w))) ((gLinks w)[k := None])"
    by (auto simp: reg_ok_def link_reg_ok_def intro: list_all_update)
  with ok h have "reg_ok w'" by (simp add: reg_ok_def w'_def)
  then show ?thesis by (simp add: w'_def)
qed

lemma reg_ok_store:
  assumes ok: "reg_ok w" and k: "k \<le> length (gLinks w)" and free: "get_link w k = None"
    and g: "gLinks w' = gLinks (store_link k l' w)"
    and len: "length (PppoeIfs w') = length (PppoeIfs w)"
    and lok: "link_reg_ok (length (PppoeIfs w)) (Some l')"
    and slots: "\<And>j. j < length (PppoeIfs w) \<Longrightarrow> \<not> holds j (Some l') \<Longrightarrow> PppoeIfs w' ! j = PppoeIfs w ! j"
    and held: "\<And>j. j < length (PppoeIfs w) \<Longrightarrow> holds j (Some l') \<Longrightarrow>
                 0 < refs (PppoeIfs w ! j) \<and> PppoeIfs w' ! j = (PppoeIfs w ! j)\<lparr>refs := refs (PppoeIfs w ! j) + 1\<rparr>"
  shows "reg_ok w'"
proof -
  have h: "int (holders w' j) = int (holders w j) + (if holds j (Some l') then 1 else 0)" for j
  proof (cases "k < length (gLinks w)")
    case True
    with free have gk: "gLinks w ! k = None" by (simp add: get_link_def)
    from g True have g': "gLinks w' = (gLinks w)[k := Some l']" by (simp add: store_link_def)
    have "\<not> holds j None" by (simp add: holds_def)
    with holders_update [OF True g', of j] gk show ?thesis by simp
  next
    case False
    with g have "gLinks w' = gLinks w @ [Some l']" by (simp add: store_link_def)
    then show ?thesis by (rule holders_append)
  qed
  have l: "list_all (link_reg_ok (length (PppoeIfs w'))) (gLinks w')"
    unfolding len g using ok lok by (auto simp: reg_ok_def store_link_def intro: list_all_update)
  have s: "list_all slot_ok (PppoeIfs w')"
    unfolding list_all_length
  proof (intro allI impI)
    fix j assume "j < length (PppoeIfs w')"
    with len have j: "j < length (PppoeIfs w)" by simp
    show "slot_ok (PppoeIfs w' ! j)"
    proof (cases "holds j (Some l')")
      case True
      from held [OF j True] reg_okD(1) [OF ok j] show ?thesis by (simp add: slot_ok_def)
    next
      case False
      from slots [OF j False] reg_okD(1) [OF ok j] show ?thesis by simp
    qed
  qed
  have c: "refs (PppoeIfs w' ! j) = int (holders w' j)" if "j < length (PppoeIfs w')" for j
  proof -
    from that len have j: "j < length (PppoeIfs w)" by simp
    show ?thesis
    proof (cases "holds j (Some l')")
      case True
      from held [OF j True] reg_okD(3) [OF ok j] h [of j] True show ?thesis by simp
    next
      case False
      from slots [OF j False] reg_okD(3) [OF ok j] h [of j] False show ?thesis by simp
    qed
  qed
  from s l c show ?thesis by (simp add: reg_ok_def)
qed

lemma store_link_reg:
  assumes ok: "reg_ok w" and k: "k \<le> length (gLinks w)" and free: "get_link w k = None"
    and l: "ltype l = gPppoePhysType \<longrightarrow> PIf (info l) = None \<and> path (info l) \<noteq> []"
  shows "reg_ok (store_link k l w)"
proof (rule reg_ok_store [OF ok k free])
  show "gLinks (store_link k l w) = gLinks (store_link k l w)" by simp
  show "length (PppoeIfs (store_link k l w)) = length (PppoeIfs w)" by (simp add: store_link_def)
  show "link_reg_ok (length (PppoeIfs w)) (Some l)" using l by (auto simp: link_reg_ok_def)
  show "PppoeIfs (store_link k l w) ! j = PppoeIfs w ! j" for j by (simp add: store_link_def)
  show "0 < refs (PppoeIfs w ! j) \<and>
        PppoeIfs (store_link k l w) ! j = (PppoeIfs w ! j)\<lparr>refs := refs (PppoeIfs w ! j) + 1\<rparr>"
    if "holds j (Some l)" for j
    using that l by (auto simp: holds_def)
qed

lemma PppoeInst_ifs:
  "get_link w k = Some l \<Longrightarrow> get_link w kt = Some lt \<Longrightarrow>
   (case PppoeInst k kt w of
      Inl f \<Rightarrow> True
    | Inr w' \<Rightarrow> PppoeIfs w' = (case PIf (info lt) of
                     None \<Rightarrow> PppoeIfs w
                   | Some i \<Rightarrow> (PppoeIfs w)[i := (PppoeIfs w ! i)\<lparr>refs := refs (PppoeIfs w ! i) + 1\<rparr>]))"
  by (auto simp: PppoeInst_def Let_def put_link_def put_if_def get_if_def split: option.splits)

lemma LinkInst_reg:
  assumes run: "LinkInst kt slot name w = Inr (ko, w')" and ok: "reg_ok w"
    and lt: "get_link w kt = Some lt" and t: "ltype lt = gPppoePhysType"
  shows "reg_ok w'"
proof (cases slot)
  case None
  with run lt ok show ?thesis by (simp add: LinkInst_def)
next
  case (Some k)
  define l where "l = lt\<lparr>link_id := int k, lname := name, tmpl := False, stay := False\<rparr>"
  define w1 where "w1 = store_link k l w"
  from run lt Some have kk: "k \<le> length (gLinks w)" "get_link w k = None"
    and r: "(case PppoeInst k kt w1 of Inl f \<Rightarrow> Inl f | Inr w2 \<Rightarrow> Inr (Some k, w2)) = Inr (ko, w')"
    by (auto simp: LinkInst_def Let_def l_def w1_def split: if_splits)
  from r have pi: "PppoeInst k kt w1 = Inr w'" by (cases "PppoeInst k kt w1") auto
  have ne: "kt \<noteq> k" using lt kk by auto
  have l1: "get_link w1 k = Some l" unfolding w1_def using kk(1) by (rule links_ok_store_get)
  have lt1: "get_link w1 kt = Some lt" unfolding w1_def using ne lt by (rule get_link_store_other)
  have same: "l\<lparr>info := info lt\<rparr> = l" by (simp add: l_def)
  from PppoeInst_links [OF l1 lt1] pi have "gLinks w' = (gLinks w1)[k := Some l]"
    by (simp add: same)
  then have g: "gLinks w' = gLinks (store_link k l w)"
    using kk(1) by (auto simp: w1_def store_link_def)
  have i1: "PppoeIfs w1 = PppoeIfs w" by (simp add: w1_def store_link_def)
  from PppoeInst_ifs [OF l1 lt1] pi
  have ifs: "PppoeIfs w' = (case PIf (info lt) of
                     None \<Rightarrow> PppoeIfs w
                   | Some i \<Rightarrow> (PppoeIfs w)[i := (PppoeIfs w ! i)\<lparr>refs := refs (PppoeIfs w ! i) + 1\<rparr>])"
    unfolding i1 by simp
  from reg_okD(2) [OF ok lt] t have pne: "path (info lt) \<noteq> []"
    and pin: "\<And>i. PIf (info lt) = Some i \<Longrightarrow> i < length (PppoeIfs w)"
    by (auto simp: link_reg_ok_def)
  have hl: "holds j (Some l) = (PIf (info lt) = Some j)" for j using t by (simp add: holds_def l_def)
  show ?thesis
  proof (rule reg_ok_store [OF ok kk g])
    show "length (PppoeIfs w') = length (PppoeIfs w)" by (simp add: ifs split: option.splits)
    show "link_reg_ok (length (PppoeIfs w)) (Some l)"
      using pne pin by (auto simp: link_reg_ok_def l_def split: option.splits)
    show "PppoeIfs w' ! j = PppoeIfs w ! j" if "\<not> holds j (Some l)" for j
      using that by (auto simp: ifs hl split: option.splits)
    show "0 < refs (PppoeIfs w ! j) \<and> PppoeIfs w' ! j = (PppoeIfs w ! j)\<lparr>refs := refs (PppoeIfs w ! j) + 1\<rparr>"
      if j: "j < length (PppoeIfs w)" and h: "holds j (Some l)" for j
    proof -
      from h have p: "PIf (info lt) = Some j" by (simp add: hl)
      with t have "holds j (Some lt)" by (simp add: holds_def)
      from holders_pos [OF lt this] reg_okD(3) [OF ok j] have "0 < refs (PppoeIfs w ! j)" by simp
      with p j show ?thesis by (simp add: ifs)
    qed
  qed
qed

lemma find_accepting_pppoe:
  assumes "find_accepting inp p sess w = Some kt" and "get_link w kt = Some lt"
  shows "ltype lt = gPppoePhysType"
proof -
  from assms(1) have "accepts inp p sess kt (gLinks w ! kt)"
    by (auto simp: find_accepting_def find_Some_iff)
  moreover from assms(2) have "gLinks w ! kt = Some lt" by (auto simp: get_link_def split: if_splits)
  ultimately show ?thesis by (simp add: accepts_def)
qed

lemma listen_request_reg:
  assumes run: "listen_request p inp w = Inr w'" and ok: "reg_ok w"
  shows "reg_ok w'"
proof -
  define sess where "sess = drop 7 (rhook inp)"
  define w1 where "w1 = emit (Log LG_PHYS ''Incoming PPPoE connection request'') w"
  define rs where "rs = parse_real_session (frame inp) sess"
  define ids where "ids = fst (decode_agent_ids (frame inp))"
  have "reg_view w1 = reg_view w" by (simp add: w1_def)
  then have ok1: "reg_ok w1" using ok by (rule reg_ok_viewD)
  show ?thesis
  proof (cases "shutting_down inp \<or> overload inp")
    case True
    with run have "\<exists>e. w' = emit e w1"
      by (auto simp: listen_request_def Let_def w1_def split: if_splits)
    then have "reg_view w' = reg_view w1" by auto
    then show ?thesis using ok1 by (rule reg_ok_viewD)
  next
    case False
    show ?thesis
    proof (cases "find_accepting inp p sess w1")
      case None
      with run False have "\<exists>e. w' = emit e w1"
        by (auto simp: listen_request_def Let_def sess_def w1_def)
      then have "reg_view w' = reg_view w1" by auto
      then show ?thesis using ok1 by (rule reg_ok_viewD)
    next
      case (Some kt)
      from run False Some obtain lt where lt: "get_link w1 kt = Some lt"
        by (cases "get_link w1 kt") (simp_all add: listen_request_def Let_def sess_def w1_def)
      have t: "ltype lt = gPppoePhysType" using Some lt by (rule find_accepting_pppoe)
      show ?thesis
      proof (cases "tmpl lt")
        case False
        with run \<open>\<not> (shutting_down inp \<or> overload inp)\<close> Some lt
        have "accept_on kt p inp rs ids w1 = Inr w'"
          unfolding listen_request_def Let_def sess_def w1_def rs_def ids_def by simp
        then have "reg_view w' = reg_view w1" by (rule accept_on_rv)
        then show ?thesis using ok1 by (rule reg_ok_viewD)
      next
        case True
        with run \<open>\<not> (shutting_down inp \<or> overload inp)\<close> Some lt
        have r: "(case LinkInst kt (inst_at inp) (inst_name inp) w1 of
                             Inl f \<Rightarrow> Inl f
                           | Inr (None, w2) \<Rightarrow>
                               Inr (emit (Log LG_PHYS ''No free PPPoE link with requested parameters was found'') w2)
                           | Inr (Some k, w2) \<Rightarrow> accept_on k p inp rs ids w2) = Inr w'"
          unfolding listen_request_def Let_def sess_def w1_def rs_def ids_def by simp
        then obtain ko w2 where li: "LinkInst kt (inst_at inp) (inst_name inp) w1 = Inr (ko, w2)"
          by (cases "LinkInst kt (inst_at inp) (inst_name inp) w1") auto
        have ok2: "reg_ok w2" using li ok1 lt t by (rule LinkInst_reg)
        show ?thesis
        proof (cases ko)
          case None
          with r li have "\<exists>e. w' = emit e w2" by auto
          then have "reg_view w' = reg_view w2" by auto
          then show ?thesis using ok2 by (rule reg_ok_viewD)
        next
          case (Some k)
          with r li have "accept_on k p inp rs ids w2 = Inr w'" by simp
          then have "reg_view w' = reg_view w2" by (rule accept_on_rv)
          then show ?thesis using ok2 by (rule reg_ok_viewD)
        qed
      qed
    qed
  qed
qed

lemma ListenEvent_reg:
  assumes run: "PppoeListenEvent p inp w = Inr w'" and ok: "reg_ok w"
  shows "reg_ok w'"
proof (cases "recv_sz inp = - 1 \<or> recv_sz inp = 0 \<or> take 7 (rhook inp) \<noteq> ''listen-'' \<or>
              (0 \<le> recv_sz inp \<and> recv_sz inp < 20)")
  case True
  with run have "\<exists>e. w' = emit e w" by (auto simp: PppoeListenEvent_def split: if_splits)
  then have "reg_view w' = reg_view w" by auto
  then show ?thesis using ok by (rule reg_ok_viewD)
next
  case False
  with run have "listen_request p inp w = Inr w'" by (auto simp: PppoeListenEvent_def split: if_splits)
  then show ?thesis using ok by (rule listen_request_reg)
qed

lemma is_pppoeD: "is_pppoe w k \<Longrightarrow> \<exists>l. get_link w k = Some l \<and> ltype l = gPppoePhysType"
  by (auto simp: is_pppoe_def split: option.splits)

lemma is_pppoeI: "get_link w k = Some l \<Longrightarrow> ltype l = gPppoePhysType \<Longrightarrow> is_pppoe w k"
  by (simp add: is_pppoe_def)

lemma rv_good:
  "reg_view w' = reg_view w \<Longrightarrow> reg_ok w \<and> is_pppoe w k \<Longrightarrow> reg_ok w' \<and> is_pppoe w' k"
  using reg_ok_viewD [of w' w] is_pppoe_view [of w' w k] by simp

lemma GetNode_good:
  assumes run: "PppoeGetNode k env w = Inr w'" and g: "reg_ok w \<and> is_pppoe w k"
  shows "reg_ok w' \<and> is_pppoe w' k"
proof -
  from g is_pppoeD obtain l where lk: "get_link w k = Some l" and t: "ltype l = gPppoePhysType" by blast
  from g have ok: "reg_ok w" by simp
  have "reg_ok w'" using ok lk t run by (rule GetNode_reg)
  moreover from GetNode_is_pppoe [OF lk run, of k] g have "is_pppoe w' k" by simp
  ultimately show ?thesis by simp
qed

lemma ReleaseNode_good:
  assumes run: "PppoeReleaseNode k w = Inr w'" and g: "reg_ok w \<and> is_pppoe w k"
  shows "reg_ok w' \<and> is_pppoe w' k \<and> (\<exists>l'. get_link w' k = Some l' \<and> PIf (info l') = None)"
proof -
  from g is_pppoeD obtain l where lk: "get_link w k = Some l" and t: "ltype l = gPppoePhysType" by blast
  from g have ok: "reg_ok w" by simp
  from ReleaseNode_reg [OF ok lk t run] show ?thesis by (auto intro: is_pppoeI)
qed

lemma Open_reg:
  assumes run: "PppoeOpen k env w = Inr w'" and g: "reg_ok w \<and> is_pppoe w k"
  shows "reg_ok w'"
proof -
  from g is_pppoeD obtain l where lk: "get_link w k = Some l" and t: "ltype l = gPppoePhysType" by blast
  define l0 where "l0 = Deny LINK_CONF_ACFCOMP (Disable LINK_CONF_ACFCOMP (l\<lparr>info := (info l)\<lparr>opened := 1\<rparr>\<rparr>))"
  define w0 where "w0 = put_link k l0 w"
  have kl: "k < length (gLinks w)" using lk by (rule get_link_length)
  have l0: "get_link w0 k = Some l0" by (simp add: w0_def get_link_put_link kl)
  have "reg_view w0 = reg_view w" unfolding w0_def using lk
    by (rule rv_put_link) (simp_all add: l0_def Deny_def Disable_def)
  from rv_good [OF this g] have g0: "reg_ok w0 \<and> is_pppoe w0 k" .
  have cases: "open_incoming k l0 env w0 = Inr w' \<or>
      w' = emit (Log LG_PHYS ''PPPoE allready active'') w0 \<or> open_outgoing k env w0 = Inr w'"
  proof (cases "incoming (info l0) = 1")
    case True
    with run lk show ?thesis
      by (simp add: PppoeOpen_def Let_def l0_def [symmetric] w0_def)
  next
    case out: False
    show ?thesis
    proof (cases "state l0 = PHYS_STATE_DOWN")
      case True
      with out run lk show ?thesis
        by (simp add: PppoeOpen_def Let_def l0_def [symmetric] w0_def)
    next
      case False
      with out run lk show ?thesis
        by (auto simp: PppoeOpen_def Let_def l0_def [symmetric] w0_def)
    qed
  qed
  then show ?thesis
  proof (elim disjE)
    assume "open_incoming k l0 env w0 = Inr w'"
    with l0 have "reg_view w' = reg_view w0" by (rule open_incoming_rv)
    from rv_good [OF this g0] show ?thesis by simp
  next
    assume "w' = emit (Log LG_PHYS ''PPPoE allready active'') w0"
    then have "reg_view w' = reg_view w0" by simp
    from rv_good [OF this g0] show ?thesis by simp
  next
    assume oo: "open_outgoing k env w0 = Inr w'"
    then obtain w1 where gn: "PppoeGetNode k (node_env env) w0 = Inr w1" and oc: "open_connect k env w1 = Inr w'"
      by (auto simp: open_outgoing_def split: sum.splits)
    from GetNode_good [OF gn g0] have g1: "reg_ok w1 \<and> is_pppoe w1 k" .
    from oc have "reg_view w' = reg_view w1" by (rule open_connect_rv)
    from rv_good [OF this g1] show ?thesis by simp
  qed
qed

lemma NodeUpdate_reg:
  assumes run: "PppoeNodeUpdate k cenv lenv w = Inr w'" and g: "reg_ok w \<and> is_pppoe w k"
  shows "reg_ok w'"
proof -
  from run obtain l where lk: "get_link w k = Some l"
    by (cases "get_link w k") (simp_all add: PppoeNodeUpdate_def)
  show ?thesis
  proof (cases "plist (info l) = None")
    case True
    show ?thesis
    proof (cases "Enabled l LINK_CONF_INCOMING")
      case en: True
      with run lk True
      have "(case PppoeGetNode k cenv w of Inl f \<Rightarrow> Inl f | Inr w1 \<Rightarrow> PppoeListen k lenv w1) = Inr w'"
        by (simp add: PppoeNodeUpdate_def)
      from bind_Inr [OF this] obtain w1 where gn: "PppoeGetNode k cenv w = Inr w1"
        and li: "PppoeListen k lenv w1 = Inr w'" by auto
      from GetNode_good [OF gn g] have g1: "reg_ok w1 \<and> is_pppoe w1 k" .
      from li have "reg_view w' = reg_view w1" by (rule Listen_rv)
      from rv_good [OF this g1] show ?thesis by simp
    next
      case False
      with run lk True have "w' = w" by (simp add: PppoeNodeUpdate_def)
      with g show ?thesis by simp
    qed
  next
    case False
    show ?thesis
    proof (cases "Enabled l LINK_CONF_INCOMING")
      case True
      with run lk False have "w' = w" by (simp add: PppoeNodeUpdate_def)
      with g show ?thesis by simp
    next
      case dis: False
      with run lk False
      have "(case PppoeUnListen k w of Inl f \<Rightarrow> Inl f
             | Inr w1 \<Rightarrow> if state l = PHYS_STATE_DOWN then PppoeReleaseNode k w1 else Inr w1) = Inr w'"
        by (simp add: PppoeNodeUpdate_def)
      from bind_Inr [OF this] obtain w1 where u: "PppoeUnListen k w = Inr w1"
        and r: "(if state l = PHYS_STATE_DOWN then PppoeReleaseNode k w1 else Inr w1) = Inr w'" by auto
      from u have "reg_view w1 = reg_view w" by (rule UnListen_rv)
      from rv_good [OF this g] have g1: "reg_ok w1 \<and> is_pppoe w1 k" .
      show ?thesis
      proof (cases "state l = PHYS_STATE_DOWN")
        case True
        with r have "PppoeReleaseNode k w1 = Inr w'" by simp
        from ReleaseNode_good [OF this g1] show ?thesis by simp
      next
        case False
        with r g1 show ?thesis by simp
      qed
    qed
  qed
qed

lemma LinkShutdown_reg:
  assumes run: "LinkShutdown k w = Inr w'" and g: "reg_ok w \<and> is_pppoe w k"
  shows "reg_ok w'"
proof -
  from run obtain w3 where sd: "PppoeShutdown k w = Inr w3" and b: "w' = w3\<lparr>gLinks := (gLinks w3)[k := None]\<rparr>"
    unfolding LinkShutdown_def by (cases "PppoeShutdown k w") auto
  from sd obtain w1 where a: "PppoeDoClose k w = Inr w1"
    and bc: "(case PppoeUnListen k w1 of Inl f \<Rightarrow> Inl f | Inr w2 \<Rightarrow> PppoeReleaseNode k w2) = Inr w3"
    unfolding PppoeShutdown_def by (blast dest: bind_Inr)
  from bind_Inr [OF bc] obtain w2 where u: "PppoeUnListen k w1 = Inr w2"
    and c: "PppoeReleaseNode k w2 = Inr w3" by auto
  from a have "reg_view w1 = reg_view w" by (rule DoClose_rv)
  from rv_good [OF this g] have g1: "reg_ok w1 \<and> is_pppoe w1 k" .
  from u have "reg_view w2 = reg_view w1" by (rule UnListen_rv)
  from rv_good [OF this g1] have g2: "reg_ok w2 \<and> is_pppoe w2 k" .
  from ReleaseNode_good [OF c g2] obtain l' where ok3: "reg_ok w3" and l': "get_link w3 k = Some l'"
    and n: "PIf (info l') = None" by auto
  show ?thesis unfolding b using ok3 l' by (rule reg_ok_remove) (simp add: n)
qed

lemma relisten_iface_reg:
  assumes run: "relisten_iface k cenv lenv w = Inr w'" and g: "reg_ok w \<and> is_pppoe w k"
  shows "reg_ok w'"
proof -
  from bind_Inr [OF run [unfolded relisten_iface_def]] obtain w1 where a: "PppoeUnListen k w = Inr w1"
    and r1: "(case PppoeReleaseNode k w1 of Inl f \<Rightarrow> Inl f
              | Inr w2 \<Rightarrow> (case PppoeGetNode k cenv w2 of Inl f \<Rightarrow> Inl f | Inr w3 \<Rightarrow> PppoeListen k lenv w3)) = Inr w'"
    by auto
  from bind_Inr [OF r1] obtain w2 where b: "PppoeReleaseNode k w1 = Inr w2"
    and r2: "(case PppoeGetNode k cenv w2 of Inl f \<Rightarrow> Inl f | Inr w3 \<Rightarrow> PppoeListen k lenv w3) = Inr w'"
    by auto
  from bind_Inr [OF r2] obtain w3 where c: "PppoeGetNode k cenv w2 = Inr w3"
    and d: "PppoeListen k lenv w3 = Inr w'" by auto
  from a have "reg_view w1 = reg_view w" by (rule UnListen_rv)
  from rv_good [OF this g] have g1: "reg_ok w1 \<and> is_pppoe w1 k" .
  from ReleaseNode_good [OF b g1] have g2: "reg_ok w2 \<and> is_pppoe w2 k" by simp
  from GetNode_good [OF c g2] have g3: "reg_ok w3 \<and> is_pppoe w3 k" .
  from d have "reg_view w' = reg_view w3" by (rule Listen_rv)
  from rv_good [OF this g3] show ?thesis by simp
qed

lemma set_iface_reg:
  assumes run: "set_iface k l name hookname cenv lenv w = Inr (st, w')" and g: "reg_ok w \<and> is_pppoe w k"
  shows "reg_ok w'"
proof -
  define f :: "pppoeinfo \<Rightarrow> pppoeinfo" where "f = (\<lambda>pi. pi\<lparr>iface := strlcpy name IFNAMSIZ,
                                   path := iface_path (strlcpy name IFNAMSIZ),
                                   hook := strlcpy hookname NG_HOOKSIZ\<rparr>)"
  define w1 where "w1 = set_info k f w"
  have "reg_view w1 = reg_view w" unfolding w1_def
    by (rule set_info_path_rv) (use g in \<open>simp_all add: f_def iface_path_def\<close>)
  from rv_good [OF this g] have g1: "reg_ok w1 \<and> is_pppoe w1 k" .
  show ?thesis
  proof (cases "plist (info l) \<noteq> None")
    case True
    with run have "(case relisten_iface k cenv lenv w1 of Inl f \<Rightarrow> Inl f | Inr w2 \<Rightarrow> Inr (CmdOk, w2)) = Inr (st, w')"
      by (simp add: set_iface_def Let_def f_def w1_def)
    then have "relisten_iface k cenv lenv w1 = Inr w'"
      by (cases "relisten_iface k cenv lenv w1") auto
    then show ?thesis using g1 by (rule relisten_iface_reg)
  next
    case False
    with run have "w' = w1" by (simp add: set_iface_def Let_def f_def w1_def)
    with g1 show ?thesis by simp
  qed
qed

lemma set_session_reg:
  assumes run: "(let w1 = set_info k (\<lambda>pi. pi\<lparr>session := strlcpy name MAX_SESSION\<rparr>) w
                    in if plist (info l) \<noteq> None then
                         (case PppoeUnListen k w1 of
                            Inl f \<Rightarrow> Inl f
                          | Inr w2 \<Rightarrow> (case PppoeListen k lenv w2 of
                              Inl f \<Rightarrow> Inl f
                            | Inr w3 \<Rightarrow> Inr (CmdOk, w3)))
                       else Inr (CmdOk, w1)) = Inr (st, w')"
    and g: "reg_ok w \<and> is_pppoe w k"
  shows "reg_ok w'"
proof -
  define f :: "pppoeinfo \<Rightarrow> pppoeinfo" where "f = (\<lambda>pi. pi\<lparr>session := strlcpy name MAX_SESSION\<rparr>)"
  define w1 where "w1 = set_info k f w"
  have "reg_view w1 = reg_view w" unfolding w1_def by (rule set_info_rv) (simp add: f_def)
  from rv_good [OF this g] have g1: "reg_ok w1 \<and> is_pppoe w1 k" .
  show ?thesis
  proof (cases "plist (info l) \<noteq> None")
    case True
    with run have r: "(case PppoeUnListen k w1 of
                            Inl f \<Rightarrow> Inl f
                          | Inr w2 \<Rightarrow> (case PppoeListen k lenv w2 of
                              Inl f \<Rightarrow> Inl f
                            | Inr w3 \<Rightarrow> Inr (CmdOk, w3))) = Inr (st, w')"
      by (simp add: Let_def f_def w1_def)
    from bind_Inr [OF r] obtain w2 where a: "PppoeUnListen k w1 = Inr w2"
      and r2: "(case PppoeListen k lenv w2 of Inl f \<Rightarrow> Inl f | Inr w3 \<Rightarrow> Inr (CmdOk, w3)) = Inr (st, w')"
      by auto
    from r2 have b: "PppoeListen k lenv w2 = Inr w'" by (cases "PppoeListen k lenv w2") auto
    from a have "reg_view w2 = reg_view w1" by (rule UnListen_rv)
    from rv_good [OF this g1] have g2: "reg_ok w2 \<and> is_pppoe w2 k" .
    from b have "reg_view w' = reg_view w2" by (rule Listen_rv)
    from rv_good [OF this g2] show ?thesis by simp
  next
    case False
    with run have "w' = w1" by (simp add: Let_def f_def w1_def)
    with g1 show ?thesis by simp
  qed
qed

lemma set_info_reg:
  "(\<And>pi. PIf (f pi) = PIf pi \<and> path (f pi) = path pi) \<Longrightarrow> reg_ok w \<Longrightarrow> reg_ok (set_info k f w)"
  using set_info_rv [of f k w] reg_ok_viewD [of "set_info k f w" w] by simp

lemma SetCommand_reg:
  assumes run: "PppoeSetCommand k av arg cenv lenv w = Inr (st, w')" and g: "reg_ok w \<and> is_pppoe w k"
  shows "reg_ok w'"
proof -
  from run obtain l where lk: "get_link w k = Some l"
    by (cases "get_link w k") (simp_all add: PppoeSetCommand_def)
  from g have ok: "reg_ok w" by simp
  show ?thesis
  proof (cases arg)
    case SET_IFACE
    with run lk consider name hookname where "set_iface k l name hookname cenv lenv w = Inr (st, w')" | "w' = w"
      by (auto simp: PppoeSetCommand_def split: list.splits)
    then show ?thesis
    proof cases
      case 1
      then show ?thesis using g by (rule set_iface_reg)
    next
      case 2
      with ok show ?thesis by simp
    qed
  next
    case SET_SESSION
    with run lk consider name where "(let w1 = set_info k (\<lambda>pi. pi\<lparr>session := strlcpy name MAX_SESSION\<rparr>) w
                    in if plist (info l) \<noteq> None then
                         (case PppoeUnListen k w1 of
                            Inl f \<Rightarrow> Inl f
                          | Inr w2 \<Rightarrow> (case PppoeListen k lenv w2 of
                              Inl f \<Rightarrow> Inl f
                            | Inr w3 \<Rightarrow> Inr (CmdOk, w3)))
                       else Inr (CmdOk, w1)) = Inr (st, w')" | "w' = w"
      by (auto simp: PppoeSetCommand_def split: list.splits)
    then show ?thesis
    proof cases
      case 1
      then show ?thesis using g by (rule set_session_reg)
    next
      case 2
      with ok show ?thesis by simp
    qed
  next
    case SET_ACNAME
    with run lk ok show ?thesis
      by (auto simp: PppoeSetCommand_def set_info_reg split: list.splits)
  next
    case SET_MAX_PAYLOAD
    with run lk ok show ?thesis
      by (auto simp: PppoeSetCommand_def Let_def set_info_reg split: list.splits if_splits)
  next
    case SET_MAC_FORMAT
    with run lk ok show ?thesis
      by (auto simp: PppoeSetCommand_def set_info_reg split: list.splits if_splits)
  next
    case SET_OTHER
    with run lk show ?thesis by (simp add: PppoeSetCommand_def)
  qed
qed

lemma reach_iface: "reachable world_iface"
proof -
  define w1 where "w1 = store_link 0 (new_link 0 ''L1'' False True {LINK_CONF_ACFCOMP} {LINK_CONF_ACFCOMP}) (boot 100 2)"
  have r1: "reachable w1" unfolding w1_def
    by (rule r_create [OF r_boot]) (simp_all add: boot_def get_link_def)
  have p: "is_pppoe w1 0" unfolding w1_def by code_simp
  have e: "PppoeSetCommand 0 [''em0''] SET_IFACE (node_env env_ok) env_listen w1 = Inr (CmdOk, world_iface)"
    unfolding w1_def by code_simp
  from r1 p e show ?thesis by (rule r_set)
qed

lemma reach_cfg: "reachable world_cfg"
proof -
  have p: "is_pppoe world_iface 0" by code_simp
  have e: "PppoeSetCommand 0 [''isp''] SET_SESSION (node_env env_ok) env_listen world_iface = Inr (CmdOk, world_cfg)"
    by code_simp
  from reach_iface p e show ?thesis by (rule r_set)
qed

lemma reach_two_iface: "reachable world_two_iface"
proof -
  define w1 where "w1 = store_link 1 (new_link 1 ''L2'' False True {LINK_CONF_ACFCOMP} {LINK_CONF_ACFCOMP}) world_cfg"
  have r1: "reachable w1" unfolding w1_def
    by (rule r_create [OF reach_cfg]) (simp_all add: world_cfg_def get_link_def)
  have p: "is_pppoe w1 1" unfolding w1_def by code_simp
  have e: "PppoeSetCommand 1 [''em0''] SET_IFACE (node_env env_ok) env_listen w1 = Inr (CmdOk, world_two_iface)"
    unfolding w1_def by code_simp
  from r1 p e show ?thesis by (rule r_set)
qed

lemma reach_two_cfg: "reachable world_two_cfg"
proof -
  have p: "is_pppoe world_two_iface 1" by code_simp
  have e: "PppoeSetCommand 1 [''isp''] SET_SESSION (node_env env_ok) env_listen world_two_iface = Inr (CmdOk, world_two_cfg)"
    by code_simp
  from reach_two_iface p e show ?thesis by (rule r_set)
qed

lemma reach_two: "reachable world_two"
proof -
  have p: "is_pppoe world_two_cfg 0" by code_simp
  have e: "PppoeOpen 0 env_ok world_two_cfg = Inr world_two" by code_simp
  from reach_two_cfg p e show ?thesis by (rule r_open)
qed

lemma new_link_reg:
  "ltype (new_link k name t s en ac) = gPppoePhysType \<longrightarrow>
   PIf (info (new_link k name t s en ac)) = None \<and> path (info (new_link k name t s en ac)) \<noteq> []"
  by (simp add: new_link_def PppoeInit_def zeroed_info_def MAX_PATH_def)

lemma reachable_reg_ok: "reachable w \<Longrightarrow> reg_ok w"
proof (induction rule: reachable.induct)
  case (r_boot pid n)
  show ?case by (simp add: reg_ok_def boot_def slot_ok_def zero_if_def list_all_length holders_def)
next
  case (r_create w k a b c d e)
  show ?case using r_create.IH r_create.hyps(2,3) new_link_reg by (rule store_link_reg)
next
  case (r_other w k l)
  show ?case using r_other.IH r_other.hyps(2,3) by (rule store_link_reg) (use r_other.hyps(4) in simp)
next
  case (r_options w k l a b c)
  have "reg_view (put_link k (l\<lparr>stay := s, opt_enable := en, opt_accept := ac\<rparr>) w) = reg_view w" for s en ac
    using r_options.hyps(2) by (rule rv_put_link) simp_all
  then show ?case using r_options.IH by (rule reg_ok_viewD)
next
  case (r_open w k env w')
  then show ?case using Open_reg by blast
next
  case (r_close w k w')
  from r_close.hyps(3) have "reg_view w' = reg_view w" by (rule Close_rv)
  then show ?case using r_close.IH by (rule reg_ok_viewD)
next
  case (r_timeout w k w')
  from r_timeout.hyps(4) have "reg_view w' = reg_view w" by (rule Timeout_rv)
  then show ?case using r_timeout.IH by (rule reg_ok_viewD)
next
  case (r_ctrl w p rcv w')
  from r_ctrl.hyps(3) have "reg_view w' = reg_view w" by (rule Ctrl_rv)
  then show ?case using r_ctrl.IH by (rule reg_ok_viewD)
next
  case (r_listen w p inp w')
  then show ?case using ListenEvent_reg by blast
next
  case (r_set w k av arg cenv lenv st w')
  then show ?case using SetCommand_reg by blast
next
  case (r_update w k cenv lenv w')
  then show ?case using NodeUpdate_reg by blast
next
  case (r_shutdown w k w')
  then show ?case using LinkShutdown_reg by blast
qed

lemma GetNode_attach:
  assumes ok: "reg_ok w" and lk: "get_link w k = Some l" and t: "ltype l = gPppoePhysType"
    and none: "PIf (info l) = None"
    and ex: "\<exists>j < length (PppoeIfs w). ifnodepath (PppoeIfs w ! j) = path (info l)"
  shows "\<exists>j < length (PppoeIfs w). ifnodepath (PppoeIfs w ! j) = path (info l) \<and>
           PppoeGetNode k env w = Inr (put_link k (l\<lparr>info := (info l)\<lparr>PIf := Some j\<rparr>\<rparr>)
             (put_if j ((PppoeIfs w ! j)\<lparr>refs := refs (PppoeIfs w ! j) + 1\<rparr>) w))"
proof -
  define P where "P j = (j < length (PppoeIfs w) \<and> ifnodepath (PppoeIfs w ! j) = path (info l))" for j
  from ex have "\<exists>j. P j" by (auto simp: P_def)
  then obtain j where j: "P j" and least: "\<forall>m < j. \<not> P m" using exists_least_iff [of P] by blast
  from j have jl: "j < length (PppoeIfs w)" and pj: "ifnodepath (PppoeIfs w ! j) = path (info l)"
    by (simp_all add: P_def)
  from least jl have first: "\<forall>m < j. ifnodepath (PppoeIfs w ! m) \<noteq> path (info l)"
    by (auto simp: P_def)
  from reg_okD(2) [OF ok lk] t have pne: "path (info l) \<noteq> []" by (simp add: link_reg_ok_def)
  from reg_okD(1) [OF ok jl] pj pne have pu: "path (info l) \<noteq> ''undefined:''"
    by (auto simp: slot_ok_def)
  from scan_ifs_first [OF jl pj pne first, of 0 None]
  obtain fr where sc: "scan_ifs (PppoeIfs w) (path (info l)) 0 None = (Some j, fr)" by auto
  from none pu have c: "\<not> (PIf (info l) \<noteq> None \<or> path (info l) = ''undefined:'')" by simp
  have "PppoeGetNode k env w = Inr (put_link k (l\<lparr>info := (info l)\<lparr>PIf := Some j\<rparr>\<rparr>)
             (put_if j ((PppoeIfs w ! j)\<lparr>refs := refs (PppoeIfs w ! j) + 1\<rparr>) w))"
    using lk none pu sc by (simp add: PppoeGetNode_def)
  with jl pj show ?thesis by blast
qed

lemma ReleaseNode_detach:
  assumes ok: "reg_ok w" and lk: "get_link w k = Some l" and t: "ltype l = gPppoePhysType"
    and some: "PIf (info l) = Some i"
  shows "i < length (PppoeIfs w) \<and> 0 < refs (PppoeIfs w ! i) \<and>
         PppoeReleaseNode k w = Inr (put_link k (l\<lparr>info := (info l)\<lparr>PIf := None\<rparr>\<rparr>)
           (if refs (PppoeIfs w ! i) = 1
            then emit (CloseFd (dsock (PppoeIfs w ! i))) (emit (CloseFd (csock (PppoeIfs w ! i)))
                   (put_if i ((PppoeIfs w ! i)\<lparr>refs := 0, ifnodepath := [], node_id := 0,
                                ctrlEvent := False, dataEvent := False, csock := - 1, dsock := - 1\<rparr>) w))
            else put_if i ((PppoeIfs w ! i)\<lparr>refs := refs (PppoeIfs w ! i) - 1\<rparr>) w))"
proof -
  from reg_okD(2) [OF ok lk] t some have i: "i < length (PppoeIfs w)" by (simp add: link_reg_ok_def)
  have hl: "holds i (Some l)" using t some by (simp add: holds_def)
  from holders_pos [OF lk hl] reg_okD(3) [OF ok i] have rp: "0 < refs (PppoeIfs w ! i)" by simp
  from i have gi: "get_if w i = Some (PppoeIfs w ! i)" by (simp add: get_if_def)
  have "PppoeReleaseNode k w = Inr (put_link k (l\<lparr>info := (info l)\<lparr>PIf := None\<rparr>\<rparr>)
           (if refs (PppoeIfs w ! i) = 1
            then emit (CloseFd (dsock (PppoeIfs w ! i))) (emit (CloseFd (csock (PppoeIfs w ! i)))
                   (put_if i ((PppoeIfs w ! i)\<lparr>refs := 0, ifnodepath := [], node_id := 0,
                                ctrlEvent := False, dataEvent := False, csock := - 1, dsock := - 1\<rparr>) w))
            else put_if i ((PppoeIfs w ! i)\<lparr>refs := refs (PppoeIfs w ! i) - 1\<rparr>) w))"
    using lk some gi by (simp add: PppoeReleaseNode_def Let_def)
  with i rp show ?thesis by simp
qed

text \<open>
  C7. In every reachable state, an entry of the parent table has \<open>refs > 0\<close> exactly
  when both its sockets are valid (\<open>csock \<ge> 0\<close> and \<open>dsock \<ge> 0\<close>) and its node path is
  not empty. When PppoeGetNode acquires a parent for a PPPoE link that has none and the
  node path of the link is that of an entry of the table, the link is attached to such
  an entry and the reference count of that entry is incremented; nothing else changes
  in the table and no call is made. When PppoeReleaseNode releases the parent of a
  PPPoE link, the reference count of its entry, which was positive, is decremented and
  the link has no parent afterwards; when the count reaches zero both sockets are
  closed and the slot is cleared (no path, no node id, no events, both descriptors -1),
  otherwise no call is made and the rest of the entry is kept.
\<close>

theorem parent_table_refcount:
  "reachable w \<Longrightarrow>
   (\<forall>n < length (PppoeIfs w).
      (0 < refs (PppoeIfs w ! n)) =
      (0 \<le> csock (PppoeIfs w ! n) \<and> 0 \<le> dsock (PppoeIfs w ! n) \<and> ifnodepath (PppoeIfs w ! n) \<noteq> [])) \<and>
   (get_link w k = Some l \<and> ltype l = gPppoePhysType \<and> PIf (info l) = None \<and>
    (\<exists>j < length (PppoeIfs w). ifnodepath (PppoeIfs w ! j) = path (info l)) \<longrightarrow>
    (\<exists>j w'. j < length (PppoeIfs w) \<and> ifnodepath (PppoeIfs w ! j) = path (info l) \<and>
       PppoeGetNode k env w = Inr w' \<and>
       get_link w' k = Some (l\<lparr>info := (info l)\<lparr>PIf := Some j\<rparr>\<rparr>) \<and>
       PppoeIfs w' = (PppoeIfs w)[j := (PppoeIfs w ! j)\<lparr>refs := refs (PppoeIfs w ! j) + 1\<rparr>] \<and>
       trace w' = trace w)) \<and>
   (get_link w r = Some lr \<and> ltype lr = gPppoePhysType \<and> PIf (info lr) = Some i \<longrightarrow>
    i < length (PppoeIfs w) \<and> 0 < refs (PppoeIfs w ! i) \<and>
    (\<exists>w'. PppoeReleaseNode r w = Inr w' \<and>
       get_link w' r = Some (lr\<lparr>info := (info lr)\<lparr>PIf := None\<rparr>\<rparr>) \<and>
       refs (PppoeIfs w' ! i) = refs (PppoeIfs w ! i) - 1 \<and>
       (if refs (PppoeIfs w' ! i) = 0
        then trace w' = trace w @ [CloseFd (csock (PppoeIfs w ! i)), CloseFd (dsock (PppoeIfs w ! i))] \<and>
             ifnodepath (PppoeIfs w' ! i) = [] \<and> node_id (PppoeIfs w' ! i) = 0 \<and>
             csock (PppoeIfs w' ! i) = - 1 \<and> dsock (PppoeIfs w' ! i) = - 1 \<and>
             \<not> ctrlEvent (PppoeIfs w' ! i) \<and> \<not> dataEvent (PppoeIfs w' ! i)
        else trace w' = trace w \<and>
             PppoeIfs w' ! i = (PppoeIfs w ! i)\<lparr>refs := refs (PppoeIfs w ! i) - 1\<rparr>)))"
proof -
  assume "reachable w"
  then have ok: "reg_ok w" by (rule reachable_reg_ok)
  have inv: "\<forall>n < length (PppoeIfs w).
      (0 < refs (PppoeIfs w ! n)) =
      (0 \<le> csock (PppoeIfs w ! n) \<and> 0 \<le> dsock (PppoeIfs w ! n) \<and> ifnodepath (PppoeIfs w ! n) \<noteq> [])"
  proof (intro allI impI)
    fix n assume "n < length (PppoeIfs w)"
    from reg_okD(1) [OF ok this] show "(0 < refs (PppoeIfs w ! n)) =
      (0 \<le> csock (PppoeIfs w ! n) \<and> 0 \<le> dsock (PppoeIfs w ! n) \<and> ifnodepath (PppoeIfs w ! n) \<noteq> [])"
      by (auto simp: slot_ok_def)
  qed
  have acq: "\<exists>j w'. j < length (PppoeIfs w) \<and> ifnodepath (PppoeIfs w ! j) = path (info l) \<and>
       PppoeGetNode k env w = Inr w' \<and>
       get_link w' k = Some (l\<lparr>info := (info l)\<lparr>PIf := Some j\<rparr>\<rparr>) \<and>
       PppoeIfs w' = (PppoeIfs w)[j := (PppoeIfs w ! j)\<lparr>refs := refs (PppoeIfs w ! j) + 1\<rparr>] \<and>
       trace w' = trace w"
    if h: "get_link w k = Some l \<and> ltype l = gPppoePhysType \<and> PIf (info l) = None \<and>
           (\<exists>j < length (PppoeIfs w). ifnodepath (PppoeIfs w ! j) = path (info l))"
  proof -
    from h have lk: "get_link w k = Some l" by simp
    from h GetNode_attach [OF ok, of k l env]
    obtain j where j: "j < length (PppoeIfs w)" "ifnodepath (PppoeIfs w ! j) = path (info l)"
      and g: "PppoeGetNode k env w = Inr (put_link k (l\<lparr>info := (info l)\<lparr>PIf := Some j\<rparr>\<rparr>)
             (put_if j ((PppoeIfs w ! j)\<lparr>refs := refs (PppoeIfs w ! j) + 1\<rparr>) w))" by blast
    have kl: "k < length (gLinks w)" using lk by (rule get_link_length)
    define w' where "w' = put_link k (l\<lparr>info := (info l)\<lparr>PIf := Some j\<rparr>\<rparr>)
             (put_if j ((PppoeIfs w ! j)\<lparr>refs := refs (PppoeIfs w ! j) + 1\<rparr>) w)"
    have "get_link w' k = Some (l\<lparr>info := (info l)\<lparr>PIf := Some j\<rparr>\<rparr>)"
      "PppoeIfs w' = (PppoeIfs w)[j := (PppoeIfs w ! j)\<lparr>refs := refs (PppoeIfs w ! j) + 1\<rparr>]"
      "trace w' = trace w"
      using kl by (simp_all add: w'_def put_link_def put_if_def get_link_def)
    with j g show ?thesis unfolding w'_def [symmetric] by blast
  qed
  have rel: "i < length (PppoeIfs w) \<and> 0 < refs (PppoeIfs w ! i) \<and>
    (\<exists>w'. PppoeReleaseNode r w = Inr w' \<and>
       get_link w' r = Some (lr\<lparr>info := (info lr)\<lparr>PIf := None\<rparr>\<rparr>) \<and>
       refs (PppoeIfs w' ! i) = refs (PppoeIfs w ! i) - 1 \<and>
       (if refs (PppoeIfs w' ! i) = 0
        then trace w' = trace w @ [CloseFd (csock (PppoeIfs w ! i)), CloseFd (dsock (PppoeIfs w ! i))] \<and>
             ifnodepath (PppoeIfs w' ! i) = [] \<and> node_id (PppoeIfs w' ! i) = 0 \<and>
             csock (PppoeIfs w' ! i) = - 1 \<and> dsock (PppoeIfs w' ! i) = - 1 \<and>
             \<not> ctrlEvent (PppoeIfs w' ! i) \<and> \<not> dataEvent (PppoeIfs w' ! i)
        else trace w' = trace w \<and>
             PppoeIfs w' ! i = (PppoeIfs w ! i)\<lparr>refs := refs (PppoeIfs w ! i) - 1\<rparr>))"
    if h: "get_link w r = Some lr \<and> ltype lr = gPppoePhysType \<and> PIf (info lr) = Some i"
  proof -
    from h have lk: "get_link w r = Some lr" by simp
    define e where "e = PppoeIfs w ! i"
    define w' where "w' = put_link r (lr\<lparr>info := (info lr)\<lparr>PIf := None\<rparr>\<rparr>)
           (if refs e = 1
            then emit (CloseFd (dsock e)) (emit (CloseFd (csock e))
                   (put_if i (e\<lparr>refs := 0, ifnodepath := [], node_id := 0,
                                ctrlEvent := False, dataEvent := False, csock := - 1, dsock := - 1\<rparr>) w))
            else put_if i (e\<lparr>refs := refs e - 1\<rparr>) w)"
    from h ReleaseNode_detach [OF ok, of r lr i]
    have i: "i < length (PppoeIfs w)" and rp: "0 < refs e" and g: "PppoeReleaseNode r w = Inr w'"
      by (simp_all add: e_def w'_def)
    have kl: "r < length (gLinks w)" using lk by (rule get_link_length)
    have a: "get_link w' r = Some (lr\<lparr>info := (info lr)\<lparr>PIf := None\<rparr>\<rparr>)"
      using kl by (simp add: w'_def put_link_def put_if_def emit_def get_link_def)
    have b: "refs (PppoeIfs w' ! i) = refs e - 1"
      using i by (simp add: w'_def put_link_def put_if_def emit_def)
    have c: "trace w' = trace w @ [CloseFd (csock e), CloseFd (dsock e)] \<and>
             ifnodepath (PppoeIfs w' ! i) = [] \<and> node_id (PppoeIfs w' ! i) = 0 \<and>
             csock (PppoeIfs w' ! i) = - 1 \<and> dsock (PppoeIfs w' ! i) = - 1 \<and>
             \<not> ctrlEvent (PppoeIfs w' ! i) \<and> \<not> dataEvent (PppoeIfs w' ! i)" if "refs e = 1"
      using i that by (simp add: w'_def put_link_def put_if_def emit_def)
    have d: "trace w' = trace w \<and> PppoeIfs w' ! i = e\<lparr>refs := refs e - 1\<rparr>" if "refs e \<noteq> 1"
      using i that by (simp add: w'_def put_link_def put_if_def emit_def)
    have "(if refs (PppoeIfs w' ! i) = 0
        then trace w' = trace w @ [CloseFd (csock e), CloseFd (dsock e)] \<and>
             ifnodepath (PppoeIfs w' ! i) = [] \<and> node_id (PppoeIfs w' ! i) = 0 \<and>
             csock (PppoeIfs w' ! i) = - 1 \<and> dsock (PppoeIfs w' ! i) = - 1 \<and>
             \<not> ctrlEvent (PppoeIfs w' ! i) \<and> \<not> dataEvent (PppoeIfs w' ! i)
        else trace w' = trace w \<and> PppoeIfs w' ! i = e\<lparr>refs := refs e - 1\<rparr>)"
      using b c d by (cases "refs e = 1") simp_all
    with i rp g a b show ?thesis unfolding e_def [symmetric] by blast
  qed
  from inv acq rel show ?thesis by blast
qed

lemma two_links:
  "get_link world_two 1 = Some link_two" "ltype link_two = gPppoePhysType" "PIf (info link_two) = None"
  "get_link world_two 0 = Some link_opened" "ltype link_opened = gPppoePhysType"
  "PIf (info link_opened) = Some 1" "length (PppoeIfs world_two) = 2"
  "PppoeIfs world_two ! 1 = if_em0" "path (info link_two) = ''em0:''"
  by (simp_all add: world_two_def world_opened_def world_cfg_def link_two_def link_opened_def
      link_cfg_def info_cfg_def get_link_def)

theorem parent_table_refcount_witness:
  "reachable world_two \<and>
   (0 < refs if_em0) = (0 \<le> csock if_em0 \<and> 0 \<le> dsock if_em0 \<and> ifnodepath if_em0 \<noteq> []) \<and>
   get_link world_two 1 = Some link_two \<and> PIf (info link_two) = None \<and>
   ifnodepath (PppoeIfs world_two ! 1) = path (info link_two) \<and>
   (\<exists>j w'. j < 2 \<and> ifnodepath (PppoeIfs world_two ! j) = ''em0:'' \<and>
       PppoeGetNode 1 (node_env env_ok) world_two = Inr w' \<and>
       get_link w' 1 = Some (link_two\<lparr>info := (info link_two)\<lparr>PIf := Some j\<rparr>\<rparr>) \<and>
       PppoeIfs w' = (PppoeIfs world_two)[j := (PppoeIfs world_two ! j)\<lparr>refs := refs (PppoeIfs world_two ! j) + 1\<rparr>] \<and>
       trace w' = trace world_two) \<and>
   get_link world_two 0 = Some link_opened \<and> PIf (info link_opened) = Some 1 \<and>
   (\<exists>w'. PppoeReleaseNode 0 world_two = Inr w' \<and>
       get_link w' 0 = Some (link_opened\<lparr>info := (info link_opened)\<lparr>PIf := None\<rparr>\<rparr>) \<and>
       refs (PppoeIfs w' ! 1) = 0 \<and>
       trace w' = trace world_two @ [CloseFd 3, CloseFd 4] \<and>
       ifnodepath (PppoeIfs w' ! 1) = [] \<and> csock (PppoeIfs w' ! 1) = - 1 \<and> dsock (PppoeIfs w' ! 1) = - 1)"
proof -
  have ex: "\<exists>j < length (PppoeIfs world_two). ifnodepath (PppoeIfs world_two ! j) = path (info link_two)"
    using two_links(7,8,9) by (intro exI [of _ 1]) (simp add: if_em0_def)
  have e: "refs if_em0 = 1" "csock if_em0 = 3" "dsock if_em0 = 4" "ifnodepath if_em0 = ''em0:''"
    by (simp_all add: if_em0_def)
  from parent_table_refcount [OF reach_two, where k = 1 and l = link_two and env = "node_env env_ok"
      and r = 0 and lr = link_opened and i = 1]
  have inv: "\<forall>n < length (PppoeIfs world_two).
      (0 < refs (PppoeIfs world_two ! n)) =
      (0 \<le> csock (PppoeIfs world_two ! n) \<and> 0 \<le> dsock (PppoeIfs world_two ! n) \<and>
       ifnodepath (PppoeIfs world_two ! n) \<noteq> [])"
    and acq: "\<exists>j w'. j < length (PppoeIfs world_two) \<and>
       ifnodepath (PppoeIfs world_two ! j) = path (info link_two) \<and>
       PppoeGetNode 1 (node_env env_ok) world_two = Inr w' \<and>
       get_link w' 1 = Some (link_two\<lparr>info := (info link_two)\<lparr>PIf := Some j\<rparr>\<rparr>) \<and>
       PppoeIfs w' = (PppoeIfs world_two)[j := (PppoeIfs world_two ! j)\<lparr>refs := refs (PppoeIfs world_two ! j) + 1\<rparr>] \<and>
       trace w' = trace world_two"
    and rel: "\<exists>w'. PppoeReleaseNode 0 world_two = Inr w' \<and>
       get_link w' 0 = Some (link_opened\<lparr>info := (info link_opened)\<lparr>PIf := None\<rparr>\<rparr>) \<and>
       refs (PppoeIfs w' ! 1) = refs (PppoeIfs world_two ! 1) - 1 \<and>
       (if refs (PppoeIfs w' ! 1) = 0
        then trace w' = trace world_two @ [CloseFd (csock (PppoeIfs world_two ! 1)), CloseFd (dsock (PppoeIfs world_two ! 1))] \<and>
             ifnodepath (PppoeIfs w' ! 1) = [] \<and> node_id (PppoeIfs w' ! 1) = 0 \<and>
             csock (PppoeIfs w' ! 1) = - 1 \<and> dsock (PppoeIfs w' ! 1) = - 1 \<and>
             \<not> ctrlEvent (PppoeIfs w' ! 1) \<and> \<not> dataEvent (PppoeIfs w' ! 1)
        else trace w' = trace world_two \<and>
             PppoeIfs w' ! 1 = (PppoeIfs world_two ! 1)\<lparr>refs := refs (PppoeIfs world_two ! 1) - 1\<rparr>)"
    using ex two_links(1-6) by simp_all
  from spec [OF inv, of 1] two_links(7,8)
  have a: "(0 < refs if_em0) = (0 \<le> csock if_em0 \<and> 0 \<le> dsock if_em0 \<and> ifnodepath if_em0 \<noteq> [])"
    by simp
  from acq have b: "\<exists>j w'. j < 2 \<and> ifnodepath (PppoeIfs world_two ! j) = ''em0:'' \<and>
       PppoeGetNode 1 (node_env env_ok) world_two = Inr w' \<and>
       get_link w' 1 = Some (link_two\<lparr>info := (info link_two)\<lparr>PIf := Some j\<rparr>\<rparr>) \<and>
       PppoeIfs w' = (PppoeIfs world_two)[j := (PppoeIfs world_two ! j)\<lparr>refs := refs (PppoeIfs world_two ! j) + 1\<rparr>] \<and>
       trace w' = trace world_two"
    using two_links(7,9) by simp
  from rel obtain w' where r: "PppoeReleaseNode 0 world_two = Inr w'"
    "get_link w' 0 = Some (link_opened\<lparr>info := (info link_opened)\<lparr>PIf := None\<rparr>\<rparr>)"
    "refs (PppoeIfs w' ! 1) = 0"
    and r': "(if refs (PppoeIfs w' ! 1) = 0
        then trace w' = trace world_two @ [CloseFd (csock (PppoeIfs world_two ! 1)), CloseFd (dsock (PppoeIfs world_two ! 1))] \<and>
             ifnodepath (PppoeIfs w' ! 1) = [] \<and> node_id (PppoeIfs w' ! 1) = 0 \<and>
             csock (PppoeIfs w' ! 1) = - 1 \<and> dsock (PppoeIfs w' ! 1) = - 1 \<and>
             \<not> ctrlEvent (PppoeIfs w' ! 1) \<and> \<not> dataEvent (PppoeIfs w' ! 1)
        else trace w' = trace world_two \<and>
             PppoeIfs w' ! 1 = (PppoeIfs world_two ! 1)\<lparr>refs := refs (PppoeIfs world_two ! 1) - 1\<rparr>)"
    using two_links(8) e by auto
  from r' r(3) have "trace w' = trace world_two @ [CloseFd 3, CloseFd 4] \<and>
       ifnodepath (PppoeIfs w' ! 1) = [] \<and> csock (PppoeIfs w' ! 1) = - 1 \<and> dsock (PppoeIfs w' ! 1) = - 1"
    using two_links(8) e by simp
  with r have c: "\<exists>w'. PppoeReleaseNode 0 world_two = Inr w' \<and>
       get_link w' 0 = Some (link_opened\<lparr>info := (info link_opened)\<lparr>PIf := None\<rparr>\<rparr>) \<and>
       refs (PppoeIfs w' ! 1) = 0 \<and>
       trace w' = trace world_two @ [CloseFd 3, CloseFd 4] \<and>
       ifnodepath (PppoeIfs w' ! 1) = [] \<and> csock (PppoeIfs w' ! 1) = - 1 \<and> dsock (PppoeIfs w' ! 1) = - 1"
    by blast
  from reach_two a b c two_links(1,3,4,6) two_links(8,9) e show ?thesis
    by simp
qed

section \<open>The real service name of a link that goes DOWN\<close>

lemma step_reachable: "step w w' \<Longrightarrow> reachable w \<Longrightarrow> reachable w'"
proof (induction rule: step.induct)
  case (s_create k w name t s en ac)
  then show ?case by (simp add: r_create)
next
  case (s_other k w l)
  then show ?case by (simp add: r_other)
next
  case (s_options w k l s en ac)
  then show ?case by (simp add: r_options)
next
  case (s_open w k env w')
  from s_open(3,1,2) show ?case by (rule r_open)
next
  case (s_close w k w')
  from s_close(3,1,2) show ?case by (rule r_close)
next
  case (s_timeout w k w')
  from s_timeout(4,1,2,3) show ?case by (rule r_timeout)
next
  case (s_ctrl p w rcv w')
  from s_ctrl(3,1,2) show ?case by (rule r_ctrl)
next
  case (s_listen p w inp w')
  from s_listen(3,1,2) show ?case by (rule r_listen)
next
  case (s_set w k av arg cenv lenv st w')
  from s_set(3,1,2) show ?case by (rule r_set)
next
  case (s_update w k cenv lenv w')
  from s_update(3,1,2) show ?case by (rule r_update)
next
  case (s_shutdown w k w')
  from s_shutdown(3,1,2) show ?case by (rule r_shutdown)
qed

lemma steps_snoc:
  "\<exists>pid n. step\<^sup>*\<^sup>* (boot pid n) w \<Longrightarrow> step w w' \<Longrightarrow> \<exists>pid n. step\<^sup>*\<^sup>* (boot pid n) w'"
  by (blast intro: rtranclp.rtrancl_into_rtrancl)

text \<open>The reachable states are those that a sequence of steps leads to from a start state.\<close>

lemma reachable_steps: "reachable w = (\<exists>pid n. step\<^sup>*\<^sup>* (boot pid n) w)"
proof
  assume "reachable w"
  then show "\<exists>pid n. step\<^sup>*\<^sup>* (boot pid n) w"
  proof (induction rule: reachable.induct)
    case (r_boot pid n)
    show ?case by blast
  next
    case (r_create w k name t s en ac)
    from r_create.IH show ?case by (rule steps_snoc) (rule s_create [OF r_create.hyps(2,3)])
  next
    case (r_other w k l)
    from r_other.IH show ?case by (rule steps_snoc) (rule s_other [OF r_other.hyps(2,3,4)])
  next
    case (r_options w k l s en ac)
    from r_options.IH show ?case by (rule steps_snoc) (rule s_options [OF r_options.hyps(2)])
  next
    case (r_open w k env w')
    from r_open.IH show ?case by (rule steps_snoc) (rule s_open [OF r_open.hyps(2,3)])
  next
    case (r_close w k w')
    from r_close.IH show ?case by (rule steps_snoc) (rule s_close [OF r_close.hyps(2,3)])
  next
    case (r_timeout w k w')
    from r_timeout.IH show ?case by (rule steps_snoc) (rule s_timeout [OF r_timeout.hyps(2,3,4)])
  next
    case (r_ctrl w p rcv w')
    from r_ctrl.IH show ?case by (rule steps_snoc) (rule s_ctrl [OF r_ctrl.hyps(2,3)])
  next
    case (r_listen w p inp w')
    from r_listen.IH show ?case by (rule steps_snoc) (rule s_listen [OF r_listen.hyps(2,3)])
  next
    case (r_set w k av arg cenv lenv st w')
    from r_set.IH show ?case by (rule steps_snoc) (rule s_set [OF r_set.hyps(2,3)])
  next
    case (r_update w k cenv lenv w')
    from r_update.IH show ?case by (rule steps_snoc) (rule s_update [OF r_update.hyps(2,3)])
  next
    case (r_shutdown w k w')
    from r_shutdown.IH show ?case by (rule steps_snoc) (rule s_shutdown [OF r_shutdown.hyps(2,3)])
  qed
next
  assume "\<exists>pid n. step\<^sup>*\<^sup>* (boot pid n) w"
  then obtain pid n where "step\<^sup>*\<^sup>* (boot pid n) w" by blast
  then show "reachable w"
  proof (induction rule: rtranclp_induct)
    case base
    show ?case by (rule r_boot)
  next
    case (step y z)
    from step(2,3) show ?case by (rule step_reachable)
  qed
qed

lemma rs_keep_refl [simp]: "rs_keep w w"
  by (auto simp: rs_keep_def kept_def split: option.splits)

lemma rs_keep_cong: "gLinks w1 = gLinks w \<Longrightarrow> rs_keep w0 w1 = rs_keep w0 w"
  by (simp add: rs_keep_def get_link_def)

lemma rs_keep_emit [simp]: "rs_keep w0 (emit e w) = rs_keep w0 w"
  by (rule rs_keep_cong) (simp add: emit_def)

lemma rs_keep_put_if [simp]: "rs_keep w0 (put_if i e w) = rs_keep w0 w"
  by (rule rs_keep_cong) (simp add: put_if_def)

lemma rs_keep_lheap [simp]: "rs_keep w0 (w\<lparr>lheap := h\<rparr>) = rs_keep w0 w"
  by (rule rs_keep_cong) simp

lemma rs_keep_loaded [simp]: "rs_keep w0 (w\<lparr>gNgEtherLoaded := b\<rparr>) = rs_keep w0 w"
  by (rule rs_keep_cong) simp

lemma rs_keep_put_link:
  assumes a: "rs_keep w0 w" and lk: "get_link w k = Some l"
    and c: "state l' = PHYS_STATE_DOWN \<longrightarrow>
            real_session (info l') = [] \<or>
            (state l = PHYS_STATE_DOWN \<and> real_session (info l') = real_session (info l))"
  shows "rs_keep w0 (put_link k l' w)"
  unfolding rs_keep_def
proof (intro allI)
  fix j
  from lk have kl: "k < length (gLinks w)" by (rule get_link_length)
  show "(get_link w0 j \<noteq> None \<longrightarrow> get_link (put_link k l' w) j \<noteq> None) \<and>
        kept (get_link w0 j) (get_link (put_link k l' w) j)"
  proof (cases "j = k")
    case False
    with a show ?thesis by (simp add: rs_keep_def get_link_put_link_other)
  next
    case True
    from a have "kept (get_link w0 k) (get_link w k)" by (simp add: rs_keep_def)
    with lk c have "kept (get_link w0 k) (Some l')"
      by (cases "get_link w0 k") (auto simp: kept_def)
    with True kl show ?thesis by (simp add: get_link_put_link)
  qed
qed

lemma rs_keep_same [simp]:
  "rs_keep w0 w \<Longrightarrow> get_link w k = Some l \<Longrightarrow> state l' = state l \<Longrightarrow>
   real_session (info l') = real_session (info l) \<Longrightarrow> rs_keep w0 (put_link k l' w)"
  by (rule rs_keep_put_link) auto

lemma rs_keep_nondown [simp]:
  "rs_keep w0 w \<Longrightarrow> get_link w k = Some l \<Longrightarrow> state l' \<noteq> PHYS_STATE_DOWN \<Longrightarrow>
   rs_keep w0 (put_link k l' w)"
  by (rule rs_keep_put_link) auto

lemma rs_keep_cleared [simp]:
  "rs_keep w0 w \<Longrightarrow> get_link w k = Some l \<Longrightarrow> real_session (info l') = [] \<Longrightarrow>
   rs_keep w0 (put_link k l' w)"
  by (rule rs_keep_put_link) auto

lemma rs_keep_ptr: "ptr_step k w w1 \<Longrightarrow> rs_keep w0 w \<Longrightarrow> rs_keep w0 w1"
proof -
  assume a: "ptr_step k w w1" and b: "rs_keep w0 w"
  from a obtain l l1 where l: "get_link w k = Some l"
    and g1: "gLinks w1 = (gLinks w)[k := Some l1]" and e1: "no_ptrs l1 = no_ptrs l"
    by (auto simp: ptr_step_def)
  have "rs_keep w0 (put_link k l1 w)"
    using b l by (rule rs_keep_same) (simp_all add: no_ptrs_fields [OF e1])
  moreover have "gLinks w1 = gLinks (put_link k l1 w)" by (simp add: g1 put_link_def)
  then have "rs_keep w0 w1 = rs_keep w0 (put_link k l1 w)" by (rule rs_keep_cong)
  ultimately show ?thesis by simp
qed

lemma rs_keep_store:
  assumes a: "rs_keep w0 w" and k: "k \<le> length (gLinks w)" and n: "get_link w k = None"
  shows "rs_keep w0 (store_link k l w)"
  unfolding rs_keep_def
proof (intro allI)
  fix j
  show "(get_link w0 j \<noteq> None \<longrightarrow> get_link (store_link k l w) j \<noteq> None) \<and>
        kept (get_link w0 j) (get_link (store_link k l w) j)"
  proof (cases "j = k")
    case True
    from a n have "get_link w0 k = None" by (auto simp: rs_keep_def)
    with True show ?thesis by (simp add: kept_def)
  next
    case False
    have "get_link (store_link k l w) j = get_link w j"
    proof (cases "get_link w j")
      case (Some lj)
      with False show ?thesis by (simp add: get_link_store_other)
    next
      case None
      with False k show ?thesis by (auto simp: store_link_def get_link_def nth_append split: if_splits)
    qed
    with a show ?thesis by (simp add: rs_keep_def)
  qed
qed

lemma rs_keep_step: "rs_keep w0 w \<Longrightarrow> rs_step w0 w"
  by (simp add: rs_keep_def rs_step_def)

lemma rs_keep_remove: "rs_keep w0 w \<Longrightarrow> rs_step w0 (w\<lparr>gLinks := (gLinks w)[k := None]\<rparr>)"
proof -
  assume a: "rs_keep w0 w"
  have "kept (get_link w0 j) (get_link (w\<lparr>gLinks := (gLinks w)[k := None]\<rparr>) j)" for j
  proof (cases "j = k")
    case True
    then show ?thesis by (cases "get_link w0 j") (auto simp: kept_def get_link_def)
  next
    case False
    then have "get_link (w\<lparr>gLinks := (gLinks w)[k := None]\<rparr>) j = get_link w j"
      by (simp add: get_link_def)
    with a show ?thesis by (simp add: rs_keep_def)
  qed
  then show ?thesis by (simp add: rs_step_def)
qed

lemma DoClose_rs: "PppoeDoClose k w = Inr w' \<Longrightarrow> rs_keep w0 w \<Longrightarrow> rs_keep w0 w'"
proof -
  assume a: "rs_keep w0 w"
  then have "(case PppoeDoClose k w of Inl f \<Rightarrow> True | Inr w' \<Rightarrow> rs_keep w0 w')"
    by (simp add: PppoeDoClose_def split: option.splits)
  then show "PppoeDoClose k w = Inr w' \<Longrightarrow> rs_keep w0 w'" by simp
qed

lemma Close_rs: "PppoeClose k w = Inr w' \<Longrightarrow> rs_keep w0 w \<Longrightarrow> rs_keep w0 w'"
proof -
  assume run: "PppoeClose k w = Inr w'" and a: "rs_keep w0 w"
  then obtain l where lk: "get_link w k = Some l"
    by (cases "get_link w k") (simp_all add: PppoeClose_def)
  define w1 where "w1 = put_link k (l\<lparr>info := (info l)\<lparr>opened := 0\<rparr>\<rparr>) w"
  have v: "rs_keep w0 w1" using a lk by (simp add: w1_def)
  from run lk have "w' = w1 \<or> (\<exists>w2. PppoeDoClose k w1 = Inr w2 \<and> w' = emit (PhysDown k STR_MANUALLY) w2)"
    by (auto simp: PppoeClose_def Let_def w1_def [symmetric] split: if_splits sum.splits)
  then show ?thesis using v DoClose_rs [of k w1 _ w0] by auto
qed

lemma Timeout_rs: "PppoeConnectTimeout k w = Inr w' \<Longrightarrow> rs_keep w0 w \<Longrightarrow> rs_keep w0 w'"
  using DoClose_rs [of k "emit (Log LG_PHYS ''PPPoE connection timeout'') w" _ w0]
  by (auto simp: PppoeConnectTimeout_def split: sum.splits)

lemma ctrl_decode_rs: "ctrl_decode lk msg w = Inr w' \<Longrightarrow> rs_keep w0 w \<Longrightarrow> rs_keep w0 w'"
proof -
  assume run: "ctrl_decode lk msg w = Inr w'" and a: "rs_keep w0 w"
  have d: "PppoeDoClose k (emit e w) = Inr w2 \<Longrightarrow> rs_keep w0 w2" for k e w2
    using DoClose_rs [of k "emit e w" w2 w0] a by simp
  from run a show ?thesis
    by (cases "cmd msg")
      (auto simp: ctrl_decode_def Let_def split: option.splits sum.splits if_splits dest: d)
qed

lemma Ctrl_rs: "PppoeCtrlReadEvent p rcv w = Inr w' \<Longrightarrow> rs_keep w0 w \<Longrightarrow> rs_keep w0 w'"
proof -
  assume run: "PppoeCtrlReadEvent p rcv w = Inr w'" and a: "rs_keep w0 w"
  show ?thesis
  proof (cases rcv)
    case None
    with run a show ?thesis by (auto simp: PppoeCtrlReadEvent_def)
  next
    case (Some msg)
    from ctrl_route_shape [of p msg w]
    consider k where "ctrl_route p msg w = Routed k" | "ctrl_route p msg w = Crashed OutOfBounds"
      | "ctrl_route p msg w = Dropped w" | lv t where "ctrl_route p msg w = Dropped (emit (Log lv t) w)"
      by blast
    then show ?thesis
      using run Some a
      by cases (auto simp: PppoeCtrlReadEvent_def split: if_splits dest: ctrl_decode_rs)
  qed
qed

lemma open_incoming_rs:
  "get_link w k = Some l \<Longrightarrow> open_incoming k l env w = Inr w' \<Longrightarrow> rs_keep w0 w \<Longrightarrow> rs_keep w0 w'"
proof -
  assume lk: "get_link w k = Some l" and a: "rs_keep w0 w"
  have "(case open_incoming k l env w of Inl f \<Rightarrow> True | Inr w' \<Rightarrow> rs_keep w0 w')"
    using lk a by (simp add: open_incoming_def open_fail2_def open_fail_def Let_def split: option.splits prod.splits)
  then show "open_incoming k l env w = Inr w' \<Longrightarrow> rs_keep w0 w'" by simp
qed

lemma open_connect_rs: "open_connect k env w = Inr w' \<Longrightarrow> rs_keep w0 w \<Longrightarrow> rs_keep w0 w'"
proof -
  assume a: "rs_keep w0 w"
  have "(case open_connect k env w of Inl f \<Rightarrow> True | Inr w' \<Rightarrow> rs_keep w0 w')"
    using a by (simp add: open_connect_def open_fail2_def open_fail_def Let_def split: option.splits prod.splits)
  then show "open_connect k env w = Inr w' \<Longrightarrow> rs_keep w0 w'" by simp
qed

lemma rs_keep_not_accepted [simp]: "rs_keep w0 (not_accepted k l w) = rs_keep w0 w"
  by (simp add: not_accepted_def Let_def)

lemma rs_keep_shutdown_tee [simp]: "rs_keep w0 (shutdown_tee k l inp cs tee w) = rs_keep w0 w"
  by (simp add: shutdown_tee_def Let_def)

lemma accept_on_rs: "accept_on k p inp rs ids w = Inr w' \<Longrightarrow> rs_keep w0 w \<Longrightarrow> rs_keep w0 w'"
proof -
  assume a: "rs_keep w0 w"
  have "(case accept_on k p inp rs ids w of Inl f \<Rightarrow> True | Inr w' \<Rightarrow> rs_keep w0 w')"
    using a by (simp add: accept_on_def Let_def split: option.splits prod.splits)
  then show "accept_on k p inp rs ids w = Inr w' \<Longrightarrow> rs_keep w0 w'" by simp
qed

lemma set_info_rs:
  "(\<And>pi. real_session (f pi) = real_session pi) \<Longrightarrow> rs_keep w0 w \<Longrightarrow> rs_keep w0 (set_info k f w)"
  by (simp add: set_info_def split: option.splits)

lemma GetNode_rs: "PppoeGetNode k env w = Inr w' \<Longrightarrow> get_link w k = Some l \<Longrightarrow> rs_keep w0 w \<Longrightarrow> rs_keep w0 w'"
  using PppoeGetNode_ptr [of k env w w' l] rs_keep_ptr [of k w w' w0] by simp

lemma ReleaseNode_rs: "PppoeReleaseNode k w = Inr w' \<Longrightarrow> get_link w k = Some l \<Longrightarrow> rs_keep w0 w \<Longrightarrow> rs_keep w0 w'"
  using PppoeReleaseNode_ptr [of k w w' l] rs_keep_ptr [of k w w' w0] by simp

lemma Listen_rs: "PppoeListen k env w = Inr w' \<Longrightarrow> get_link w k = Some l \<Longrightarrow> rs_keep w0 w \<Longrightarrow> rs_keep w0 w'"
  using PppoeListen_ptr [of k env w w' l] rs_keep_ptr [of k w w' w0] by simp

lemma UnListen_rs: "PppoeUnListen k w = Inr w' \<Longrightarrow> get_link w k = Some l \<Longrightarrow> rs_keep w0 w \<Longrightarrow> rs_keep w0 w'"
  using PppoeUnListen_ptr [of k w w' l] rs_keep_ptr [of k w w' w0] by simp

lemma Open_rs:
  assumes run: "PppoeOpen k env w = Inr w'" and a: "rs_keep w0 w"
  shows "rs_keep w0 w'"
proof -
  from run obtain l where lk: "get_link w k = Some l"
    by (auto simp: PppoeOpen_def split: option.splits)
  define l0 where "l0 = Deny LINK_CONF_ACFCOMP (Disable LINK_CONF_ACFCOMP (l\<lparr>info := (info l)\<lparr>opened := 1\<rparr>\<rparr>))"
  define w1 where "w1 = put_link k l0 w"
  have kl: "k < length (gLinks w)" using lk by (rule get_link_length)
  have l0: "get_link w1 k = Some l0" by (simp add: w1_def get_link_put_link kl)
  have a1: "rs_keep w0 w1" unfolding w1_def using a lk
    by (rule rs_keep_same) (simp_all add: l0_def Deny_def Disable_def)
  have cases: "open_incoming k l0 env w1 = Inr w' \<or>
      w' = emit (Log LG_PHYS ''PPPoE allready active'') w1 \<or> open_outgoing k env w1 = Inr w'"
  proof (cases "incoming (info l0) = 1")
    case True
    with run lk show ?thesis
      by (simp add: PppoeOpen_def Let_def l0_def [symmetric] w1_def)
  next
    case out: False
    show ?thesis
    proof (cases "state l0 = PHYS_STATE_DOWN")
      case True
      with out run lk show ?thesis
        by (simp add: PppoeOpen_def Let_def l0_def [symmetric] w1_def)
    next
      case False
      with out run lk show ?thesis
        by (auto simp: PppoeOpen_def Let_def l0_def [symmetric] w1_def)
    qed
  qed
  then show ?thesis
  proof (elim disjE)
    assume "open_incoming k l0 env w1 = Inr w'"
    with l0 show ?thesis using a1 by (rule open_incoming_rs)
  next
    assume "w' = emit (Log LG_PHYS ''PPPoE allready active'') w1"
    with a1 show ?thesis by simp
  next
    assume oo: "open_outgoing k env w1 = Inr w'"
    then obtain w2 where gn: "PppoeGetNode k (node_env env) w1 = Inr w2" and oc: "open_connect k env w2 = Inr w'"
      by (auto simp: open_outgoing_def split: sum.splits)
    from gn l0 a1 have "rs_keep w0 w2" by (rule GetNode_rs)
    with oc show ?thesis by (rule open_connect_rs)
  qed
qed

lemma NodeUpdate_ptr:
  assumes run: "PppoeNodeUpdate k cenv lenv w = Inr w'"
  shows "ptr_step k w w'"
proof -
  from run obtain l where lk: "get_link w k = Some l"
    by (cases "get_link w k") (simp_all add: PppoeNodeUpdate_def)
  show ?thesis
  proof (cases "plist (info l) = None")
    case True
    show ?thesis
    proof (cases "Enabled l LINK_CONF_INCOMING")
      case en: True
      with run lk True
      have "(case PppoeGetNode k cenv w of Inl f \<Rightarrow> Inl f | Inr w1 \<Rightarrow> PppoeListen k lenv w1) = Inr w'"
        by (simp add: PppoeNodeUpdate_def)
      from bind_Inr [OF this] obtain w1 where g: "PppoeGetNode k cenv w = Inr w1"
        and li: "PppoeListen k lenv w1 = Inr w'" by auto
      have a: "ptr_step k w w1" using g lk by (rule PppoeGetNode_ptr)
      from ptr_step_link [OF a lk] obtain l1 where "get_link w1 k = Some l1" by auto
      with li have "ptr_step k w1 w'" by (rule PppoeListen_ptr)
      with a show ?thesis by (rule ptr_step_trans)
    next
      case False
      with run lk True have "w' = w" by (simp add: PppoeNodeUpdate_def)
      with lk show ?thesis by (simp add: ptr_step_same)
    qed
  next
    case False
    show ?thesis
    proof (cases "Enabled l LINK_CONF_INCOMING")
      case True
      with run lk False have "w' = w" by (simp add: PppoeNodeUpdate_def)
      with lk show ?thesis by (simp add: ptr_step_same)
    next
      case dis: False
      with run lk False
      have "(case PppoeUnListen k w of Inl f \<Rightarrow> Inl f
             | Inr w1 \<Rightarrow> if state l = PHYS_STATE_DOWN then PppoeReleaseNode k w1 else Inr w1) = Inr w'"
        by (simp add: PppoeNodeUpdate_def)
      from bind_Inr [OF this] obtain w1 where u: "PppoeUnListen k w = Inr w1"
        and r: "(if state l = PHYS_STATE_DOWN then PppoeReleaseNode k w1 else Inr w1) = Inr w'" by auto
      have a: "ptr_step k w w1" using u lk by (rule PppoeUnListen_ptr)
      from ptr_step_link [OF a lk] obtain l1 where l1: "get_link w1 k = Some l1" by auto
      show ?thesis
      proof (cases "state l = PHYS_STATE_DOWN")
        case True
        with r have "PppoeReleaseNode k w1 = Inr w'" by simp
        then have "ptr_step k w1 w'" using l1 by (rule PppoeReleaseNode_ptr)
        with a show ?thesis by (rule ptr_step_trans)
      next
        case False
        with r a show ?thesis by simp
      qed
    qed
  qed
qed

lemma NodeUpdate_rs: "PppoeNodeUpdate k cenv lenv w = Inr w' \<Longrightarrow> rs_keep w0 w \<Longrightarrow> rs_keep w0 w'"
  using NodeUpdate_ptr [of k cenv lenv w w'] rs_keep_ptr [of k w w' w0] by simp

lemma set_iface_rs:
  assumes run: "set_iface k l name hookname cenv lenv w = Inr (st, w')" and lk: "get_link w k = Some l"
    and a: "rs_keep w0 w"
  shows "rs_keep w0 w'"
proof -
  define f :: "pppoeinfo \<Rightarrow> pppoeinfo" where "f = (\<lambda>pi. pi\<lparr>iface := strlcpy name IFNAMSIZ,
                                   path := iface_path (strlcpy name IFNAMSIZ),
                                   hook := strlcpy hookname NG_HOOKSIZ\<rparr>)"
  define w1 where "w1 = set_info k f w"
  have a1: "rs_keep w0 w1" unfolding w1_def by (rule set_info_rs) (simp_all add: f_def a)
  have l1: "get_link w1 k = Some (l\<lparr>info := f (info l)\<rparr>)" unfolding w1_def using lk by (rule set_info_link)
  show ?thesis
  proof (cases "plist (info l) \<noteq> None")
    case True
    with run have "(case relisten_iface k cenv lenv w1 of Inl f \<Rightarrow> Inl f | Inr w2 \<Rightarrow> Inr (CmdOk, w2)) = Inr (st, w')"
      by (simp add: set_iface_def Let_def f_def w1_def)
    then have "relisten_iface k cenv lenv w1 = Inr w'"
      by (cases "relisten_iface k cenv lenv w1") auto
    then have "ptr_step k w1 w'" using l1 by (rule relisten_iface_ptr)
    then show ?thesis using a1 by (rule rs_keep_ptr)
  next
    case False
    with run have "w' = w1" by (simp add: set_iface_def Let_def f_def w1_def)
    with a1 show ?thesis by simp
  qed
qed

lemma set_session_rs:
  assumes run: "(let w1 = set_info k (\<lambda>pi. pi\<lparr>session := strlcpy name MAX_SESSION\<rparr>) w
                    in if plist (info l) \<noteq> None then
                         (case PppoeUnListen k w1 of
                            Inl f \<Rightarrow> Inl f
                          | Inr w2 \<Rightarrow> (case PppoeListen k lenv w2 of
                              Inl f \<Rightarrow> Inl f
                            | Inr w3 \<Rightarrow> Inr (CmdOk, w3)))
                       else Inr (CmdOk, w1)) = Inr (st, w')"
    and lk: "get_link w k = Some l" and a: "rs_keep w0 w"
  shows "rs_keep w0 w'"
proof -
  define f :: "pppoeinfo \<Rightarrow> pppoeinfo" where "f = (\<lambda>pi. pi\<lparr>session := strlcpy name MAX_SESSION\<rparr>)"
  define w1 where "w1 = set_info k f w"
  have a1: "rs_keep w0 w1" unfolding w1_def by (rule set_info_rs) (simp_all add: f_def a)
  have l1: "get_link w1 k = Some (l\<lparr>info := f (info l)\<rparr>)" unfolding w1_def using lk by (rule set_info_link)
  show ?thesis
  proof (cases "plist (info l) \<noteq> None")
    case True
    with run have r: "(case PppoeUnListen k w1 of
                            Inl f \<Rightarrow> Inl f
                          | Inr w2 \<Rightarrow> (case PppoeListen k lenv w2 of
                              Inl f \<Rightarrow> Inl f
                            | Inr w3 \<Rightarrow> Inr (CmdOk, w3))) = Inr (st, w')"
      by (simp add: Let_def f_def w1_def)
    from bind_Inr [OF r] obtain w2 where u: "PppoeUnListen k w1 = Inr w2"
      and r2: "(case PppoeListen k lenv w2 of Inl f \<Rightarrow> Inl f | Inr w3 \<Rightarrow> Inr (CmdOk, w3)) = Inr (st, w')"
      by auto
    from r2 have b: "PppoeListen k lenv w2 = Inr w'" by (cases "PppoeListen k lenv w2") auto
    have s1: "ptr_step k w1 w2" using u l1 by (rule PppoeUnListen_ptr)
    from ptr_step_link [OF s1 l1] obtain l2 where l2: "get_link w2 k = Some l2" by auto
    have "ptr_step k w2 w'" using b l2 by (rule PppoeListen_ptr)
    with s1 have "ptr_step k w1 w'" by (rule ptr_step_trans)
    then show ?thesis using a1 by (rule rs_keep_ptr)
  next
    case False
    with run have "w' = w1" by (simp add: Let_def f_def w1_def)
    with a1 show ?thesis by simp
  qed
qed

lemma SetCommand_rs:
  assumes run: "PppoeSetCommand k av arg cenv lenv w = Inr (st, w')" and a: "rs_keep w0 w"
  shows "rs_keep w0 w'"
proof -
  from run obtain l where lk: "get_link w k = Some l"
    by (cases "get_link w k") (simp_all add: PppoeSetCommand_def)
  show ?thesis
  proof (cases arg)
    case SET_IFACE
    with run lk consider name hookname where "set_iface k l name hookname cenv lenv w = Inr (st, w')" | "w' = w"
      by (auto simp: PppoeSetCommand_def split: list.splits)
    then show ?thesis
    proof cases
      case 1
      then show ?thesis using lk a by (rule set_iface_rs)
    next
      case 2
      with a show ?thesis by simp
    qed
  next
    case SET_SESSION
    with run lk consider name where "(let w1 = set_info k (\<lambda>pi. pi\<lparr>session := strlcpy name MAX_SESSION\<rparr>) w
                    in if plist (info l) \<noteq> None then
                         (case PppoeUnListen k w1 of
                            Inl f \<Rightarrow> Inl f
                          | Inr w2 \<Rightarrow> (case PppoeListen k lenv w2 of
                              Inl f \<Rightarrow> Inl f
                            | Inr w3 \<Rightarrow> Inr (CmdOk, w3)))
                       else Inr (CmdOk, w1)) = Inr (st, w')" | "w' = w"
      by (auto simp: PppoeSetCommand_def split: list.splits)
    then show ?thesis
    proof cases
      case 1
      then show ?thesis using lk a by (rule set_session_rs)
    next
      case 2
      with a show ?thesis by simp
    qed
  next
    case SET_ACNAME
    with run lk a show ?thesis
      by (auto simp: PppoeSetCommand_def set_info_rs split: list.splits)
  next
    case SET_MAX_PAYLOAD
    with run lk a show ?thesis
      by (auto simp: PppoeSetCommand_def Let_def set_info_rs split: list.splits if_splits)
  next
    case SET_MAC_FORMAT
    with run lk a show ?thesis
      by (auto simp: PppoeSetCommand_def set_info_rs split: list.splits if_splits)
  next
    case SET_OTHER
    with run lk show ?thesis by (simp add: PppoeSetCommand_def)
  qed
qed

lemma LinkInst_rs:
  assumes run: "LinkInst kt slot name w = Inr (ko, w')" and a: "rs_keep w0 w"
  shows "rs_keep w0 w'"
proof -
  from run obtain lt where lt: "get_link w kt = Some lt"
    by (cases "get_link w kt") (simp_all add: LinkInst_def)
  show ?thesis
  proof (cases slot)
    case None
    with run lt a show ?thesis by (simp add: LinkInst_def)
  next
    case (Some k)
    define l where "l = lt\<lparr>link_id := int k, lname := name, tmpl := False, stay := False\<rparr>"
    define w1 where "w1 = store_link k l w"
    from run lt Some have kk: "k \<le> length (gLinks w)" "get_link w k = None"
      and r: "(case PppoeInst k kt w1 of Inl f \<Rightarrow> Inl f | Inr w2 \<Rightarrow> Inr (Some k, w2)) = Inr (ko, w')"
      by (auto simp: LinkInst_def Let_def l_def w1_def split: if_splits)
    from r have pi: "PppoeInst k kt w1 = Inr w'" by (cases "PppoeInst k kt w1") auto
    have ne: "kt \<noteq> k" using lt kk by auto
    have l1: "get_link w1 k = Some l" unfolding w1_def using kk(1) by (rule links_ok_store_get)
    have lt1: "get_link w1 kt = Some lt" unfolding w1_def using ne lt by (rule get_link_store_other)
    have same: "l\<lparr>info := info lt\<rparr> = l" by (simp add: l_def)
    from PppoeInst_links [OF l1 lt1] pi have "gLinks w' = (gLinks w1)[k := Some l]"
      by (simp add: same)
    then have g: "gLinks w' = gLinks w1"
      using kk(1) by (auto simp: w1_def store_link_def)
    have "rs_keep w0 w1" unfolding w1_def using a kk by (rule rs_keep_store)
    moreover from g have "rs_keep w0 w' = rs_keep w0 w1" by (rule rs_keep_cong)
    ultimately show ?thesis by simp
  qed
qed

lemma listen_request_rs:
  assumes run: "listen_request p inp w = Inr w'" and a: "rs_keep w0 w"
  shows "rs_keep w0 w'"
proof -
  define sess where "sess = drop 7 (rhook inp)"
  define w1 where "w1 = emit (Log LG_PHYS ''Incoming PPPoE connection request'') w"
  define rs where "rs = parse_real_session (frame inp) sess"
  define ids where "ids = fst (decode_agent_ids (frame inp))"
  have a1: "rs_keep w0 w1" using a by (simp add: w1_def)
  show ?thesis
  proof (cases "shutting_down inp \<or> overload inp")
    case True
    with run have "\<exists>e. w' = emit e w1"
      by (auto simp: listen_request_def Let_def w1_def split: if_splits)
    with a1 show ?thesis by auto
  next
    case False
    show ?thesis
    proof (cases "find_accepting inp p sess w1")
      case None
      with run False have "\<exists>e. w' = emit e w1"
        by (auto simp: listen_request_def Let_def sess_def w1_def)
      with a1 show ?thesis by auto
    next
      case (Some kt)
      from run False Some obtain lt where lt: "get_link w1 kt = Some lt"
        by (cases "get_link w1 kt") (simp_all add: listen_request_def Let_def sess_def w1_def)
      show ?thesis
      proof (cases "tmpl lt")
        case False
        with run \<open>\<not> (shutting_down inp \<or> overload inp)\<close> Some lt
        have "accept_on kt p inp rs ids w1 = Inr w'"
          unfolding listen_request_def Let_def sess_def w1_def rs_def ids_def by simp
        then show ?thesis using a1 by (rule accept_on_rs)
      next
        case True
        with run \<open>\<not> (shutting_down inp \<or> overload inp)\<close> Some lt
        have r: "(case LinkInst kt (inst_at inp) (inst_name inp) w1 of
                             Inl f \<Rightarrow> Inl f
                           | Inr (None, w2) \<Rightarrow>
                               Inr (emit (Log LG_PHYS ''No free PPPoE link with requested parameters was found'') w2)
                           | Inr (Some k, w2) \<Rightarrow> accept_on k p inp rs ids w2) = Inr w'"
          unfolding listen_request_def Let_def sess_def w1_def rs_def ids_def by simp
        then obtain ko w2 where li: "LinkInst kt (inst_at inp) (inst_name inp) w1 = Inr (ko, w2)"
          by (cases "LinkInst kt (inst_at inp) (inst_name inp) w1") auto
        have a2: "rs_keep w0 w2" using li a1 by (rule LinkInst_rs)
        show ?thesis
        proof (cases ko)
          case None
          with r li have "\<exists>e. w' = emit e w2" by auto
          with a2 show ?thesis by auto
        next
          case (Some k)
          with r li have "accept_on k p inp rs ids w2 = Inr w'" by simp
          then show ?thesis using a2 by (rule accept_on_rs)
        qed
      qed
    qed
  qed
qed

lemma ListenEvent_rs:
  assumes run: "PppoeListenEvent p inp w = Inr w'" and a: "rs_keep w0 w"
  shows "rs_keep w0 w'"
proof (cases "recv_sz inp = - 1 \<or> recv_sz inp = 0 \<or> take 7 (rhook inp) \<noteq> ''listen-'' \<or>
              (0 \<le> recv_sz inp \<and> recv_sz inp < 20)")
  case True
  with run have "\<exists>e. w' = emit e w" by (auto simp: PppoeListenEvent_def split: if_splits)
  with a show ?thesis by auto
next
  case False
  with run have "listen_request p inp w = Inr w'" by (auto simp: PppoeListenEvent_def split: if_splits)
  then show ?thesis using a by (rule listen_request_rs)
qed

lemma LinkShutdown_rs:
  assumes run: "LinkShutdown k w = Inr w'" and a: "rs_keep w0 w"
  shows "rs_step w0 w'"
proof -
  from run obtain w3 where sd: "PppoeShutdown k w = Inr w3" and b: "w' = w3\<lparr>gLinks := (gLinks w3)[k := None]\<rparr>"
    unfolding LinkShutdown_def by (cases "PppoeShutdown k w") auto
  from sd obtain w1 where c: "PppoeDoClose k w = Inr w1"
    and bc: "(case PppoeUnListen k w1 of Inl f \<Rightarrow> Inl f | Inr w2 \<Rightarrow> PppoeReleaseNode k w2) = Inr w3"
    unfolding PppoeShutdown_def by (blast dest: bind_Inr)
  from bind_Inr [OF bc] obtain w2 where u: "PppoeUnListen k w1 = Inr w2"
    and r: "PppoeReleaseNode k w2 = Inr w3" by auto
  from DoClose_link [OF c] obtain l1 where l1: "get_link w1 k = Some l1" by auto
  have a1: "rs_keep w0 w1" using c a by (rule DoClose_rs)
  have s1: "ptr_step k w1 w2" using u l1 by (rule PppoeUnListen_ptr)
  from ptr_step_link [OF s1 l1] obtain l2 where "get_link w2 k = Some l2" by auto
  with r have "ptr_step k w2 w3" by (rule PppoeReleaseNode_ptr)
  with s1 have "ptr_step k w1 w3" by (rule ptr_step_trans)
  then have "rs_keep w0 w3" using a1 by (rule rs_keep_ptr)
  then show ?thesis unfolding b by (rule rs_keep_remove)
qed

lemma step_rs: "step w w' \<Longrightarrow> rs_step w w'"
proof (induction rule: step.induct)
  case (s_create k w a b c d e)
  have "rs_keep w (store_link k l w)" for l
    using rs_keep_refl s_create by (rule rs_keep_store)
  then show ?case by (rule rs_keep_step)
next
  case (s_other k w l)
  have "rs_keep w (store_link k l w)"
    using rs_keep_refl s_other(1,2) by (rule rs_keep_store)
  then show ?case by (rule rs_keep_step)
next
  case (s_options w k l a b c)
  have "rs_keep w (put_link k (l\<lparr>stay := s, opt_enable := en, opt_accept := ac\<rparr>) w)" for s en ac
    using rs_keep_refl s_options by (rule rs_keep_same) simp_all
  then show ?case by (rule rs_keep_step)
next
  case (s_open w k env w')
  from s_open(2) rs_keep_refl have "rs_keep w w'" by (rule Open_rs)
  then show ?case by (rule rs_keep_step)
next
  case (s_close w k w')
  from s_close(2) rs_keep_refl have "rs_keep w w'" by (rule Close_rs)
  then show ?case by (rule rs_keep_step)
next
  case (s_timeout w k w')
  from s_timeout(3) rs_keep_refl have "rs_keep w w'" by (rule Timeout_rs)
  then show ?case by (rule rs_keep_step)
next
  case (s_ctrl p w rcv w')
  from s_ctrl(2) rs_keep_refl have "rs_keep w w'" by (rule Ctrl_rs)
  then show ?case by (rule rs_keep_step)
next
  case (s_listen p w inp w')
  from s_listen(2) rs_keep_refl have "rs_keep w w'" by (rule ListenEvent_rs)
  then show ?case by (rule rs_keep_step)
next
  case (s_set w k av arg cenv lenv st w')
  from s_set(2) rs_keep_refl have "rs_keep w w'" by (rule SetCommand_rs)
  then show ?case by (rule rs_keep_step)
next
  case (s_update w k cenv lenv w')
  from s_update(2) rs_keep_refl have "rs_keep w w'" by (rule NodeUpdate_rs)
  then show ?case by (rule rs_keep_step)
next
  case (s_shutdown w k w')
  from s_shutdown(2) rs_keep_refl show ?case by (rule LinkShutdown_rs)
qed


lemma reach_opened: "reachable world_opened"
proof -
  have p: "is_pppoe world_cfg 0" by code_simp
  have e: "PppoeOpen 0 env_ok world_cfg = Inr world_opened" by code_simp
  from reach_cfg p e show ?thesis by (rule r_open)
qed

lemma close_opened:
  "is_pppoe world_opened 0" "PppoeClose 0 world_opened = Inr world_closed"
  "get_link world_opened 0 = Some link_opened" "get_link world_closed 0 = Some link_closed"
  "state link_opened = PHYS_STATE_CONNECTING" "real_session (info link_opened) = ''isp''"
  "state link_closed = PHYS_STATE_DOWN" "ltype link_closed = gPppoePhysType"
  by code_simp+


section \<open>Closing a link that holds its parent\<close>

text \<open>
  In a reachable state the parent pointer of a PPPoE link, when it is set, points into
  the parent table, so that close() on a link that is not DOWN and holds a parent does
  all that is described above.
\<close>

lemma PppoeClose_effect_reachable:
  assumes "reachable w" and "get_link w k = Some l" and "ltype l = gPppoePhysType"
    and "state l \<noteq> PHYS_STATE_DOWN" and "PIf (info l) = Some i"
  shows "PppoeClose k w =
           Inr (w\<lparr>gLinks := (gLinks w)[k := Some (l\<lparr>state := PHYS_STATE_DOWN,
                       info := (info l)\<lparr>opened := 0, connectTimer := False, incoming := 0,
                                 peeraddr := replicate 6 0, real_session := [],
                                 agent_cid := [], agent_rid := [], mp_reply := 0\<rparr>\<rparr>)],
                  trace := trace w @ [NgFuncDisconnect (csock (PppoeIfs w ! i))
                                        (NodeIdPath (node_id (PppoeIfs w ! i)) []) (session_hook_of w l),
                                      PhysDown k STR_MANUALLY]\<rparr>)"
proof -
  have ok: "reg_ok w" using assms(1) by (rule reachable_reg_ok)
  from reg_okD(2) [OF ok assms(2)] assms(3,5) have "i < length (PppoeIfs w)"
    by (simp add: link_reg_ok_def)
  then have "get_if w i = Some (PppoeIfs w ! i)" by (simp add: get_if_def)
  with PppoeClose_effect [OF assms(2), of i "PppoeIfs w ! i"] assms(4,5) show ?thesis by simp
qed

end
